(* ===== verification/Prelude.thy ===== *)
theory Prelude
  imports Main "HOL-Library.Word" "HOL-Library.Char_ord" "HOL-Library.List_Lexorder"
    "HOL-Library.Sublist"
begin

text \<open>
  Shared vocabulary of the development: the exceptions and results of the C++ code, the
  state-and-exception computations that stateful member functions are translated to, their
  weakest preconditions, and the operations of the standard string library the sources use.

  A throwing pure function has type \<open>'a result\<close>; a member function that reads and writes
  its object has type \<open>('s, 'a) io\<close>. An exception keeps every assignment made before it,
  as in the source: the state component of an \<open>io\<close> is returned on both outcomes.
\<close>

section \<open>Error codes and exceptions\<close>

text \<open>The enumeration \<open>ErrorCode\<close> of system.hpp, with the source's enumerators.\<close>

datatype error_code =
    none
  | invalid_argument
  | permission_denied
  | unavailable
  | unsupported
  | busy
  | apply_failed
  | timeout
  | internal_error

text \<open>
  What a C++ function can throw here: the SDK's own \<open>Error\<close> with its code and message, any
  other \<open>std::exception\<close> (its \<open>what()\<close>), or an object of another type.
\<close>

datatype exn =
    Error error_code string
  | StdException string
  | UnknownException

text \<open>\<open>e.what()\<close>.\<close>

fun exn_what :: "exn \<Rightarrow> string" where
  "exn_what (Error c message) = message"
| "exn_what (StdException what) = what"
| "exn_what UnknownException = ''''"

type_synonym 'a result = "exn + 'a"

definition check :: "bool \<Rightarrow> string \<Rightarrow> unit result" where
  "check b message = (if b then Inr () else Inl (Error invalid_argument message))"

definition rbind :: "'a result \<Rightarrow> ('a \<Rightarrow> 'b result) \<Rightarrow> 'b result" where
  "rbind r k = (case r of Inl e \<Rightarrow> Inl e | Inr x \<Rightarrow> k x)"

definition rseq :: "unit result \<Rightarrow> 'b result \<Rightarrow> 'b result" where
  "rseq r k = (case r of Inl e \<Rightarrow> Inl e | Inr _ \<Rightarrow> k)"

fun for_each :: "('a \<Rightarrow> unit result) \<Rightarrow> 'a list \<Rightarrow> unit result" where
  "for_each f [] = Inr ()"
| "for_each f (x # xs) = rseq (f x) (for_each f xs)"

section \<open>Computations over a state that may throw\<close>

type_synonym ('s, 'a) io = "'s \<Rightarrow> 'a result \<times> 's"

definition ret :: "'a \<Rightarrow> ('s, 'a) io" where
  "ret x = (\<lambda>s. (Inr x, s))"

definition throw :: "exn \<Rightarrow> ('s, 'a) io" where
  "throw e = (\<lambda>s. (Inl e, s))"

definition bind :: "('s, 'a) io \<Rightarrow> ('a \<Rightarrow> ('s, 'b) io) \<Rightarrow> ('s, 'b) io" where
  "bind m k = (\<lambda>s. case m s of (Inl e, s') \<Rightarrow> (Inl e, s') | (Inr x, s') \<Rightarrow> k x s')"

definition seq :: "('s, unit) io \<Rightarrow> ('s, 'b) io \<Rightarrow> ('s, 'b) io" where
  "seq m k = bind m (\<lambda>_. k)"

definition catch :: "('s, 'a) io \<Rightarrow> (exn \<Rightarrow> ('s, 'a) io) \<Rightarrow> ('s, 'a) io" where
  "catch m h = (\<lambda>s. case m s of (Inl e, s') \<Rightarrow> h e s' | (Inr x, s') \<Rightarrow> (Inr x, s'))"

definition of_result :: "'a result \<Rightarrow> ('s, 'a) io" where
  "of_result r = (\<lambda>s. (r, s))"

definition gets :: "('s \<Rightarrow> 'a) \<Rightarrow> ('s, 'a) io" where
  "gets f = (\<lambda>s. (Inr (f s), s))"

definition modify :: "('s \<Rightarrow> 's) \<Rightarrow> ('s, unit) io" where
  "modify f = (\<lambda>s. (Inr (), f s))"

definition guard :: "bool \<Rightarrow> exn \<Rightarrow> ('s, unit) io" where
  "guard b e = (if b then ret () else throw e)"

definition cond :: "bool \<Rightarrow> ('s, unit) io \<Rightarrow> ('s, unit) io" where
  "cond b m = (if b then m else ret ())"

fun for_io :: "('a \<Rightarrow> ('s, unit) io) \<Rightarrow> 'a list \<Rightarrow> ('s, unit) io" where
  "for_io f [] = ret ()"
| "for_io f (x # xs) = seq (f x) (for_io f xs)"

fun map_io :: "('a \<Rightarrow> ('s, 'c) io) \<Rightarrow> 'a list \<Rightarrow> ('s, 'c list) io" where
  "map_io f [] = ret []"
| "map_io f (x # xs) = bind (f x) (\<lambda>y. bind (map_io f xs) (\<lambda>ys. ret (y # ys)))"

text \<open>The weakest precondition of a computation: \<open>Q\<close> on return, \<open>R\<close> on an exception.\<close>

definition wp :: "('s, 'a) io \<Rightarrow> ('a \<Rightarrow> 's \<Rightarrow> bool) \<Rightarrow> (exn \<Rightarrow> 's \<Rightarrow> bool) \<Rightarrow> 's \<Rightarrow> bool" where
  "wp m Q R s = (case m s of (Inl e, s') \<Rightarrow> R e s' | (Inr x, s') \<Rightarrow> Q x s')"

text \<open>An invariant a computation keeps whichever way it ends.\<close>

definition keeps :: "('s \<Rightarrow> bool) \<Rightarrow> ('s, 'a) io \<Rightarrow> bool" where
  "keeps I m = (\<forall>s. I s \<longrightarrow> I (snd (m s)))"

section \<open>Characters and strings\<close>

abbreviation ord :: "char \<Rightarrow> nat" where
  "ord c \<equiv> of_char c"

definition isdigit :: "char \<Rightarrow> bool" where
  "isdigit c = (48 \<le> ord c \<and> ord c \<le> 57)"

definition islower :: "char \<Rightarrow> bool" where
  "islower c = (97 \<le> ord c \<and> ord c \<le> 122)"

definition isupper :: "char \<Rightarrow> bool" where
  "isupper c = (65 \<le> ord c \<and> ord c \<le> 90)"

text \<open>\<open>std::isalnum\<close> in the "C" locale, the only one the programs run in.\<close>

definition isalnum :: "char \<Rightarrow> bool" where
  "isalnum c = (isdigit c \<or> islower c \<or> isupper c)"

text \<open>\<open>find\<close> of a character; \<open>npos\<close> is \<open>None\<close>.\<close>

fun find_char :: "char \<Rightarrow> string \<Rightarrow> nat option" where
  "find_char c [] = None"
| "find_char c (x # xs) = (if x = c then Some 0 else map_option Suc (find_char c xs))"

definition starts_with :: "string \<Rightarrow> string \<Rightarrow> bool" where
  "starts_with s p = (take (length p) s = p)"

definition ends_with :: "string \<Rightarrow> string \<Rightarrow> bool" where
  "ends_with s p = (length p \<le> length s \<and> drop (length s - length p) s = p)"

text \<open>\<open>find\<close> of a substring from the front.\<close>

fun find_str :: "string \<Rightarrow> string \<Rightarrow> nat option" where
  "find_str p [] = (if p = [] then Some 0 else None)"
| "find_str p (x # xs) =
     (if starts_with (x # xs) p then Some 0 else map_option Suc (find_str p xs))"

text \<open>\<open>substr(0, dot)\<close>, where \<open>dot\<close> may be \<open>npos\<close>.\<close>

definition upto_pos :: "nat option \<Rightarrow> string \<Rightarrow> string" where
  "upto_pos p s = (case p of None \<Rightarrow> s | Some i \<Rightarrow> take i s)"

text \<open>
  \<open>std::from_chars\<close> into an unsigned 32-bit integer: the longest prefix of digits of the
  base is read; an empty one is \<open>invalid_argument\<close> and a value that does not fit is
  \<open>result_out_of_range\<close> (both \<open>None\<close>). Otherwise the value and the characters consumed.
\<close>

definition digit_of :: "nat \<Rightarrow> char \<Rightarrow> nat option" where
  "digit_of base c =
     (let d = (if isdigit c then Some (ord c - 48)
               else if islower c then Some (ord c - 87)
               else if isupper c then Some (ord c - 55) else None)
      in case d of None \<Rightarrow> None | Some v \<Rightarrow> if v < base then Some v else None)"

fun scan_digits :: "nat \<Rightarrow> nat \<Rightarrow> string \<Rightarrow> nat \<times> string" where
  "scan_digits base acc [] = (acc, [])"
| "scan_digits base acc (c # cs) =
     (case digit_of base c of
        None \<Rightarrow> (acc, c # cs)
      | Some d \<Rightarrow> scan_digits base (base * acc + d) cs)"

definition from_chars_unsigned :: "nat \<Rightarrow> string \<Rightarrow> (nat \<times> string) option" where
  "from_chars_unsigned base s =
     (case scan_digits base 0 s of
        (v, rest) \<Rightarrow> if rest = s \<or> 2 ^ 32 \<le> v then None else Some (v, rest))"

text \<open>The idiom \<open>ec == errc{} && ptr == end\<close>: the whole text is one number.\<close>

definition parse_unsigned :: "nat \<Rightarrow> string \<Rightarrow> nat option" where
  "parse_unsigned base s =
     (case from_chars_unsigned base s of
        Some (v, []) \<Rightarrow> Some v
      | _ \<Rightarrow> None)"

text \<open>The pieces of a string between the occurrences of a separator.\<close>

fun split_on :: "char \<Rightarrow> string \<Rightarrow> string list" where
  "split_on c [] = [[]]"
| "split_on c (x # xs) =
     (if x = c then [] # split_on c xs
      else case split_on c xs of [] \<Rightarrow> [[x]] | y # ys \<Rightarrow> (x # y) # ys)"

text \<open>\<open>std::to_string\<close> of an unsigned integer.\<close>

fun to_string :: "nat \<Rightarrow> string" where
  "to_string n =
     (if n < 10 then [char_of (48 + n)] else to_string (n div 10) @ [char_of (48 + n mod 10)])"

declare to_string.simps [simp del]

text \<open>\<open>fs::path(directory) / name\<close> for a relative name.\<close>

definition path_join :: "string \<Rightarrow> string \<Rightarrow> string" where
  "path_join d n =
     (if d = [] \<or> last d = CHR ''/'' then d @ n else d @ ''/'' @ n)"

text \<open>\<open>duration_cast\<close> from nanoseconds to milliseconds rounds towards zero.\<close>

definition truncate_to_ms :: "int \<Rightarrow> int" where
  "truncate_to_ms ns = sgn ns * (\<bar>ns\<bar> div 1000000)"

section \<open>Lemma collections\<close>

named_theorems wp_rules \<open>weakest preconditions of the computation combinators\<close>
named_theorems keeps_rules \<open>computations that keep an invariant\<close>
named_theorems char_class \<open>character classes as ranges of codes\<close>

section \<open>Results\<close>

lemma check_simps [simp]:
  "check b m = Inr u \<longleftrightarrow> b"
  "check b m = Inl e \<longleftrightarrow> \<not> b \<and> e = Error invalid_argument m"
  by (auto simp: check_def)

lemma rbind_simps [simp]:
  "rbind (Inr x) k = k x"
  "rbind (Inl e) k = Inl e"
  "rbind r k = Inr y \<longleftrightarrow> (\<exists>x. r = Inr x \<and> k x = Inr y)"
  by (auto simp: rbind_def split: sum.splits)

lemma rseq_simps [simp]:
  "rseq (Inr u) k = k"
  "rseq (Inl e) k = Inl e"
  "rseq r k = Inr y \<longleftrightarrow> r = Inr () \<and> k = Inr y"
  by (auto simp: rseq_def split: sum.splits)

lemma for_each_Inr [simp]: "for_each f xs = Inr () \<longleftrightarrow> (\<forall>x\<in>set xs. f x = Inr ())"
  by (induction xs) auto

lemma result_unit_cases: "(r :: unit result) = Inr u \<longleftrightarrow> r = Inr ()"
  by simp

section \<open>Weakest preconditions\<close>

lemma wp_ret [wp_rules]: "wp (ret x) Q R s = Q x s"
  by (auto simp: wp_def ret_def split: prod.splits sum.splits)

lemma wp_throw [wp_rules]: "wp (throw e) Q R s = R e s"
  by (auto simp: wp_def throw_def split: prod.splits sum.splits)

lemma wp_bind [wp_rules]: "wp (bind m k) Q R s = wp m (\<lambda>x. wp (k x) Q R) R s"
  by (auto simp: wp_def bind_def split: prod.splits sum.splits)

lemma wp_seq [wp_rules]: "wp (seq m n) Q R s = wp m (\<lambda>_. wp n Q R) R s"
  by (auto simp: wp_def seq_def bind_def split: prod.splits sum.splits)

lemma wp_catch [wp_rules]: "wp (catch m h) Q R s = wp m Q (\<lambda>e. wp (h e) Q R) s"
  by (auto simp: wp_def catch_def split: prod.splits sum.splits)

lemma wp_gets [wp_rules]: "wp (gets f) Q R s = Q (f s) s"
  by (auto simp: wp_def gets_def split: prod.splits sum.splits)

lemma wp_modify [wp_rules]: "wp (modify g) Q R s = Q () (g s)"
  by (auto simp: wp_def modify_def split: prod.splits sum.splits)

lemma wp_guard [wp_rules]: "wp (guard b e) Q R s = (if b then Q () s else R e s)"
  by (auto simp: wp_def guard_def ret_def throw_def split: prod.splits sum.splits)

lemma wp_cond [wp_rules]: "wp (cond b n) Q R s = (if b then wp n Q R s else Q () s)"
  by (auto simp: wp_def cond_def ret_def split: prod.splits sum.splits)

lemma wp_of_result:
  "wp (of_result r) Q R s = (case r of Inl e \<Rightarrow> R e s | Inr x \<Rightarrow> Q x s)"
  by (simp add: wp_def of_result_def)

lemma wp_if [wp_rules]: "wp (if b then m else n) Q R s = (if b then wp m Q R s else wp n Q R s)"
  by simp

lemma wp_mono:
  assumes "wp m Q R s"
    and "\<And>x s'. Q x s' \<Longrightarrow> Q' x s'" and "\<And>e s'. R e s' \<Longrightarrow> R' e s'"
  shows "wp m Q' R' s"
  using assms by (auto simp: wp_def split: prod.splits sum.splits)

lemma wp_conj: "wp m Q R s \<Longrightarrow> wp m Q' R' s \<Longrightarrow>
    wp m (\<lambda>x s'. Q x s' \<and> Q' x s') (\<lambda>e s'. R e s' \<and> R' e s') s"
  by (auto simp: wp_def split: prod.splits sum.splits)

lemma wp_run: "m s = (r, s') \<Longrightarrow> wp m Q R s = (case r of Inl e \<Rightarrow> R e s' | Inr x \<Rightarrow> Q x s')"
  by (simp add: wp_def)

lemma wp_eqI:
  assumes "\<And>x s'. m s = (Inr x, s') \<Longrightarrow> Q x s'" and "\<And>e s'. m s = (Inl e, s') \<Longrightarrow> R e s'"
  shows "wp m Q R s"
  using assms by (auto simp: wp_def split: prod.splits sum.splits)

lemma wp_Inr: "wp m Q R s \<Longrightarrow> m s = (Inr x, s') \<Longrightarrow> Q x s'"
  by (simp add: wp_def)

lemma wp_Inl: "wp m Q R s \<Longrightarrow> m s = (Inl e, s') \<Longrightarrow> R e s'"
  by (simp add: wp_def)

lemma wp_state: "wp m (\<lambda>_. P) (\<lambda>_. P) s \<longleftrightarrow> P (snd (m s))"
  by (auto simp: wp_def split: prod.splits sum.splits)

section \<open>Invariants of computations\<close>

lemma keeps_wp: "keeps I m \<longleftrightarrow> (\<forall>s. I s \<longrightarrow> wp m (\<lambda>_. I) (\<lambda>_. I) s)"
  by (simp add: keeps_def wp_state)

lemma keepsI: "(\<And>s. I s \<Longrightarrow> wp m (\<lambda>_. I) (\<lambda>_. I) s) \<Longrightarrow> keeps I m"
  by (simp add: keeps_wp)

lemma keepsD: "keeps I m \<Longrightarrow> I s \<Longrightarrow> I (snd (m s))"
  by (simp add: keeps_def)

lemma keeps_run: "keeps I m \<Longrightarrow> m s = (r, s') \<Longrightarrow> I s \<Longrightarrow> I s'"
  by (auto simp: keeps_def)

lemma keeps_then:
  assumes "keeps I m" and "I s"
    and "\<And>x s'. I s' \<Longrightarrow> Q x s'" and "\<And>e s'. I s' \<Longrightarrow> R e s'"
  shows "wp m Q R s"
  using assms wp_mono [of m "\<lambda>_. I" "\<lambda>_. I" s Q R] by (simp add: keeps_wp)

lemma keeps_ret [keeps_rules]: "keeps I (ret x)"
  by (simp add: keeps_def ret_def)

lemma keeps_throw [keeps_rules]: "keeps I (throw e)"
  by (simp add: keeps_def throw_def)

lemma keeps_of_result [keeps_rules]: "keeps I (of_result r)"
  by (simp add: keeps_def of_result_def)

lemma keeps_gets [keeps_rules]: "keeps I (gets f)"
  by (simp add: keeps_def gets_def)

lemma keeps_guard [keeps_rules]: "keeps I (guard b e)"
  by (simp add: keeps_def guard_def ret_def throw_def)

lemma keeps_bind [keeps_rules]:
  assumes "keeps I m" and "\<And>x. keeps I (k x)"
  shows "keeps I (bind m k)"
  using assms by (fastforce simp: keeps_def bind_def split: prod.splits sum.splits)

lemma keeps_seq [keeps_rules]: "keeps I m \<Longrightarrow> keeps I n \<Longrightarrow> keeps I (seq m n)"
  by (simp add: seq_def keeps_bind)

lemma keeps_catch [keeps_rules]:
  assumes "keeps I m" and "\<And>e. keeps I (h e)"
  shows "keeps I (catch m h)"
  using assms by (fastforce simp: keeps_def catch_def split: prod.splits sum.splits)

lemma keeps_cond [keeps_rules]: "keeps I m \<Longrightarrow> keeps I (cond b m)"
  by (simp add: cond_def keeps_ret)

lemma keeps_if [keeps_rules]: "keeps I m \<Longrightarrow> keeps I n \<Longrightarrow> keeps I (if b then m else n)"
  by simp

lemma keeps_for_io [keeps_rules]: "(\<And>x. keeps I (f x)) \<Longrightarrow> keeps I (for_io f xs)"
  by (induction xs) (auto intro: keeps_rules)

lemma keeps_map_io [keeps_rules]: "(\<And>x. keeps I (f x)) \<Longrightarrow> keeps I (map_io f xs)"
  by (induction xs) (auto intro: keeps_rules)

lemma wp_map_io:
  assumes "\<And>x s. I s \<Longrightarrow> x \<in> set xs \<Longrightarrow> wp (f x) (\<lambda>y s'. P y \<and> I s') R s" and "I s"
  shows "wp (map_io f xs) (\<lambda>ys s'. list_all P ys \<and> I s') R s"
  using assms
proof (induction xs arbitrary: s)
  case Nil
  then show ?case by (simp add: wp_ret)
next
  case (Cons x xs)
  have rest: "wp (map_io f xs) (\<lambda>ys s'. list_all P ys \<and> I s') R s'" if "I s'" for s'
    using Cons that by simp
  show ?case
    unfolding map_io.simps wp_bind wp_ret
    by (rule wp_mono [OF Cons.prems(1) [OF Cons.prems(2)]]) (auto intro: wp_mono [OF rest])
qed

section \<open>Lists\<close>

lemma append_Cons_snoc: "t @ [e] = t1 @ x # t2 \<longleftrightarrow> (t = t1 \<and> e = x \<and> t2 = []) \<or> (\<exists>t2'. t2 = t2' @ [e] \<and> t = t1 @ x # t2')"
  by (cases t2 rule: rev_cases) auto

section \<open>Strings\<close>

lemmas char_class_defs [char_class] = isdigit_def islower_def isupper_def isalnum_def

lemma find_char_None: "find_char c s = None \<longleftrightarrow> c \<notin> set s"
  by (induction s) auto

lemma find_char_Some:
  "find_char c s = Some i \<longleftrightarrow> i < length s \<and> s ! i = c \<and> c \<notin> set (take i s)"
proof (induction s arbitrary: i)
  case Nil
  then show ?case by simp
next
  case (Cons x xs)
  show ?case by (cases i) (auto simp: Cons.IH)
qed

lemma find_char_split:
  assumes "find_char c s = Some i"
  shows "s = take i s @ c # drop (Suc i) s" and "c \<notin> set (take i s)" and "i < length s"
  using assms by (auto simp: find_char_Some id_take_nth_drop)

lemma find_char_append:
  "c \<notin> set xs \<Longrightarrow> find_char c (xs @ c # ys) = Some (length xs)"
  by (induction xs) auto

lemma find_str_None: "p \<noteq> [] \<Longrightarrow> find_str p s = None \<longleftrightarrow> \<not> sublist p s"
proof (induction s)
  case Nil
  then show ?case by simp
next
  case (Cons x xs)
  then show ?case
    by (auto simp: starts_with_def sublist_Cons_right prefix_def)
       (metis append_take_drop_id)
qed

lemma set_butlast_last: "xs \<noteq> [] \<Longrightarrow> set xs = insert (last xs) (set (butlast xs))"
  by (cases xs rule: rev_cases) auto

lemma split_on_nonempty [simp]: "split_on c s \<noteq> []"
  by (cases s) (auto split: list.splits)

lemma split_on_single [simp]: "c \<notin> set s \<Longrightarrow> split_on c s = [s]"
  by (induction s) auto

lemma split_on_append [simp]: "c \<notin> set a \<Longrightarrow> split_on c (a @ c # b) = a # split_on c b"
  by (induction a) auto

lemma split_on_chars: "x \<in> set s \<Longrightarrow> x = c \<or> (\<exists>p\<in>set (split_on c s). x \<in> set p)"
  by (induction s) (fastforce split: list.splits if_splits)+

lemma split_on_find:
  "split_on c s = (case find_char c s of None \<Rightarrow> [s]
     | Some i \<Rightarrow> take i s # split_on c (drop (Suc i) s))"
proof (cases "find_char c s")
  case None
  then have "c \<notin> set s" by (simp add: find_char_None)
  with None show ?thesis by simp
next
  case (Some i)
  note parts = find_char_split [OF Some]
  have "split_on c (take i s @ c # drop (Suc i) s) = take i s # split_on c (drop (Suc i) s)"
    using parts(2) by (rule split_on_append)
  with parts(1) Some show ?thesis by simp
qed

lemma split_on_append_any: "split_on c (a @ c # b) = split_on c a @ split_on c b"
  by (induction a) (auto split: list.splits)

lemma find_str_first:
  "find_str p s = Some i \<Longrightarrow>
     i \<le> length s \<and> starts_with (drop i s) p \<and> (\<forall>j<i. \<not> starts_with (drop j s) p)"
proof (induction s arbitrary: i)
  case Nil
  then show ?case by (auto simp: starts_with_def split: if_splits)
next
  case (Cons x xs)
  show ?case
  proof (cases "starts_with (x # xs) p")
    case True
    with Cons.prems show ?thesis by simp
  next
    case False
    with Cons.prems obtain k where k: "find_str p xs = Some k" "i = Suc k" by auto
    with Cons.IH [OF k(1)] False show ?thesis by (auto simp: less_Suc_eq_0_disj)
  qed
qed

lemma find_str_exists: "starts_with (drop i s) p \<Longrightarrow> i \<le> length s \<Longrightarrow> \<exists>j\<le>i. find_str p s = Some j"
proof (induction s arbitrary: i)
  case Nil
  then show ?case by (auto simp: starts_with_def)
next
  case (Cons x xs)
  show ?case
  proof (cases i)
    case 0
    with Cons.prems show ?thesis by simp
  next
    case (Suc k)
    with Cons.prems Cons.IH [of k] obtain j where "j \<le> k" "find_str p xs = Some j" by auto
    with Suc show ?thesis by auto
  qed
qed

lemma starts_with_append: "starts_with s p \<longleftrightarrow> (\<exists>t. s = p @ t)"
  by (metis append_eq_conv_conj append_take_drop_id starts_with_def)

lemma scan_digits_suffix: "\<exists>ds. s = ds @ snd (scan_digits b acc s)"
proof (induction s arbitrary: acc)
  case Nil
  then show ?case by simp
next
  case (Cons c cs)
  then show ?case by (auto split: option.splits) (metis append_Cons)
qed

section \<open>Decimal numerals\<close>

lemma ord_char_of_digit [simp]: "n < 10 \<Longrightarrow> ord (char_of (48 + n)) = 48 + n"
  by (simp add: of_char_of)

lemma digit_of_char_of [simp]: "n < 10 \<Longrightarrow> digit_of 10 (char_of (48 + n)) = Some n"
  by (simp add: digit_of_def isdigit_def)

lemma digit_of_10: "digit_of 10 c = Some d \<longleftrightarrow> isdigit c \<and> d = ord c - 48"
  by (auto simp: digit_of_def char_class split: if_splits)

lemma isdigit_char_of: "isdigit c \<Longrightarrow> char_of (ord c :: nat) = c"
  by simp

lemma scan_digits_append:
  "\<forall>c\<in>set xs. isdigit c \<Longrightarrow> scan_digits 10 acc (xs @ ys) = scan_digits 10 (fst (scan_digits 10 acc xs)) ys"
proof (induction xs arbitrary: acc)
  case Nil
  then show ?case by simp
next
  case (Cons x xs)
  then have "digit_of 10 x = Some (ord x - 48)" by (simp add: digit_of_10)
  with Cons show ?case by simp
qed

lemma scan_digits_all:
  "\<forall>c\<in>set xs. isdigit c \<Longrightarrow> snd (scan_digits 10 acc xs) = []"
proof (induction xs arbitrary: acc)
  case Nil
  then show ?case by simp
next
  case (Cons x xs)
  then have "digit_of 10 x = Some (ord x - 48)" by (simp add: digit_of_10)
  with Cons show ?case by simp
qed

lemma scan_digits_Nil_all: "snd (scan_digits 10 acc xs) = [] \<Longrightarrow> \<forall>c\<in>set xs. isdigit c"
proof (induction xs arbitrary: acc)
  case Nil
  then show ?case by simp
next
  case (Cons x xs)
  then show ?case by (auto split: option.splits simp: digit_of_10)
qed

lemma to_string_digits: "c \<in> set (to_string n) \<Longrightarrow> isdigit c"
proof (induction n rule: to_string.induct)
  case (1 n)
  show ?case
  proof (cases "n < 10")
    case True
    with "1.prems" show ?thesis
      by (auto simp: to_string.simps [of n] isdigit_def)
  next
    case False
    from False "1.prems" have "c \<in> set (to_string (n div 10)) \<or> c = char_of (48 + n mod 10)"
      by (auto simp: to_string.simps [of n])
    then show ?thesis
    proof
      assume "c \<in> set (to_string (n div 10))"
      with False "1.IH" show ?thesis by simp
    next
      assume "c = char_of (48 + n mod 10)"
      then show ?thesis by (simp add: isdigit_def)
    qed
  qed
qed

lemma to_string_nonempty [simp]: "to_string n \<noteq> []" "[] \<noteq> to_string n"
  by (subst to_string.simps, simp)+

lemma scan_to_string: "scan_digits 10 0 (to_string n) = (n, [])"
proof (induction n rule: to_string.induct)
  case (1 n)
  show ?case
  proof (cases "n < 10")
    case True
    then show ?thesis by (simp add: to_string.simps [of n])
  next
    case False
    with "1.IH" have IH: "scan_digits 10 0 (to_string (n div 10)) = (n div 10, [])" by simp
    have "scan_digits 10 0 (to_string (n div 10) @ [char_of (48 + n mod 10)]) =
        (10 * (n div 10) + n mod 10, [])"
      by (subst scan_digits_append) (auto simp: IH to_string_digits)
    with False show ?thesis by (simp add: to_string.simps [of n])
  qed
qed

lemma parse_to_string [simp]: "n < 2 ^ 32 \<Longrightarrow> parse_unsigned 10 (to_string n) = Some n"
  by (simp add: parse_unsigned_def from_chars_unsigned_def scan_to_string)

lemma to_string_inject [simp]: "to_string m = to_string n \<longleftrightarrow> m = n"
  by (metis fst_conv scan_to_string)

text \<open>A digit string without a leading zero is the numeral of its value.\<close>

lemma scan_digits_mono: "acc \<le> fst (scan_digits 10 acc xs)"
proof (induction xs arbitrary: acc)
  case Nil
  then show ?case by simp
next
  case (Cons x xs)
  have "acc \<le> 10 * acc + d" for d by simp
  then show ?case by (auto split: option.splits intro: order_trans [OF _ Cons.IH])
qed

lemma to_string_snoc:
  "0 < n \<Longrightarrow> d < 10 \<Longrightarrow> to_string (10 * n + d) = to_string n @ [char_of (48 + d)]"
  by (subst to_string.simps) simp

lemma to_string_scan:
  assumes "\<forall>c\<in>set xs. isdigit c" and "xs \<noteq> []" and "length xs = 1 \<or> hd xs \<noteq> CHR ''0''"
  shows "to_string (fst (scan_digits 10 0 xs)) = xs"
  using assms
proof (induction xs rule: rev_induct)
  case Nil
  then show ?case by simp
next
  case (snoc c cs)
  define d where "d = ord c - 48"
  from snoc.prems have c: "isdigit c" by simp
  then have d: "d < 10" "char_of (48 + d) = c" by (auto simp: d_def isdigit_def)
  have dc: "digit_of 10 c = Some d" using c by (simp add: digit_of_10 d_def)
  show ?case
  proof (cases "cs = []")
    case True
    with d dc show ?thesis by (simp add: to_string.simps [of d])
  next
    case False
    with snoc.prems have hd: "hd cs \<noteq> CHR ''0''" by (cases cs) auto
    with snoc False have IH: "to_string (fst (scan_digits 10 0 cs)) = cs" by simp
    obtain x ys where cs: "cs = x # ys" using False by (cases cs) auto
    have "isdigit x" using snoc.prems cs by simp
    moreover from hd cs have "ord x \<noteq> 48"
      using of_char_eq_iff [of x "CHR ''0''", where ?'a = nat] by simp
    ultimately have "0 < ord x - 48" and "digit_of 10 x = Some (ord x - 48)"
      by (auto simp: isdigit_def digit_of_10)
    then have pos: "0 < fst (scan_digits 10 0 cs)"
      using scan_digits_mono [of "ord x - 48" ys] by (simp add: cs)
    have "fst (scan_digits 10 0 (cs @ [c])) = 10 * fst (scan_digits 10 0 cs) + d"
      using snoc.prems dc by (simp add: scan_digits_append)
    with pos d IH show ?thesis by (simp add: to_string_snoc)
  qed
qed

lemma parse_canonical:
  assumes "parse_unsigned 10 s = Some n" and "length s = 1 \<or> hd s \<noteq> CHR ''0''"
  shows "s = to_string n" and "n < 2 ^ 32"
proof -
  from assms(1) have scan: "scan_digits 10 0 s = (n, [])" and n: "n < 2 ^ 32" and "s \<noteq> []"
    by (auto simp: parse_unsigned_def from_chars_unsigned_def split: option.splits prod.splits
        list.splits if_splits)
  then have "\<forall>c\<in>set s. isdigit c" using scan_digits_Nil_all [of 0 s] by simp
  with scan \<open>s \<noteq> []\<close> assms(2) show "s = to_string n" using to_string_scan [of s] by simp
  from n show "n < 2 ^ 32" .
qed

lemma to_string_hd: "length (to_string n) = 1 \<or> hd (to_string n) \<noteq> CHR ''0''"
proof (induction n rule: to_string.induct)
  case (1 n)
  show ?case
  proof (cases "n < 10")
    case True
    then show ?thesis by (simp add: to_string.simps [of n])
  next
    case False
    note IH = "1.IH" [OF False]
    have "hd (to_string (n div 10)) \<noteq> CHR ''0''"
    proof (cases "n div 10 < 10")
      case True
      have "char_of (48 + n div 10) \<noteq> CHR ''0''"
      proof
        assume "char_of (48 + n div 10) = CHR ''0''"
        then have "ord (char_of (48 + n div 10)) = (48::nat)" by simp
        with True False show False by (simp add: ord_char_of_digit)
      qed
      with True show ?thesis by (simp add: to_string.simps [of "n div 10"])
    next
      case False
      then have "length (to_string (n div 10)) \<noteq> 1"
        by (simp add: to_string.simps [of "n div 10"])
      with IH show ?thesis by simp
    qed
    with False show ?thesis by (simp add: to_string.simps [of n])
  qed
qed

end
