(* ===== verification/System_Types.thy ===== *)
theory System_Types
  imports Prelude
begin

text \<open>
  The data of the system-management contract (system.hpp, protocol.hpp, the policy and journal
  structures of backend.hpp) as records with the source's fields. Every field carries the initials
  of its structure, since Isabelle's record selectors share one name space. \<open>std::uint8_t\<close>,
  \<open>std::uint32_t\<close> and \<open>std::uint64_t\<close> are words of their width; \<open>std::vector\<close> is a list,
  \<open>std::optional\<close> is \<open>option\<close>.
\<close>

section \<open>Preferences\<close>

datatype network_mode = dhcp | static_ipv4

record network_config =
  nc_interface :: string
  nc_mode :: network_mode
  nc_address :: string
  nc_prefix_length :: "8 word"
  nc_gateway :: string
  nc_dns_servers :: "string list"
  nc_preferred_default :: bool

record preferences =
  pr_hostname :: string
  pr_ssh_enabled :: bool
  pr_network :: "network_config list"

record time_preferences =
  tp_synchronization :: string
  tp_timezone :: string
  tp_ptp_interface :: string
  tp_ntp_servers :: "string list"

record configuration =
  cf_system :: preferences
  cf_time :: time_preferences

record boot_preferences =
  bp_schema_version :: "32 word"
  bp_factory :: configuration
  bp_initial :: configuration
  bp_managed_hostname :: string

text \<open>The default member initialisers: what \<open>T{}\<close> builds.\<close>

definition default_network_config :: network_config where
  "default_network_config =
     \<lparr>nc_interface = '''', nc_mode = dhcp, nc_address = '''', nc_prefix_length = 24,
      nc_gateway = '''', nc_dns_servers = [], nc_preferred_default = False\<rparr>"

definition default_preferences :: preferences where
  "default_preferences = \<lparr>pr_hostname = ''mnc'', pr_ssh_enabled = True, pr_network = []\<rparr>"

definition default_time_preferences :: time_preferences where
  "default_time_preferences =
     \<lparr>tp_synchronization = ''ntp'', tp_timezone = ''UTC'', tp_ptp_interface = '''',
      tp_ntp_servers = []\<rparr>"

definition default_configuration :: configuration where
  "default_configuration =
     \<lparr>cf_system = default_preferences, cf_time = default_time_preferences\<rparr>"

section \<open>Observations and transactions\<close>

text \<open>A \<open>double\<close> is its IEEE 754 representation; no operation on it is computed in the model.\<close>

type_synonym double = "64 word"

record time_status =
  ts_unix_time_ms :: "64 word"
  ts_utc_time :: string
  ts_local_time :: string
  ts_timezone :: string
  ts_utc_offset_seconds :: "32 word"
  ts_uptime_ms :: "64 word"

record timezone_location =
  tl_latitude :: double
  tl_longitude :: double

record timezone =
  tz_id :: string
  tz_utc_offset_seconds :: "int option"
  tz_location :: "timezone_location option"

record timezone_catalog =
  tc_generated_at_unix_ms :: int
  tc_zones :: "timezone list"

record temperature =
  te_zone :: string
  te_label :: string
  te_millidegrees_c :: "int option"

record network_status =
  ns_interface :: string
  ns_mac_address :: string
  ns_carrier :: bool
  ns_addresses :: "string list"
  ns_gateway :: string
  ns_dns_servers :: "string list"

record ptp_interface =
  pi_interface :: string
  pi_carrier :: bool
  pi_hardware_timestamping :: bool
  pi_phc_index :: int
  pi_selectable :: bool
  pi_reason :: string

record system_status =
  ss_configuration :: configuration
  ss_network :: "network_status list"
  ss_ptp_interfaces :: "ptp_interface list"
  ss_irig_selectable :: bool
  ss_ssh_listening :: bool
  ss_kernel_release :: string
  ss_operating_system :: string

record audit_context =
  ac_actor :: string
  ac_request_id :: string

record network_proposal =
  np_network :: "network_config list"
  np_previous_settings_hash :: string
  np_candidate_settings_hash :: string
  np_audit_context :: audit_context

record network_transaction =
  nt_id :: string
  nt_state :: string
  nt_remaining_ms :: "64 word"
  nt_network :: "network_config list"
  nt_message :: string

record job =
  jb_id :: string
  jb_action :: string
  jb_state :: string

datatype power_action = reboot | shutdown

record reply =
  re_code :: error_code
  re_message :: string
  re_json :: string

definition default_network_transaction :: network_transaction where
  "default_network_transaction =
     \<lparr>nt_id = '''', nt_state = ''idle'', nt_remaining_ms = 0, nt_network = [], nt_message = ''''\<rparr>"

definition default_job :: job where
  "default_job = \<lparr>jb_id = '''', jb_action = '''', jb_state = ''''\<rparr>"

section \<open>Product policy and journal\<close>

record interface_policy =
  ip_name :: string
  ip_device_tree_node :: string

record sensor_policy =
  sp_zone :: string
  sp_label :: string

record profile =
  pf_settings_user :: string
  pf_control_user :: string
  pf_state_directory :: string
  pf_active_settings :: string
  pf_runtime_root :: string
  pf_runtime_etc_directory :: string
  pf_storage_status_file :: string
  pf_interfaces :: "interface_policy list"
  pf_sensors :: "sensor_policy list"
  pf_defaults :: configuration
  pf_ssh_socket :: string
  pf_ssh_service :: string
  pf_ntp_units :: "string list"
  pf_irig_units :: "string list"
  pf_ptp_units :: "string list"
  pf_ptp_unit_templates :: "string list"
  pf_reset_paths :: "string list"
  pf_boot_preferences :: "boot_preferences option"

definition default_profile :: profile where
  "default_profile =
     \<lparr>pf_settings_user = '''', pf_control_user = '''', pf_state_directory = '''',
      pf_active_settings = '''', pf_runtime_root = ''/run/mnc'',
      pf_runtime_etc_directory = '''', pf_storage_status_file = '''', pf_interfaces = [],
      pf_sensors = [], pf_defaults = default_configuration, pf_ssh_socket = ''sshd.socket'',
      pf_ssh_service = ''sshd.service'', pf_ntp_units = [''systemd-timesyncd.service''],
      pf_irig_units = [], pf_ptp_units = [], pf_ptp_unit_templates = [], pf_reset_paths = [],
      pf_boot_preferences = None\<rparr>"

record pending =
  pd_transaction :: network_transaction
  pd_previous :: "network_config list"
  pd_previous_hash :: string
  pd_candidate_hash :: string
  pd_deadline :: "64 word"
  pd_actor :: string
  pd_request_id :: string

definition default_pending :: pending where
  "default_pending =
     \<lparr>pd_transaction = default_network_transaction, pd_previous = [], pd_previous_hash = '''',
      pd_candidate_hash = '''', pd_deadline = 0, pd_actor = ''system'', pd_request_id = ''''\<rparr>"

record state =
  st_configuration :: configuration
  st_initialized :: bool
  st_pending :: pending
  st_job :: job
  st_reset_intent :: bool
  st_job_actor :: string
  st_job_request_id :: string

definition default_state :: state where
  "default_state =
     \<lparr>st_configuration = default_configuration, st_initialized = False,
      st_pending = default_pending, st_job = default_job, st_reset_intent = False,
      st_job_actor = ''system'', st_job_request_id = ''''\<rparr>"

lemmas default_defs =
  default_network_config_def default_preferences_def default_time_preferences_def
  default_configuration_def default_network_transaction_def default_job_def
  default_profile_def default_pending_def default_state_def

end
