(* ===== verification/Access_Policy.thy ===== *)
theory Access_Policy
  imports System_Types
begin

text \<open>
  Who may call what over the bus (access\_policy.hpp) and whose identity an audited operation is
  recorded under (audit.hpp). A user id is a \<open>uint32_t\<close>; an account that does not exist on the
  device is \<open>None\<close>.
\<close>

section \<open>Operations and who may call them\<close>

definition settingsOperation :: "string \<Rightarrow> bool" where
  "settingsOperation name =
     (name = ''ApplyPreferences'' \<or> name = ''BeginNetwork'' \<or> name = ''PrepareNetworkCommit'' \<or>
      name = ''FinishNetwork'')"

definition controlOperation :: "string \<Rightarrow> bool" where
  "controlOperation name = (name = ''Power'' \<or> name = ''ResetDevice'')"

definition allowed :: "string \<Rightarrow> 32 word \<Rightarrow> 32 word option \<Rightarrow> 32 word option \<Rightarrow> bool" where
  "allowed name uid settings_uid control_uid =
     (if settingsOperation name then uid = 0 \<or> (settings_uid \<noteq> None \<and> uid = the settings_uid)
      else if controlOperation name then uid = 0 \<or> (control_uid \<noteq> None \<and> uid = the control_uid)
      else name = ''GetStatus'' \<or> name = ''GetTime'' \<or> name = ''ListTimezones'' \<or>
        name = ''GetTimezoneCatalog'' \<or> name = ''GetTemperatures'' \<or>
        name = ''GetNetworkTransaction'' \<or> name = ''GetJob'')"

section \<open>Audit identity\<close>

definition safe_identity :: "string \<Rightarrow> nat \<Rightarrow> bool" where
  "safe_identity s bound = (length s \<le> bound \<and> (\<forall>c\<in>set s. \<not> (ord c < 32 \<or> ord c = 127)))"

definition trustedAuditContext ::
  "audit_context \<Rightarrow> 32 word \<Rightarrow> 32 word option \<Rightarrow> audit_context" where
  "trustedAuditContext context peer_uid trusted_uid =
     (if trusted_uid = None \<or> peer_uid \<noteq> the trusted_uid
      then \<lparr>ac_actor = ''uid:'' @ to_string (unat peer_uid), ac_request_id = ''''\<rparr>
      else \<lparr>ac_actor = (if ac_actor context = '''' \<or> \<not> safe_identity (ac_actor context) 256
                        then ''unknown'' else ac_actor context),
            ac_request_id = (if safe_identity (ac_request_id context) 128
                             then ac_request_id context else '''')\<rparr>)"

text \<open>The operations of the bus interface, as the daemon registers them.\<close>

definition bus_methods :: "string list" where
  "bus_methods =
     [''GetStatus'', ''GetTime'', ''ListTimezones'', ''GetTimezoneCatalog'', ''GetTemperatures'',
      ''ApplyPreferences'', ''BeginNetwork'', ''GetNetworkTransaction'', ''PrepareNetworkCommit'',
      ''FinishNetwork'', ''Power'', ''ResetDevice'', ''GetJob'']"

end
