(* ===== verification/Journal_Codec.thy ===== *)
theory Journal_Codec
  imports System_Types
begin

text \<open>
  What the backend relies on of the JSON library for its journal: if what was encoded can be decoded,
  this gives it back. (\<open>decode\<close> of protocol.hpp refuses texts over 65536 bytes, which no valid state
  reaches; the law does not speak of them.) The library itself is a parameter of the model; the codec
  below, over length-prefixed fields, shows that the law can hold and lets examples compute.
\<close>

locale journal_codec =
  fixes encodeState :: "state \<Rightarrow> string result" and decodeState :: "string \<Rightarrow> state result"
  assumes faithful: "encodeState s = Inr js \<Longrightarrow> decodeState js = Inr t \<Longrightarrow> t = s"

section \<open>Fields\<close>

type_synonym 'a parser = "string \<Rightarrow> 'a \<times> string"

definition parses :: "('a \<Rightarrow> string) \<Rightarrow> 'a parser \<Rightarrow> bool" where
  "parses put get = (\<forall>x rest. get (put x @ rest) = (x, rest))"

definition get_then :: "'a parser \<Rightarrow> ('a \<Rightarrow> 'b parser) \<Rightarrow> 'b parser" where
  "get_then get k = (\<lambda>s. case get s of (x, rest) \<Rightarrow> k x rest)"

definition get_done :: "'a \<Rightarrow> 'a parser" where
  "get_done x = (\<lambda>s. (x, s))"

definition put_len :: "nat \<Rightarrow> string" where
  "put_len n = replicate n (CHR ''1'') @ ''.''"

definition get_len :: "nat parser" where
  "get_len s = (let n = length (takeWhile (\<lambda>c. c = CHR ''1'') s) in (n, drop (Suc n) s))"

definition put_str :: "string \<Rightarrow> string" where
  "put_str s = put_len (length s) @ s"

definition get_str :: "string parser" where
  "get_str = get_then get_len (\<lambda>n s. (take n s, drop n s))"

definition put_bool :: "bool \<Rightarrow> string" where
  "put_bool b = (if b then ''t'' else ''f'')"

definition get_bool :: "bool parser" where
  "get_bool s = (hd s = CHR ''t'', tl s)"

definition put_nat :: "nat \<Rightarrow> string" where
  "put_nat n = put_str (to_string n)"

definition get_nat :: "nat parser" where
  "get_nat = get_then get_str (\<lambda>s. get_done (fst (scan_digits 10 0 s)))"

fun get_times :: "'a parser \<Rightarrow> nat \<Rightarrow> 'a list parser" where
  "get_times get 0 = get_done []"
| "get_times get (Suc n) = get_then get (\<lambda>x. get_then (get_times get n) (\<lambda>xs. get_done (x # xs)))"

definition put_list :: "('a \<Rightarrow> string) \<Rightarrow> 'a list \<Rightarrow> string" where
  "put_list put xs = put_len (length xs) @ concat (map put xs)"

definition get_list :: "'a parser \<Rightarrow> 'a list parser" where
  "get_list get = get_then get_len (get_times get)"

lemma parsesD: "parses put get \<Longrightarrow> get (put x @ rest) = (x, rest)"
  by (simp add: parses_def)

lemma parses_len: "parses put_len get_len"
proof -
  have "takeWhile (\<lambda>c. c = CHR ''1'') (replicate n (CHR ''1'') @ CHR ''.'' # rest) = replicate n (CHR ''1'')"
    for n rest by (induction n) simp_all
  then show ?thesis by (simp add: parses_def put_len_def get_len_def Let_def)
qed

lemma parses_str: "parses put_str get_str"
  using parses_len by (simp add: parses_def put_str_def get_str_def get_then_def)

lemma parses_bool: "parses put_bool get_bool"
  by (simp add: parses_def put_bool_def get_bool_def)

lemma parses_nat: "parses put_nat get_nat"
  using parses_str scan_to_string
  by (simp add: parses_def put_nat_def get_nat_def get_then_def get_done_def)

lemma parses_list: "parses put get \<Longrightarrow> parses (put_list put) (get_list get)"
proof -
  assume p: "parses put get"
  have "get_times get (length xs) (concat (map put xs) @ rest) = (xs, rest)" for xs rest
    by (induction xs) (simp_all add: get_done_def get_then_def parsesD [OF p])
  then show ?thesis using parses_len by (simp add: parses_def put_list_def get_list_def get_then_def)
qed

section \<open>The journal\<close>

definition put_network :: "network_config \<Rightarrow> string" where
  "put_network c = put_str (nc_interface c) @ put_bool (nc_mode c = dhcp) @ put_str (nc_address c) @
     put_nat (unat (nc_prefix_length c)) @ put_str (nc_gateway c) @ put_list put_str (nc_dns_servers c) @
     put_bool (nc_preferred_default c)"

definition get_network :: "network_config parser" where
  "get_network = get_then get_str (\<lambda>i. get_then get_bool (\<lambda>m. get_then get_str (\<lambda>a.
     get_then get_nat (\<lambda>l. get_then get_str (\<lambda>g. get_then (get_list get_str) (\<lambda>d.
     get_then get_bool (\<lambda>p. get_done
       \<lparr>nc_interface = i, nc_mode = (if m then dhcp else static_ipv4), nc_address = a,
        nc_prefix_length = of_nat l, nc_gateway = g, nc_dns_servers = d, nc_preferred_default = p\<rparr>)))))))"

definition put_configuration :: "configuration \<Rightarrow> string" where
  "put_configuration c = put_str (pr_hostname (cf_system c)) @ put_bool (pr_ssh_enabled (cf_system c)) @
     put_list put_network (pr_network (cf_system c)) @ put_str (tp_synchronization (cf_time c)) @
     put_str (tp_timezone (cf_time c)) @ put_str (tp_ptp_interface (cf_time c)) @
     put_list put_str (tp_ntp_servers (cf_time c))"

definition get_configuration :: "configuration parser" where
  "get_configuration = get_then get_str (\<lambda>h. get_then get_bool (\<lambda>ssh.
     get_then (get_list get_network) (\<lambda>n. get_then get_str (\<lambda>sy. get_then get_str (\<lambda>tz.
     get_then get_str (\<lambda>ptp. get_then (get_list get_str) (\<lambda>ntp. get_done
       \<lparr>cf_system = \<lparr>pr_hostname = h, pr_ssh_enabled = ssh, pr_network = n\<rparr>,
        cf_time = \<lparr>tp_synchronization = sy, tp_timezone = tz, tp_ptp_interface = ptp,
                   tp_ntp_servers = ntp\<rparr>\<rparr>)))))))"

definition put_pending :: "pending \<Rightarrow> string" where
  "put_pending p = put_str (nt_id (pd_transaction p)) @ put_str (nt_state (pd_transaction p)) @
     put_nat (unat (nt_remaining_ms (pd_transaction p))) @
     put_list put_network (nt_network (pd_transaction p)) @ put_str (nt_message (pd_transaction p)) @
     put_list put_network (pd_previous p) @ put_str (pd_previous_hash p) @
     put_str (pd_candidate_hash p) @ put_nat (unat (pd_deadline p)) @ put_str (pd_actor p) @
     put_str (pd_request_id p)"

definition get_pending :: "pending parser" where
  "get_pending = get_then get_str (\<lambda>i. get_then get_str (\<lambda>st. get_then get_nat (\<lambda>r.
     get_then (get_list get_network) (\<lambda>n. get_then get_str (\<lambda>m. get_then (get_list get_network) (\<lambda>pv.
     get_then get_str (\<lambda>ph. get_then get_str (\<lambda>ch. get_then get_nat (\<lambda>d. get_then get_str (\<lambda>a.
     get_then get_str (\<lambda>rid. get_done
       \<lparr>pd_transaction = \<lparr>nt_id = i, nt_state = st, nt_remaining_ms = of_nat r, nt_network = n,
                          nt_message = m\<rparr>,
        pd_previous = pv, pd_previous_hash = ph, pd_candidate_hash = ch, pd_deadline = of_nat d,
        pd_actor = a, pd_request_id = rid\<rparr>)))))))))))"

definition put_state :: "state \<Rightarrow> string" where
  "put_state s = put_configuration (st_configuration s) @ put_bool (st_initialized s) @
     put_pending (st_pending s) @ put_str (jb_id (st_job s)) @ put_str (jb_action (st_job s)) @
     put_str (jb_state (st_job s)) @ put_bool (st_reset_intent s) @ put_str (st_job_actor s) @
     put_str (st_job_request_id s)"

definition get_state :: "state parser" where
  "get_state = get_then get_configuration (\<lambda>c. get_then get_bool (\<lambda>i. get_then get_pending (\<lambda>p.
     get_then get_str (\<lambda>j. get_then get_str (\<lambda>a. get_then get_str (\<lambda>st. get_then get_bool (\<lambda>r.
     get_then get_str (\<lambda>ja. get_then get_str (\<lambda>jr. get_done
       \<lparr>st_configuration = c, st_initialized = i, st_pending = p,
        st_job = \<lparr>jb_id = j, jb_action = a, jb_state = st\<rparr>, st_reset_intent = r,
        st_job_actor = ja, st_job_request_id = jr\<rparr>)))))))))"

definition plain_encode :: "state \<Rightarrow> string result" where
  "plain_encode s = Inr (put_state s)"

definition plain_decode :: "string \<Rightarrow> state result" where
  "plain_decode js =
     (case get_state js of
        (s, rest) \<Rightarrow> if rest = [] then Inr s else Inl (Error invalid_argument ''invalid journal''))"

lemmas field_laws = parsesD [OF parses_str] parsesD [OF parses_bool] parsesD [OF parses_nat]
  parsesD [OF parses_list [OF parses_str]]

lemma parses_network: "parses put_network get_network"
proof -
  have "(if nc_mode c = dhcp then dhcp else static_ipv4) = nc_mode c" for c :: network_config
    by (cases "nc_mode c") simp_all
  then show ?thesis
    by (simp add: parses_def put_network_def get_network_def get_then_def get_done_def field_laws)
qed

lemmas network_law = parsesD [OF parses_list [OF parses_network]]

lemma parses_configuration: "parses put_configuration get_configuration"
  by (simp add: parses_def put_configuration_def get_configuration_def get_then_def get_done_def
      field_laws network_law)

lemma parses_pending: "parses put_pending get_pending"
  by (simp add: parses_def put_pending_def get_pending_def get_then_def get_done_def
      field_laws network_law)

lemma parses_state: "parses put_state get_state"
  by (simp add: parses_def put_state_def get_state_def get_then_def get_done_def
      field_laws parsesD [OF parses_configuration] parsesD [OF parses_pending])

lemma plain_roundtrip: "plain_encode s = Inr js \<Longrightarrow> plain_decode js = Inr s"
  using parsesD [OF parses_state, of s "[]"] by (auto simp: plain_encode_def plain_decode_def)

interpretation plain: journal_codec plain_encode plain_decode
  by unfold_locales (simp add: plain_roundtrip)

end
