(* ===== verification/Protocol.thy ===== *)
theory Protocol
  imports Journal_Codec
begin

text \<open>
  The messages between client and daemon (protocol.hpp): the request structures and the bounded
  JSON coding. The JSON library is a parameter, one reader and one writer per type: the reader
  returns the value or the formatted error, the writer the text or nothing.
\<close>

section \<open>Coding\<close>

record 'a glaze =
  gz_read :: "string \<Rightarrow> string + 'a"
  gz_write :: "'a \<Rightarrow> string option"

definition max_message_size :: nat where
  "max_message_size = 65536"

definition decode :: "'a glaze \<Rightarrow> nat \<Rightarrow> string \<Rightarrow> 'a result" where
  "decode g limit text =
     (if length text > limit then Inl (Error invalid_argument ''message too large'')
      else (case gz_read g text of
              Inl e \<Rightarrow> Inl (Error invalid_argument (''invalid system request: '' @ e))
            | Inr v \<Rightarrow> Inr v))"

definition encode :: "'a glaze \<Rightarrow> 'a \<Rightarrow> string result" where
  "encode g v =
     (case gz_write g v of
        None \<Rightarrow> Inl (Error internal_error ''cannot encode system message'')
      | Some text \<Rightarrow> Inr text)"

section \<open>Requests\<close>

record id_request =
  iq_id :: string

record finish_request =
  fq_id :: string
  fq_commit :: bool
  fq_audit_context :: audit_context

record power_request =
  pq_action :: power_action
  pq_audit_context :: audit_context

record reset_request =
  rq_confirmed :: bool
  rq_audit_context :: audit_context

definition empty_audit :: audit_context where
  "empty_audit = \<lparr>ac_actor = '''', ac_request_id = ''''\<rparr>"

text \<open>The reader and writer of every type that crosses the bus.\<close>

record codec =
  cd_empty :: "unit glaze"
  cd_configuration :: "configuration glaze"
  cd_proposal :: "network_proposal glaze"
  cd_id :: "id_request glaze"
  cd_finish :: "finish_request glaze"
  cd_power :: "power_request glaze"
  cd_reset :: "reset_request glaze"
  cd_status :: "system_status glaze"
  cd_time :: "time_status glaze"
  cd_names :: "string list glaze"
  cd_catalog :: "timezone_catalog glaze"
  cd_temperatures :: "temperature list glaze"
  cd_transaction :: "network_transaction glaze"
  cd_job :: "job glaze"
  cd_reply :: "reply glaze"

section \<open>Laws\<close>

text \<open>What both ends rely on of the library: a written text is read back.\<close>

locale lossless =
  fixes g :: "'a glaze"
  assumes reads_back: "gz_write g v = Some text \<Longrightarrow> gz_read g text = Inr v"
begin

lemma decode_encode: "encode g v = Inr text \<Longrightarrow> length text \<le> limit \<Longrightarrow> decode g limit text = Inr v"
  by (auto simp: encode_def decode_def reads_back split: option.splits)

lemma encode_inject: "encode g v = Inr js \<Longrightarrow> encode g v' = Inr js \<Longrightarrow> v = v'"
  using decode_encode [of v js "length js"] decode_encode [of v' js "length js"] by simp

end

lemma decode_error:
  "decode g limit text = Inl e \<Longrightarrow> \<exists>message. e = Error invalid_argument message"
  by (auto simp: decode_def split: if_splits sum.splits)

lemma decode_bounded: "decode g limit text = Inr v \<Longrightarrow> length text \<le> limit"
  by (auto simp: decode_def split: if_splits)

section \<open>A codec for examples\<close>

definition plain_glaze :: "('a \<Rightarrow> string) \<Rightarrow> 'a parser \<Rightarrow> 'a glaze" where
  "plain_glaze put get =
     \<lparr>gz_read = (\<lambda>text. case get text of (v, rest) \<Rightarrow> if rest = [] then Inr v else Inl ''trailing text''),
      gz_write = (\<lambda>v. Some (put v))\<rparr>"

lemma plain_lossless: "parses put get \<Longrightarrow> lossless (plain_glaze put get)"
  using parsesD [of put get _ "[]"] by unfold_locales (auto simp: plain_glaze_def)

definition put_code :: "error_code \<Rightarrow> string" where
  "put_code c = put_nat (case c of none \<Rightarrow> 0 | invalid_argument \<Rightarrow> 1 | permission_denied \<Rightarrow> 2
     | unavailable \<Rightarrow> 3 | unsupported \<Rightarrow> 4 | busy \<Rightarrow> 5 | apply_failed \<Rightarrow> 6 | timeout \<Rightarrow> 7 | internal_error \<Rightarrow> 8)"

definition get_code :: "error_code parser" where
  "get_code = get_then get_nat (\<lambda>n. get_done
     ([none, invalid_argument, permission_denied, unavailable, unsupported, busy, apply_failed, timeout,
       internal_error] ! n))"

definition put_reply :: "reply \<Rightarrow> string" where
  "put_reply r = put_code (re_code r) @ put_str (re_message r) @ put_str (re_json r)"

definition get_reply :: "reply parser" where
  "get_reply = get_then get_code (\<lambda>c. get_then get_str (\<lambda>m. get_then get_str (\<lambda>j. get_done
     \<lparr>re_code = c, re_message = m, re_json = j\<rparr>)))"

definition put_finish :: "finish_request \<Rightarrow> string" where
  "put_finish f = put_str (fq_id f) @ put_bool (fq_commit f) @ put_str (ac_actor (fq_audit_context f)) @
     put_str (ac_request_id (fq_audit_context f))"

definition get_finish :: "finish_request parser" where
  "get_finish = get_then get_str (\<lambda>i. get_then get_bool (\<lambda>c. get_then get_str (\<lambda>a. get_then get_str (\<lambda>r.
     get_done \<lparr>fq_id = i, fq_commit = c, fq_audit_context = \<lparr>ac_actor = a, ac_request_id = r\<rparr>\<rparr>))))"

lemma parses_code: "parses put_code get_code"
  by (auto simp: parses_def put_code_def get_code_def get_then_def get_done_def field_laws split: error_code.split)

lemma parses_reply: "parses put_reply get_reply"
  by (simp add: parses_def put_reply_def get_reply_def get_then_def get_done_def field_laws parsesD [OF parses_code])

lemma parses_finish: "parses put_finish get_finish"
  by (simp add: parses_def put_finish_def get_finish_def get_then_def get_done_def field_laws)

interpretation reply: lossless "plain_glaze put_reply get_reply"
  by (rule plain_lossless [OF parses_reply])

interpretation finish: lossless "plain_glaze put_finish get_finish"
  by (rule plain_lossless [OF parses_finish])

end
