(* ===== verification/Validation.thy ===== *)
theory Validation
  imports System_Types
begin

text \<open>
  The validation of preferences (validation.cpp): the IPv4 parser, the syntax of NTP servers and
  interface names, and the checks of a whole network list and configuration. A failed
  \<open>check(...)\<close> is the thrown \<open>Error\<close> with code \<open>invalid_argument\<close> and the source's message.
\<close>

unbundle bit_operations_syntax

section \<open>IPv4 addresses\<close>

text \<open>
  The loop of \<open>ipv4\<close>: the first argument counts the iterations left, so \<open>i == 3\<close> is the
  iteration with none left after it. \<open>dot\<close> is \<open>npos\<close> exactly when \<open>find_char\<close> is \<open>None\<close>.
\<close>

definition decimal_octet :: "string \<Rightarrow> nat option" where
  "decimal_octet part =
     (if part \<noteq> [] \<and> (length part = 1 \<or> hd part \<noteq> CHR ''0'')
      then case parse_unsigned 10 part of
             Some n \<Rightarrow> if n \<le> 255 then Some n else None
           | None \<Rightarrow> None
      else None)"

definition after_pos :: "nat option \<Rightarrow> string \<Rightarrow> string" where
  "after_pos p s = (case p of None \<Rightarrow> s | Some i \<Rightarrow> drop (Suc i) s)"

fun ipv4_loop :: "nat \<Rightarrow> string \<Rightarrow> 32 word \<Rightarrow> 32 word result" where
  "ipv4_loop 0 rest acc = Inr acc"
| "ipv4_loop (Suc k) rest acc =
     (let dot = find_char CHR ''.'' rest;
          part = upto_pos dot rest
      in case decimal_octet part of
           None \<Rightarrow> Inl (Error invalid_argument ''invalid IPv4 address'')
         | Some n \<Rightarrow>
             rseq (check ((k = 0) = (dot = None)) ''invalid IPv4 address'')
               (ipv4_loop k (after_pos dot rest) ((push_bit 8 acc) OR of_nat n)))"

definition ipv4 :: "string \<Rightarrow> 32 word result" where
  "ipv4 s =
     rbind (ipv4_loop 4 s 0) (\<lambda>addr.
       rseq (check (drop_bit 24 addr \<noteq> 0 \<and> drop_bit 24 addr < 224 \<and> drop_bit 24 addr \<noteq> 127)
              ''IPv4 must be a unicast address'')
         (Inr addr))"

text \<open>The lambda \<open>decimalAddress\<close> of \<open>validNtpServer\<close>: the same syntax, no unicast rule.\<close>

fun decimal_address_loop :: "nat \<Rightarrow> string \<Rightarrow> bool" where
  "decimal_address_loop 0 rest = True"
| "decimal_address_loop (Suc k) rest =
     (let dot = find_char CHR ''.'' rest;
          part = upto_pos dot rest
      in if decimal_octet part = None \<or> ((k = 0) \<noteq> (dot = None)) then False
         else decimal_address_loop k (after_pos dot rest))"

definition decimalAddress :: "string \<Rightarrow> bool" where
  "decimalAddress s = decimal_address_loop 4 s"

section \<open>NTP servers\<close>

text \<open>
  The lambda \<open>count\<close>: the number of 16-bit groups of a colon-separated part, \<open>None\<close> for the
  source's \<open>-1\<close>.
\<close>

function count_groups :: "bool \<Rightarrow> nat \<Rightarrow> string \<Rightarrow> nat option" where
  "count_groups allowV4 groups part =
     (if part = [] then Some groups
      else
        let colon = find_char CHR '':'' part;
            group = upto_pos colon part
        in if CHR ''.'' \<in> set group
           then (if allowV4 \<and> colon = None \<and> decimalAddress group then Some (groups + 2) else None)
           else if group = [] \<or> length group > 4 \<or> parse_unsigned 16 group = None then None
           else if colon = None then Some (groups + 1)
           else if drop (Suc (the colon)) part = [] then None
           else count_groups allowV4 (groups + 1) (drop (Suc (the colon)) part))"
  by pat_completeness auto
termination
  by (relation "measure (\<lambda>(_, _, part). length part)") auto

declare count_groups.simps [simp del]

definition label_char :: "char \<Rightarrow> bool" where
  "label_char c = (islower c \<or> isupper c \<or> isdigit c \<or> c = CHR ''-'')"

definition valid_label :: "string \<Rightarrow> bool" where
  "valid_label label =
     (label \<noteq> [] \<and> length label \<le> 63 \<and> hd label \<noteq> CHR ''-'' \<and> last label \<noteq> CHR ''-'' \<and>
      list_all label_char label)"

function host_labels :: "string \<Rightarrow> bool" where
  "host_labels s =
     (if s = [] then False
      else
        let dot = find_char CHR ''.'' s;
            label = upto_pos dot s
        in if \<not> valid_label label then False
           else if dot = None then True
           else host_labels (drop (Suc (the dot)) s))"
  by pat_completeness auto
termination
  by (relation "measure length") auto

declare host_labels.simps [simp del]

definition validNtpServer :: "string \<Rightarrow> bool" where
  "validNtpServer server =
     (if server = [] \<or> length server > 253 then False
      else if find_char CHR '':'' server \<noteq> None then
        (case find_str ''::'' server of
           None \<Rightarrow> count_groups True 0 server = Some 8
         | Some compression \<Rightarrow>
             if find_str ''::'' (drop (compression + 2) server) \<noteq> None then False
             else
               (case (count_groups False 0 (take compression server),
                      count_groups True 0 (drop (compression + 2) server)) of
                  (Some left, Some right) \<Rightarrow> left + right < 8
                | _ \<Rightarrow> False))
      else if list_all (\<lambda>c. isdigit c \<or> c = CHR ''.'') server then decimalAddress server
      else host_labels (if last server = CHR ''.'' then butlast server else server))"

section \<open>Interface names and network lists\<close>

definition name_char :: "char \<Rightarrow> bool" where
  "name_char c = (isalnum c \<or> c = CHR ''_'' \<or> c = CHR ''-'')"

definition validInterfaceName :: "string \<Rightarrow> bool" where
  "validInterfaceName name = (name \<noteq> [] \<and> length name < 16 \<and> list_all name_char name)"

definition subnet_mask :: "8 word \<Rightarrow> 32 word" where
  "subnet_mask prefix_length = push_bit (32 - unat prefix_length) 0xffffffff"

text \<open>\<open>(x & ~mask) != 0 && (x & ~mask) != ~mask\<close>, asked of prefixes shorter than 31.\<close>

definition host_part_ok :: "8 word \<Rightarrow> 32 word \<Rightarrow> bool" where
  "host_part_ok prefix_length x =
     (prefix_length < 31 \<longrightarrow>
        x AND NOT (subnet_mask prefix_length) \<noteq> 0 \<and>
        x AND NOT (subnet_mask prefix_length) \<noteq> NOT (subnet_mask prefix_length))"

definition validate_gateway :: "network_config \<Rightarrow> 32 word \<Rightarrow> unit result" where
  "validate_gateway c addr =
     (if nc_gateway c = [] then Inr ()
      else rbind (ipv4 (nc_gateway c)) (\<lambda>gateway.
        let mask = subnet_mask (nc_prefix_length c)
        in rseq (check (gateway \<noteq> addr \<and> gateway AND mask = addr AND mask)
                  ''gateway must be a different address on the subnet'')
             (check (host_part_ok (nc_prefix_length c) gateway)
                ''gateway cannot be a network or broadcast address'')))"

definition validate_addressing :: "network_config \<Rightarrow> unit result" where
  "validate_addressing c =
     (case nc_mode c of
        dhcp \<Rightarrow> check (nc_address c = [] \<and> nc_gateway c = [])
                  ''DHCP cannot specify a static address or gateway''
      | static_ipv4 \<Rightarrow>
          rseq (check (1 \<le> nc_prefix_length c \<and> nc_prefix_length c \<le> 32) ''invalid IPv4 prefix'')
          (rseq (check (\<not> nc_preferred_default c \<or> nc_gateway c \<noteq> [])
                   ''preferred static interface requires a gateway'')
          (rbind (ipv4 (nc_address c)) (\<lambda>addr.
            rseq (check (host_part_ok (nc_prefix_length c) addr)
                    ''network/broadcast address is not a host'')
              (validate_gateway c addr)))))"

definition validate_interface :: "string list \<Rightarrow> network_config \<Rightarrow> unit result" where
  "validate_interface names c =
     rseq (check (nc_interface c \<noteq> [] \<and> length (nc_interface c) < 16 \<and>
                  list_all name_char (nc_interface c)) ''invalid interface name'')
     (rseq (check (nc_interface c \<notin> set names) ''duplicate interface'')
     (rseq (check (length (nc_dns_servers c) \<le> 4) ''too many DNS servers'')
     (rseq (for_each (\<lambda>dns. rbind (ipv4 dns) (\<lambda>_. Inr ())) (nc_dns_servers c))
     (validate_addressing c))))"

text \<open>The loop over the interfaces with the set \<open>names\<close> of the interfaces seen so far.\<close>

fun validate_interfaces :: "string list \<Rightarrow> network_config list \<Rightarrow> unit result" where
  "validate_interfaces names [] = Inr ()"
| "validate_interfaces names (c # cs) =
     rseq (validate_interface names c) (validate_interfaces (nc_interface c # names) cs)"

definition validateNetwork :: "network_config list \<Rightarrow> unit result" where
  "validateNetwork configs =
     rseq (check (length configs \<le> 8) ''too many network interfaces'')
     (rseq (check (length (filter nc_preferred_default configs) \<le> 1)
              ''only one preferred default interface is allowed'')
     (validate_interfaces [] configs))"

section \<open>Configurations\<close>

definition hostname_char :: "char \<Rightarrow> bool" where
  "hostname_char c = (isalnum c \<or> c = CHR ''-'')"

definition valid_hostname :: "string \<Rightarrow> bool" where
  "valid_hostname h =
     (h \<noteq> [] \<and> length h \<le> 63 \<and> hd h \<noteq> CHR ''-'' \<and> last h \<noteq> CHR ''-'' \<and> list_all hostname_char h)"

definition timezone_char :: "char \<Rightarrow> bool" where
  "timezone_char c =
     (isalnum c \<or> c = CHR ''/'' \<or> c = CHR ''_'' \<or> c = CHR ''-'' \<or> c = CHR ''+'')"

definition valid_timezone :: "string \<Rightarrow> bool" where
  "valid_timezone z =
     (z \<noteq> [] \<and> length z \<le> 128 \<and> hd z \<noteq> CHR ''/'' \<and> find_str ''..'' z = None \<and>
      list_all timezone_char z)"

definition valid_synchronization :: "string \<Rightarrow> bool" where
  "valid_synchronization m = (m = ''ntp'' \<or> m = ''ptp'' \<or> m = ''irig'' \<or> m = ''local'')"

fun validate_servers :: "string list \<Rightarrow> string list \<Rightarrow> unit result" where
  "validate_servers seen [] = Inr ()"
| "validate_servers seen (server # servers) =
     rseq (check (validNtpServer server)
             ''invalid NTP server: use a hostname or IP address without a port'')
     (rseq (check (server \<notin> set seen) ''duplicate NTP server'')
     (validate_servers (server # seen) servers))"

definition validate :: "configuration \<Rightarrow> unit result" where
  "validate c =
     rseq (check (valid_hostname (pr_hostname (cf_system c))) ''invalid hostname'')
     (rseq (check (valid_synchronization (tp_synchronization (cf_time c)))
              ''invalid time synchronization mode'')
     (rseq (check (valid_timezone (tp_timezone (cf_time c))) ''invalid timezone'')
     (rseq (check ((tp_ptp_interface (cf_time c) = [] \<and> tp_synchronization (cf_time c) \<noteq> ''ptp'') \<or>
                   validInterfaceName (tp_ptp_interface (cf_time c)))
              ''invalid PTP interface name'')
     (rseq (check (length (tp_ntp_servers (cf_time c)) \<le> 8) ''at most eight NTP servers are allowed'')
     (rseq (validate_servers [] (tp_ntp_servers (cf_time c)))
     (validateNetwork (pr_network (cf_system c))))))))"

section \<open>The meaning of dotted addresses\<close>

text \<open>The text of a list of octets, and the address four octets denote.\<close>

fun dotted :: "nat list \<Rightarrow> string" where
  "dotted [] = []"
| "dotted [n] = to_string n"
| "dotted (n # ns) = to_string n @ CHR ''.'' # dotted ns"

definition address_of :: "nat \<Rightarrow> nat \<Rightarrow> nat \<Rightarrow> nat \<Rightarrow> nat" where
  "address_of a b c d = a * 2 ^ 24 + b * 2 ^ 16 + c * 2 ^ 8 + d"

lemma decimal_octet_iff: "decimal_octet p = Some n \<longleftrightarrow> p = to_string n \<and> n \<le> 255"
proof
  assume "decimal_octet p = Some n"
  then show "p = to_string n \<and> n \<le> 255"
    by (auto simp: decimal_octet_def split: if_splits option.splits intro: parse_canonical)
next
  assume "p = to_string n \<and> n \<le> 255"
  then show "decimal_octet p = Some n"
    using to_string_hd [of n] by (auto simp: decimal_octet_def)
qed

lemma decimal_octet_to_string [simp]: "n \<le> 255 \<Longrightarrow> decimal_octet (to_string n) = Some n"
  by (simp add: decimal_octet_iff)

lemma dot_notin_to_string [simp]: "CHR ''.'' \<notin> set (to_string n)"
  using to_string_digits [of "CHR ''.''" n] by (auto simp: isdigit_def)

lemma dot_split:
  "find_char CHR ''.'' (to_string n) = None"
  "find_char CHR ''.'' (to_string n @ CHR ''.'' # s) = Some (length (to_string n))"
  by (simp_all add: find_char_append find_char_None)

lemma dotted_Cons: "ns \<noteq> [] \<Longrightarrow> dotted (n # ns) = to_string n @ CHR ''.'' # dotted ns"
  by (cases ns) auto

lemma dotted_octets_exhaust:
  assumes "find_char CHR ''.'' s = dot" and "decimal_octet (upto_pos dot s) = Some n"
  shows "n \<le> 255" and "s = (case dot of None \<Rightarrow> to_string n
           | Some i \<Rightarrow> to_string n @ CHR ''.'' # after_pos dot s)"
proof -
  from assms(2) have "upto_pos dot s = to_string n" and n: "n \<le> 255"
    by (auto simp: decimal_octet_iff)
  then show "s = (case dot of None \<Rightarrow> to_string n
           | Some i \<Rightarrow> to_string n @ CHR ''.'' # after_pos dot s)"
    using find_char_split [of "CHR ''.''" s] assms(1)
    by (auto simp: upto_pos_def after_pos_def split: option.splits)
  from n show "n \<le> 255" .
qed

definition shift_in :: "32 word \<Rightarrow> nat \<Rightarrow> 32 word" where
  "shift_in acc n = (push_bit 8 acc) OR of_nat n"

lemma ipv4_loop_dotted:
  assumes "\<forall>n\<in>set ns. n \<le> 255" and "length ns = Suc k"
  shows "ipv4_loop (Suc k) (dotted ns) acc = Inr (foldl shift_in acc ns)"
  using assms
proof (induction k arbitrary: ns acc)
  case 0
  then obtain n where "ns = [n]" by (cases ns) auto
  with 0 show ?case
    by (simp add: dot_split upto_pos_def check_def shift_in_def)
next
  case (Suc k)
  then obtain n ms where ns: "ns = n # ms" "length ms = Suc k" by (cases ns) auto
  then have "ms \<noteq> []" by auto
  with ns Suc show ?case
    by (simp add: dotted_Cons dot_split upto_pos_def after_pos_def Let_def
        check_def shift_in_def del: ipv4_loop.simps(2)
        add: ipv4_loop.simps(2) [of "Suc k"])
qed

lemma ipv4_loop_Inr:
  assumes "ipv4_loop (Suc k) s acc = Inr w"
  shows "\<exists>ns. length ns = Suc k \<and> (\<forall>n\<in>set ns. n \<le> 255) \<and> s = dotted ns"
  using assms
proof (induction k arbitrary: s acc)
  case 0
  then obtain n where "find_char CHR ''.'' s = None" and "decimal_octet (upto_pos None s) = Some n"
    by (auto simp: Let_def split: option.splits)
  from dotted_octets_exhaust [OF this] have "s = dotted [n]" "n \<le> 255" by simp_all
  then show ?case by (intro exI [of _ "[n]"]) simp
next
  case (Suc k)
  then obtain i n where dot: "find_char CHR ''.'' s = Some i"
    and n: "decimal_octet (upto_pos (Some i) s) = Some n"
    and rest: "ipv4_loop (Suc k) (after_pos (Some i) s) (push_bit 8 acc OR of_nat n) = Inr w"
    by (auto simp: Let_def simp del: ipv4_loop.simps simp add: ipv4_loop.simps(2) [of "Suc k"]
        split: option.splits)
  from Suc.IH [OF rest] obtain ns where ns: "length ns = Suc k" "\<forall>n\<in>set ns. n \<le> 255"
    "after_pos (Some i) s = dotted ns" by blast
  moreover from ns have "ns \<noteq> []" by auto
  ultimately have "s = dotted (n # ns)" and "n \<le> 255"
    using dotted_octets_exhaust [OF dot n] by (simp_all add: dotted_Cons)
  with ns show ?case by (intro exI [of _ "n # ns"]) simp
qed

lemma decimal_address_loop_ipv4:
  "decimal_address_loop k s \<longleftrightarrow> (\<exists>w. ipv4_loop k s acc = Inr w)"
proof (induction k arbitrary: s acc)
  case 0
  then show ?case by simp
next
  case (Suc k)
  show ?case
    by (auto simp: Let_def Suc.IH [of _ "shift_in acc _", unfolded shift_in_def] check_def
        split: option.splits)
qed

lemma shift_in_unat:
  assumes "n \<le> 255" and "unat acc < 2 ^ 24"
  shows "unat (shift_in acc n) = unat acc * 256 + n"
proof -
  have "take_bit 8 (of_nat n :: 32 word) = of_nat n"
    using assms(1) by (simp add: take_bit_eq_mod word_arith_nat_mod unat_of_nat)
  then have "push_bit 8 acc AND of_nat n = 0"
    by (auto simp: bit_eq_iff bit_simps)
  then have "shift_in acc n = push_bit 8 acc + of_nat n"
    by (simp add: shift_in_def disjunctive_add_eq_or)
  also have "\<dots> = of_nat (unat acc * 256 + n)"
    by (simp add: push_bit_eq_mult)
  finally have eq: "shift_in acc n = of_nat (unat acc * 256 + n)" .
  show ?thesis
    unfolding eq by (subst unat_of_nat) (use assms in simp)
qed

lemma octets_exhaust: "length ns = 4 \<Longrightarrow> \<exists>a b c d. ns = [a, b, c, d]"
  by (auto simp: numeral_eq_Suc length_Suc_conv)

lemma foldl_shift_in_unat:
  assumes "a \<le> 255" "b \<le> 255" "c \<le> 255" "d \<le> 255"
  shows "unat (foldl shift_in 0 [a, b, c, d]) = address_of a b c d"
proof -
  have 1: "unat (shift_in 0 a) = a" using assms(1) by (simp add: shift_in_unat)
  have 2: "unat (shift_in (shift_in 0 a) b) = a * 256 + b"
    using 1 assms by (simp add: shift_in_unat)
  have 3: "unat (shift_in (shift_in (shift_in 0 a) b) c) = (a * 256 + b) * 256 + c"
    using 2 assms by (subst shift_in_unat) simp_all
  show ?thesis
    using 3 assms by (simp add: shift_in_unat address_of_def)
qed

lemma top_octet:
  assumes "unat (w :: 32 word) = address_of a b c d" "b \<le> 255" "c \<le> 255" "d \<le> 255"
  shows "unat (drop_bit 24 w) = a"
proof -
  have "unat (drop_bit 24 w) = unat w div 2 ^ 24"
    by (subst unat_drop_bit_eq) (rule drop_bit_eq_div)
  with assms show ?thesis by (simp add: address_of_def)
qed

declare ipv4_loop.simps(2) [simp del] decimal_address_loop.simps(2) [simp del]

lemmas ipv4_loop_4_dotted = ipv4_loop_dotted [of _ 3, simplified]
  and ipv4_loop_4_Inr = ipv4_loop_Inr [of 3, simplified]

lemma decimalAddress_dotted:
  "decimalAddress s \<longleftrightarrow>
     (\<exists>a b c d. a \<le> 255 \<and> b \<le> 255 \<and> c \<le> 255 \<and> d \<le> 255 \<and> s = dotted [a, b, c, d])"
proof
  assume "decimalAddress s"
  then obtain w where "ipv4_loop 4 s 0 = Inr w"
    by (auto simp: decimalAddress_def decimal_address_loop_ipv4 [of _ _ 0])
  from ipv4_loop_4_Inr [OF this] obtain ns
    where "length ns = 4" "\<forall>n\<in>set ns. n \<le> 255" "s = dotted ns" by auto
  then show "\<exists>a b c d. a \<le> 255 \<and> b \<le> 255 \<and> c \<le> 255 \<and> d \<le> 255 \<and> s = dotted [a, b, c, d]"
    using octets_exhaust [of ns] by fastforce
next
  assume "\<exists>a b c d. a \<le> 255 \<and> b \<le> 255 \<and> c \<le> 255 \<and> d \<le> 255 \<and> s = dotted [a, b, c, d]"
  then obtain a b c d where "a \<le> 255" "b \<le> 255" "c \<le> 255" "d \<le> 255" "s = dotted [a, b, c, d]"
    by blast
  then have "ipv4_loop 4 s 0 = Inr (foldl shift_in 0 [a, b, c, d])"
    using ipv4_loop_4_dotted [of "[a, b, c, d]"] by simp
  then show "decimalAddress s"
    unfolding decimalAddress_def decimal_address_loop_ipv4 [of _ _ 0] by auto
qed

lemma unicast_unat:
  "(x \<noteq> 0 \<and> x < 224 \<and> x \<noteq> 127) \<longleftrightarrow> (unat x \<noteq> 0 \<and> unat x < 224 \<and> unat (x :: 32 word) \<noteq> 127)"
  by unat_arith

lemma ipv4_dotted:
  "ipv4 s = Inr w \<longleftrightarrow>
     (\<exists>a b c d. a \<noteq> 0 \<and> a < 224 \<and> a \<noteq> 127 \<and> b \<le> 255 \<and> c \<le> 255 \<and> d \<le> 255 \<and>
        s = dotted [a, b, c, d] \<and> unat w = address_of a b c d)" (is "_ \<longleftrightarrow> ?R")
proof
  assume "ipv4 s = Inr w"
  then have loop: "ipv4_loop 4 s 0 = Inr w"
    and uni: "unat (drop_bit 24 w) \<noteq> 0 \<and> unat (drop_bit 24 w) < 224 \<and> unat (drop_bit 24 w) \<noteq> 127"
    by (auto simp: ipv4_def unicast_unat)
  from ipv4_loop_4_Inr [OF loop] obtain ns
    where ns: "length ns = 4" "\<forall>n\<in>set ns. n \<le> 255" "s = dotted ns" by auto
  then obtain a b c d where abcd: "ns = [a, b, c, d]" using octets_exhaust by blast
  from loop have "w = foldl shift_in 0 ns" using ipv4_loop_4_dotted [of ns 0] ns by simp
  then have w: "unat w = address_of a b c d"
    using foldl_shift_in_unat [of a b c d] ns abcd by simp
  with ns abcd uni top_octet [OF w] show ?R by (intro exI [of _ a] exI [of _ b] exI [of _ c] exI [of _ d]) simp
next
  assume ?R
  then obtain a b c d where *: "a \<noteq> 0" "a < 224" "a \<noteq> 127" "b \<le> 255" "c \<le> 255" "d \<le> 255"
    "s = dotted [a, b, c, d]" "unat w = address_of a b c d" by blast
  then have loop: "ipv4_loop 4 s 0 = Inr (foldl shift_in 0 [a, b, c, d])"
    using ipv4_loop_4_dotted [of "[a, b, c, d]"] by simp
  from * have "w = foldl shift_in 0 [a, b, c, d]"
    using foldl_shift_in_unat [of a b c d] by (simp add: word_unat_eq_iff)
  moreover from * top_octet [of w a b c d] have "unat (drop_bit 24 w) = a" by simp
  ultimately show "ipv4 s = Inr w"
    using * loop unicast_unat [of "drop_bit 24 w"] by (simp add: ipv4_def check_def)
qed

section \<open>Subnets\<close>

text \<open>An address is a usable host of its subnet: neither the network nor the broadcast address.\<close>

definition usable_host :: "nat \<Rightarrow> nat \<Rightarrow> bool" where
  "usable_host p x = (p < 31 \<longrightarrow> 0 < x mod 2 ^ (32 - p) \<and> x mod 2 ^ (32 - p) \<noteq> 2 ^ (32 - p) - 1)"

definition same_subnet :: "nat \<Rightarrow> nat \<Rightarrow> nat \<Rightarrow> bool" where
  "same_subnet p x y = (x div 2 ^ (32 - p) = y div 2 ^ (32 - p))"

lemma subnet_mask_eq: "subnet_mask p = NOT (mask (32 - unat p))"
proof -
  have ones: "(0xffffffff :: 32 word) = -1" by simp
  show ?thesis unfolding subnet_mask_def ones by (rule push_bit_minus_one_eq_not_mask)
qed

lemma unat_host_part:
  "unat (x AND NOT (subnet_mask p)) = unat x mod 2 ^ (32 - unat p)"
proof -
  have "unat (x AND NOT (subnet_mask p)) = take_bit (32 - unat p) (unat x)"
    by (simp add: subnet_mask_eq take_bit_eq_mask [symmetric] unsigned_take_bit_eq)
  then show ?thesis by (simp only: take_bit_eq_mod)
qed

lemma unat_not_mask: "unat (NOT (subnet_mask p)) = 2 ^ (32 - unat p) - 1"
proof -
  have "unat (NOT (subnet_mask p)) = mask (min 32 (32 - unat p))"
    by (rule bit_eqI) (auto simp: subnet_mask_eq bit_simps)
  then show ?thesis by (simp add: mask_eq_exp_minus_1)
qed

lemma host_part_ok_iff: "host_part_ok p x \<longleftrightarrow> usable_host (unat p) (unat x)"
proof -
  have "p < 31 \<longleftrightarrow> unat p < 31" by (simp add: word_less_nat_alt)
  moreover have "x AND NOT (subnet_mask p) = 0 \<longleftrightarrow> unat x mod 2 ^ (32 - unat p) = 0"
    by (metis unat_host_part unsigned_0 word_unat_eq_iff)
  moreover have "x AND NOT (subnet_mask p) = NOT (subnet_mask p) \<longleftrightarrow>
      unat x mod 2 ^ (32 - unat p) = 2 ^ (32 - unat p) - 1"
    by (metis unat_host_part unat_not_mask word_unat_eq_iff)
  ultimately show ?thesis by (simp add: host_part_ok_def usable_host_def)
qed

lemma network_part_iff:
  "x AND subnet_mask p = y AND subnet_mask p \<longleftrightarrow> same_subnet (unat p) (unat x) (unat y)"
proof -
  let ?k = "32 - unat p"
  have "x AND subnet_mask p = push_bit ?k (drop_bit ?k x)" for x
    by (auto simp: subnet_mask_eq bit_eq_iff bit_simps)
  moreover have "push_bit ?k (drop_bit ?k x) = push_bit ?k (drop_bit ?k y) \<longleftrightarrow>
      drop_bit ?k x = drop_bit ?k y"
    (is "?l = ?r \<longleftrightarrow> _")
  proof
    have inv: "drop_bit ?k (push_bit ?k (drop_bit ?k z)) = drop_bit ?k z" for z :: "32 word"
      by (rule bit_eqI) (auto simp: bit_simps dest: bit_imp_le_length)
    assume "?l = ?r"
    then have "drop_bit ?k ?l = drop_bit ?k ?r" by (rule arg_cong)
    then show "drop_bit ?k x = drop_bit ?k y" by (simp only: inv)
  qed simp
  moreover have "drop_bit ?k x = drop_bit ?k y \<longleftrightarrow> same_subnet (unat p) (unat x) (unat y)"
    unfolding word_unat_eq_iff unat_drop_bit_eq same_subnet_def by (simp add: drop_bit_eq_div)
  ultimately show ?thesis by metis
qed

section \<open>Network lists\<close>

text \<open>What the checks of one interface promise, in terms of addresses and subnets.\<close>

definition wf_static :: "network_config \<Rightarrow> bool" where
  "wf_static c =
     (\<exists>addr. ipv4 (nc_address c) = Inr addr \<and>
        1 \<le> unat (nc_prefix_length c) \<and> unat (nc_prefix_length c) \<le> 32 \<and>
        usable_host (unat (nc_prefix_length c)) (unat addr) \<and>
        (if nc_gateway c = [] then \<not> nc_preferred_default c
         else \<exists>gw. ipv4 (nc_gateway c) = Inr gw \<and> gw \<noteq> addr \<and>
                same_subnet (unat (nc_prefix_length c)) (unat gw) (unat addr) \<and>
                usable_host (unat (nc_prefix_length c)) (unat gw)))"

definition wf_interface :: "network_config \<Rightarrow> bool" where
  "wf_interface c =
     (validInterfaceName (nc_interface c) \<and> length (nc_dns_servers c) \<le> 4 \<and>
      (\<forall>dns\<in>set (nc_dns_servers c). \<exists>addr. ipv4 dns = Inr addr) \<and>
      (case nc_mode c of dhcp \<Rightarrow> nc_address c = [] \<and> nc_gateway c = []
       | static_ipv4 \<Rightarrow> wf_static c))"

definition wf_network :: "network_config list \<Rightarrow> bool" where
  "wf_network cs =
     (length cs \<le> 8 \<and> length (filter nc_preferred_default cs) \<le> 1 \<and>
      distinct (map nc_interface cs) \<and> (\<forall>c\<in>set cs. wf_interface c))"

lemma validate_gateway_Inr:
  "validate_gateway c addr = Inr () \<longleftrightarrow>
     nc_gateway c = [] \<or>
     (\<exists>gw. ipv4 (nc_gateway c) = Inr gw \<and> gw \<noteq> addr \<and>
        same_subnet (unat (nc_prefix_length c)) (unat gw) (unat addr) \<and>
        usable_host (unat (nc_prefix_length c)) (unat gw))"
  by (auto simp: validate_gateway_def Let_def network_part_iff host_part_ok_iff)

lemma validate_addressing_Inr:
  "validate_addressing c = Inr () \<longleftrightarrow>
     (case nc_mode c of dhcp \<Rightarrow> nc_address c = [] \<and> nc_gateway c = [] | static_ipv4 \<Rightarrow> wf_static c)"
proof -
  have "1 \<le> nc_prefix_length c \<longleftrightarrow> 1 \<le> unat (nc_prefix_length c)"
    "nc_prefix_length c \<le> 32 \<longleftrightarrow> unat (nc_prefix_length c) \<le> 32"
    by (simp_all add: word_le_nat_alt)
  then show ?thesis
    by (auto simp: validate_addressing_def wf_static_def validate_gateway_Inr host_part_ok_iff
        split: network_mode.splits)
qed

lemma validate_interface_Inr:
  "validate_interface names c = Inr () \<longleftrightarrow> nc_interface c \<notin> set names \<and> wf_interface c"
  by (auto simp: validate_interface_def wf_interface_def validInterfaceName_def
      validate_addressing_Inr)

lemma validate_interfaces_Inr:
  "validate_interfaces names cs = Inr () \<longleftrightarrow>
     (\<forall>c\<in>set cs. nc_interface c \<notin> set names \<and> wf_interface c) \<and> distinct (map nc_interface cs)"
proof (induction cs arbitrary: names)
  case Nil
  then show ?case by simp
next
  case (Cons c cs)
  have "distinct (map nc_interface (c # cs)) \<longleftrightarrow>
      (\<forall>d\<in>set cs. nc_interface d \<noteq> nc_interface c) \<and> distinct (map nc_interface cs)"
    by (simp add: image_iff) metis
  then show ?case by (auto simp: validate_interface_Inr Cons.IH simp del: list.map distinct.simps)
qed

lemma validateNetwork_Inr: "validateNetwork cs = Inr () \<longleftrightarrow> wf_network cs"
  by (auto simp: validateNetwork_def wf_network_def validate_interfaces_Inr)

section \<open>Failures are argument errors\<close>

definition argument_error :: "'a result \<Rightarrow> bool" where
  "argument_error r = (\<forall>e. r = Inl e \<longrightarrow> (\<exists>m. e = Error invalid_argument m))"

lemma argument_error_intros [intro!]:
  "argument_error (Inr x)" "argument_error (check b m)"
  "argument_error (Inl (Error invalid_argument m'))"
  by (auto simp: argument_error_def check_def)

lemma argument_error_rseq [intro!]:
  "argument_error r \<Longrightarrow> argument_error k \<Longrightarrow> argument_error (rseq r k)"
  by (auto simp: argument_error_def rseq_def split: sum.splits)

lemma argument_error_rbind [intro!]:
  "argument_error r \<Longrightarrow> (\<And>x. argument_error (k x)) \<Longrightarrow> argument_error (rbind r k)"
  by (auto simp: argument_error_def rbind_def split: sum.splits)

lemma argument_error_for_each [intro!]:
  "(\<And>x. argument_error (f x)) \<Longrightarrow> argument_error (for_each f xs)"
  by (induction xs) auto

lemma argument_error_ipv4 [intro!]: "argument_error (ipv4 s)"
proof -
  have "argument_error (ipv4_loop k t acc)" for k t acc
    by (induction k arbitrary: t acc) (auto simp: ipv4_loop.simps(2) Let_def split: option.splits)
  then show ?thesis by (auto simp: ipv4_def)
qed

lemma argument_error_validateNetwork [intro!]: "argument_error (validateNetwork cs)"
proof -
  have "argument_error (validate_gateway c addr)" for c addr
    by (auto simp: validate_gateway_def Let_def)
  then have "argument_error (validate_addressing c)" for c
    by (auto simp: validate_addressing_def split: network_mode.splits)
  then have "argument_error (validate_interface names c)" for names c
    by (auto simp: validate_interface_def)
  then have "argument_error (validate_interfaces names cs)" for names
    by (induction cs arbitrary: names) auto
  then show ?thesis by (auto simp: validateNetwork_def)
qed

lemma argument_error_validate [intro!]: "argument_error (validate c)"
proof -
  have "argument_error (validate_servers seen servers)" for seen servers
    by (induction servers arbitrary: seen) auto
  then show ?thesis by (auto simp: validate_def)
qed

section \<open>Host names and server characters\<close>

lemma host_labels_split: "host_labels s \<longleftrightarrow> (\<forall>label\<in>set (split_on CHR ''.'' s). valid_label label)"
proof (induction s rule: host_labels.induct)
  case (1 s)
  show ?case
  proof (cases "s = []")
    case True
    then show ?thesis by (simp add: host_labels.simps [of "[]"] valid_label_def)
  next
    case False
    show ?thesis
    proof (cases "find_char CHR ''.'' s")
      case None
      with False show ?thesis
        by (simp add: host_labels.simps [of s] split_on_find [of _ s] upto_pos_def Let_def)
    next
      case (Some i)
      with False 1 show ?thesis
        by (simp add: host_labels.simps [of s] split_on_find [of _ s] upto_pos_def Let_def)
    qed
  qed
qed

definition isxdigit :: "char \<Rightarrow> bool" where
  "isxdigit c = (digit_of 16 c \<noteq> None)"

definition hex_group :: "string \<Rightarrow> bool" where
  "hex_group g = (g \<noteq> [] \<and> length g \<le> 4 \<and> list_all isxdigit g)"

lemma scan_digits_hex: "snd (scan_digits 16 acc xs) = [] \<longleftrightarrow> list_all isxdigit xs"
  by (induction xs arbitrary: acc) (auto simp: isxdigit_def split: option.splits)

lemma digit_of_bound: "digit_of base c = Some d \<Longrightarrow> d < base"
  by (auto simp: digit_of_def Let_def split: if_splits option.splits)

lemma scan_digits_bound: "0 < base \<Longrightarrow> fst (scan_digits base acc xs) < (acc + 1) * base ^ length xs"
proof (induction xs arbitrary: acc)
  case Nil
  then show ?case by simp
next
  case (Cons x xs)
  show ?case
  proof (cases "digit_of base x")
    case None
    have "1 \<le> base ^ length (x # xs)" using Cons.prems by simp
    then have "acc + 1 \<le> (acc + 1) * base ^ length (x # xs)"
      using mult_le_mono2 [of 1 "base ^ length (x # xs)" "acc + 1"] by simp
    with None show ?thesis by simp
  next
    case (Some d)
    then have "base * acc + d + 1 \<le> (acc + 1) * base"
      using digit_of_bound [of base x d] by (simp add: algebra_simps)
    then have "(base * acc + d + 1) * base ^ length xs \<le> (acc + 1) * base * base ^ length xs"
      by (rule mult_le_mono1)
    with Cons.IH [of "base * acc + d"] Cons.prems
    have "fst (scan_digits base (base * acc + d) xs) < (acc + 1) * base * base ^ length xs"
      by (meson less_le_trans)
    with Some show ?thesis by (simp add: algebra_simps)
  qed
qed

lemma parse_hex_group:
  assumes "g \<noteq> []" and "length g \<le> 4"
  shows "parse_unsigned 16 g \<noteq> None \<longleftrightarrow> list_all isxdigit g"
proof -
  obtain v rest where scan: "scan_digits 16 0 g = (v, rest)" by fastforce
  have "v < 16 ^ length g" using scan_digits_bound [of 16 0 g] scan by simp
  also have "\<dots> \<le> 16 ^ 4" using assms(2) by (intro power_increasing) simp_all
  finally have "v < 2 ^ 32" by simp
  moreover have "rest = [] \<longleftrightarrow> list_all isxdigit g" using scan_digits_hex [of 0 g] scan by simp
  ultimately show ?thesis
    using scan assms(1)
    by (auto simp: parse_unsigned_def from_chars_unsigned_def split: list.splits)
qed

text \<open>
  What \<open>count\<close> computes, over the groups between the colons: all of them hexadecimal, or all but a
  final dotted quad, which counts for two.
\<close>

definition groups_spec :: "bool \<Rightarrow> string list \<Rightarrow> nat option" where
  "groups_spec allowV4 gs =
     (if list_all hex_group gs then Some (length gs)
      else if allowV4 \<and> list_all hex_group (butlast gs) \<and> decimalAddress (last gs)
      then Some (length gs + 1) else None)"

lemma hex_group_no_dot: "hex_group g \<Longrightarrow> CHR ''.'' \<notin> set g"
  by (auto simp: hex_group_def list_all_iff isxdigit_def digit_of_def char_class)

lemma decimalAddress_has_dot: "decimalAddress g \<Longrightarrow> CHR ''.'' \<in> set g"
  by (auto simp: decimalAddress_dotted)

lemma decimalAddress_Nil [simp]: "\<not> decimalAddress []"
  using decimalAddress_has_dot [of "[]"] by auto

lemma hex_group_Nil [simp]: "\<not> hex_group []"
  by (simp add: hex_group_def)

lemma groups_spec_simps:
  "groups_spec v4 [g] =
     (if hex_group g then Some 1 else if v4 \<and> decimalAddress g then Some 2 else None)"
  "gs \<noteq> [] \<Longrightarrow> groups_spec v4 (g # gs) =
     (if hex_group g then map_option Suc (groups_spec v4 gs) else None)"
  by (auto simp: groups_spec_def)

lemma hex_group_code:
  "\<not> (g = [] \<or> length g > 4 \<or> parse_unsigned 16 g = None) \<longleftrightarrow> hex_group g"
  using parse_hex_group [of g] by (auto simp: hex_group_def)

lemma count_groups_None:
  assumes "find_char CHR '':'' part = None" and "part \<noteq> []"
  shows "count_groups v4 n part = (case groups_spec v4 [part] of None \<Rightarrow> None | Some m \<Rightarrow> Some (n + m))"
  using assms hex_group_no_dot [of part] decimalAddress_has_dot [of part] hex_group_code [of part]
  by (auto simp: count_groups.simps [of v4 n part] upto_pos_def groups_spec_simps)

lemma count_groups_Some:
  assumes "find_char CHR '':'' part = Some i" and "part \<noteq> []"
  shows "count_groups v4 n part =
     (if hex_group (take i part) \<and> drop (Suc i) part \<noteq> []
      then count_groups v4 (n + 1) (drop (Suc i) part) else None)"
  using assms hex_group_no_dot [of "take i part"] hex_group_code [of "take i part"]
  by (auto simp: count_groups.simps [of v4 n part] upto_pos_def Let_def)

lemma count_groups_split:
  "part \<noteq> [] \<Longrightarrow> count_groups v4 n part =
     (case groups_spec v4 (split_on CHR '':'' part) of None \<Rightarrow> None | Some m \<Rightarrow> Some (n + m))"
proof (induction part arbitrary: n rule: length_induct)
  case (1 part)
  show ?case
  proof (cases "find_char CHR '':'' part")
    case None
    with "1.prems" show ?thesis by (simp add: count_groups_None split_on_find)
  next
    case (Some i)
    let ?g = "take i part" and ?rest = "drop (Suc i) part"
    have gs: "groups_spec v4 (split_on CHR '':'' part) =
        (if hex_group ?g then map_option Suc (groups_spec v4 (split_on CHR '':'' ?rest)) else None)"
      using Some by (simp add: split_on_find [of _ part] groups_spec_simps)
    show ?thesis
    proof (cases "?rest = []")
      case True
      then have "groups_spec v4 (split_on CHR '':'' ?rest) = None" by (simp add: groups_spec_simps)
      with True Some "1.prems" show ?thesis by (simp add: count_groups_Some gs del: drop_eq_Nil)
    next
      case False
      then have "length ?rest < length part" using "1.prems" by simp
      with False "1.IH" have "count_groups v4 (n + 1) ?rest =
        (case groups_spec v4 (split_on CHR '':'' ?rest) of None \<Rightarrow> None | Some m \<Rightarrow> Some (n + 1 + m))"
        by blast
      with False Some "1.prems" show ?thesis
        by (simp add: count_groups_Some gs del: drop_eq_Nil split: option.splits)
    qed
  qed
qed

section \<open>Characters a server name can hold\<close>

definition server_char :: "char \<Rightarrow> bool" where
  "server_char c = (label_char c \<or> c = CHR ''.'' \<or> c = CHR '':'')"

lemma server_char_hex: "hex_group g \<Longrightarrow> list_all server_char g"
  by (auto simp: hex_group_def list_all_iff isxdigit_def digit_of_def server_char_def label_char_def
      split: if_splits)

lemma server_char_dotted: "decimalAddress g \<Longrightarrow> list_all server_char g"
proof -
  assume "decimalAddress g"
  then obtain a b c d where "g = dotted [a, b, c, d]" by (auto simp: decimalAddress_dotted)
  moreover have "list_all server_char (to_string n)" for n
    using to_string_digits by (auto simp: list_all_iff server_char_def label_char_def)
  ultimately show ?thesis by (simp add: server_char_def)
qed

lemma server_char_pieces:
  assumes "\<forall>p\<in>set (split_on c s). list_all server_char p" and "server_char c"
  shows "list_all server_char s"
  using assms split_on_chars [of _ s c] by (fastforce simp: list_all_iff)

lemma server_char_groups:
  assumes "count_groups v4 n part = Some m"
  shows "list_all server_char part"
proof (cases "part = []")
  case False
  let ?gs = "split_on CHR '':'' part"
  from assms False have "groups_spec v4 ?gs \<noteq> None"
    by (auto simp: count_groups_split split: option.splits)
  then have "\<forall>g\<in>set ?gs. list_all server_char g"
  proof (cases "list_all hex_group ?gs")
    case True
    then show ?thesis by (auto simp: list_all_iff [of hex_group] intro: server_char_hex)
  next
    case False
    with \<open>groups_spec v4 ?gs \<noteq> None\<close> have "list_all hex_group (butlast ?gs)" "decimalAddress (last ?gs)"
      by (auto simp: groups_spec_def split: if_splits)
    moreover have "set ?gs = insert (last ?gs) (set (butlast ?gs))"
      by (rule set_butlast_last) simp
    ultimately show ?thesis
      by (auto simp: list_all_iff [of hex_group] intro: server_char_hex server_char_dotted)
  qed
  then show ?thesis by (rule server_char_pieces) (simp add: server_char_def)
qed simp

lemma server_char_host: "host_labels s \<Longrightarrow> list_all server_char s"
  unfolding host_labels_split
  by (rule server_char_pieces [of "CHR ''.''"])
     (auto simp: valid_label_def server_char_def list_all_iff)

section \<open>Compressed IPv6 literals\<close>

definition part_groups :: "bool \<Rightarrow> string \<Rightarrow> nat option" where
  "part_groups allowV4 part =
     (if part = [] then Some 0 else groups_spec allowV4 (split_on CHR '':'' part))"

lemma count_groups_part: "count_groups v4 0 part = part_groups v4 part"
  by (cases "part = []")
     (auto simp: part_groups_def count_groups_split count_groups.simps [of v4 0 "[]"]
       split: option.splits)

lemma groups_spec_no_empty: "groups_spec v4 gs = Some m \<Longrightarrow> [] \<notin> set gs"
proof
  assume gs: "groups_spec v4 gs = Some m" and "[] \<in> set gs"
  then have "\<not> list_all hex_group gs" using hex_group_Nil by (metis list_all_iff)
  with gs have *: "list_all hex_group (butlast gs)" "decimalAddress (last gs)"
    by (auto simp: groups_spec_def split: if_splits)
  moreover from \<open>[] \<in> set gs\<close> have "[] \<in> set (butlast gs) \<or> last gs = []"
    using set_butlast_last [of gs] by fastforce
  ultimately show False using hex_group_Nil by (metis decimalAddress_Nil list_all_iff)
qed

lemma part_groups_colons:
  assumes "part_groups v4 part = Some m"
  shows "part = x @ CHR '':'' # y \<Longrightarrow> x \<noteq> [] \<and> y \<noteq> []"
    and "part \<noteq> x @ CHR '':'' # CHR '':'' # y"
proof -
  have no_empty: "[] \<notin> set (split_on CHR '':'' part)" if "part \<noteq> []"
    using assms that groups_spec_no_empty by (auto simp: part_groups_def)
  show "x \<noteq> [] \<and> y \<noteq> []" if "part = x @ CHR '':'' # y"
    using no_empty that by (auto simp: split_on_append_any)
  show "part \<noteq> x @ CHR '':'' # CHR '':'' # y"
    using no_empty by (auto simp: split_on_append_any)
qed

lemma find_compression:
  assumes "part_groups False l = Some m"
  shows "find_str ''::'' (l @ ''::'' @ r) = Some (length l)"
proof -
  let ?s = "l @ ''::'' @ r"
  have "starts_with (drop (length l) ?s) ''::''" by (simp add: starts_with_append)
  then obtain j where j: "find_str ''::'' ?s = Some j" "j \<le> length l"
    using find_str_exists [of "length l" ?s "''::''"] by auto
  have "j = length l"
  proof (rule ccontr)
    assume "j \<noteq> length l"
    with j have lt: "j < length l" by simp
    from find_str_first [OF j(1)] obtain t where "drop j ?s = ''::'' @ t"
      by (auto simp: starts_with_append)
    with lt have at: "drop j l @ ''::'' @ r = ''::'' @ t" by simp
    from lt have dl: "l = take j l @ drop j l" "drop j l \<noteq> []" by simp_all
    obtain c cs where cs: "drop j l = c # cs" using dl(2) by (cases "drop j l") auto
    show False
    proof (cases cs)
      case Nil
      with at cs have "l = take j l @ CHR '':'' # []" using dl(1) by simp
      with part_groups_colons(1) [OF assms] show False by blast
    next
      case (Cons d ds)
      with at cs have "l = take j l @ CHR '':'' # CHR '':'' # ds" using dl(1) by simp
      with part_groups_colons(2) [OF assms] show False by blast
    qed
  qed
  with j show ?thesis by simp
qed

lemma no_compression:
  assumes "part_groups v4 part = Some m"
  shows "find_str ''::'' part = None"
proof (rule ccontr)
  assume "find_str ''::'' part \<noteq> None"
  then obtain i where "find_str ''::'' part = Some i" by auto
  from find_str_first [OF this] obtain t where "drop i part = ''::'' @ t"
    by (auto simp: starts_with_append)
  then have "part = take i part @ CHR '':'' # CHR '':'' # t"
    by (metis append_Cons append_Nil append_take_drop_id)
  with part_groups_colons(2) [OF assms] show False by blast
qed

lemma validNtpServer_ipv6:
  assumes "CHR '':'' \<in> set s"
  shows "validNtpServer s \<longleftrightarrow> length s \<le> 253 \<and>
     (part_groups True s = Some 8 \<or>
      (\<exists>l r m n. s = l @ ''::'' @ r \<and> part_groups False l = Some m \<and> part_groups True r = Some n \<and>
         m + n < 8))" (is "_ \<longleftrightarrow> _ \<and> (_ \<or> ?compressed)")
proof -
  from assms have colon: "find_char CHR '':'' s \<noteq> None" "s \<noteq> []" by (auto simp: find_char_None)
  show ?thesis
  proof (cases "find_str ''::'' s")
    case None
    have "\<not> ?compressed"
      using None find_compression by fastforce
    with None colon show ?thesis by (auto simp: validNtpServer_def count_groups_part)
  next
    case (Some i)
    from find_str_first [OF Some] obtain t where "drop i s = ''::'' @ t"
      by (auto simp: starts_with_append)
    then have s: "s = take i s @ ''::'' @ t" by (metis append_take_drop_id)
    have "drop (i + 2) s = drop 2 (drop i s)" by (simp add: add.commute)
    with \<open>drop i s = ''::'' @ t\<close> have t: "drop (i + 2) s = t" by simp
    have uniq: "l = take i s \<and> r = t" if "s = l @ ''::'' @ r" "part_groups False l = Some m" for l r m
    proof -
      have "i = length l" using find_compression [OF that(2), of r] that(1) Some by simp
      with that(1) t show ?thesis by simp
    qed
    have "part_groups True s \<noteq> Some 8" using no_compression Some by fastforce
    moreover have "?compressed \<longleftrightarrow>
        (\<exists>m n. part_groups False (take i s) = Some m \<and> part_groups True t = Some n \<and> m + n < 8)"
      (is "_ \<longleftrightarrow> ?parts")
    proof
      assume ?compressed
      then obtain l r m n where eq: "s = l @ ''::'' @ r" and l: "part_groups False l = Some m"
        and r: "part_groups True r = Some n" "m + n < 8" by blast
      from uniq [OF eq l] l r have "part_groups False (take i s) = Some m" "part_groups True t = Some n"
        by simp_all
      with r(2) show ?parts by blast
    next
      assume ?parts
      then obtain m n where "part_groups False (take i s) = Some m" "part_groups True t = Some n"
        "m + n < 8" by blast
      with s show ?compressed by (intro exI [of _ "take i s"] exI [of _ t] exI [of _ m] exI [of _ n]) simp
    qed
    moreover have "validNtpServer s \<longleftrightarrow> length s \<le> 253 \<and>
        (\<exists>m n. part_groups False (take i s) = Some m \<and> part_groups True t = Some n \<and> m + n < 8)"
      using Some colon no_compression [of True t]
      by (auto simp: validNtpServer_def count_groups_part t [simplified] split: option.splits)
    ultimately show ?thesis by blast
  qed
qed

section \<open>Configurations\<close>

definition wf_time :: "time_preferences \<Rightarrow> bool" where
  "wf_time t =
     (tp_synchronization t \<in> {''ntp'', ''ptp'', ''irig'', ''local''} \<and>
      valid_timezone (tp_timezone t) \<and>
      (if tp_ptp_interface t = [] then tp_synchronization t \<noteq> ''ptp''
       else validInterfaceName (tp_ptp_interface t)) \<and>
      length (tp_ntp_servers t) \<le> 8 \<and> distinct (tp_ntp_servers t) \<and>
      (\<forall>server\<in>set (tp_ntp_servers t). validNtpServer server))"

definition wf_configuration :: "configuration \<Rightarrow> bool" where
  "wf_configuration c =
     (valid_hostname (pr_hostname (cf_system c)) \<and> wf_time (cf_time c) \<and>
      wf_network (pr_network (cf_system c)))"

lemma validate_servers_Inr:
  "validate_servers seen servers = Inr () \<longleftrightarrow>
     (\<forall>s\<in>set servers. validNtpServer s \<and> s \<notin> set seen) \<and> distinct servers"
  by (induction servers arbitrary: seen) auto

lemma validate_Inr: "validate c = Inr () \<longleftrightarrow> wf_configuration c"
  by (auto simp: validate_def wf_configuration_def wf_time_def validate_servers_Inr
      validateNetwork_Inr valid_synchronization_def validInterfaceName_def)

lemma validNtpServer_chars: "validNtpServer s \<Longrightarrow> list_all server_char s"
proof -
  assume valid: "validNtpServer s"
  show ?thesis
  proof (cases "CHR '':'' \<in> set s")
    case True
    have part: "list_all server_char p" if "part_groups v4 p = Some m" for v4 p m
      using that server_char_groups [of v4 0 p m] by (simp add: count_groups_part)
    from valid validNtpServer_ipv6 [OF True] part show ?thesis by (force simp: server_char_def)
  next
    case False
    with valid show ?thesis
    proof (cases "list_all (\<lambda>c. isdigit c \<or> c = CHR ''.'') s")
      case True
      then show ?thesis by (auto simp: list_all_iff server_char_def label_char_def)
    next
      case digits: False
      let ?t = "if last s = CHR ''.'' then butlast s else s"
      from valid False digits have "host_labels ?t" and "s \<noteq> []"
        by (auto simp: validNtpServer_def find_char_None split: if_splits)
      then have "list_all server_char ?t" by (intro server_char_host)
      then show ?thesis
        using set_butlast_last [OF \<open>s \<noteq> []\<close>]
        by (auto simp: list_all_iff server_char_def split: if_splits)
    qed
  qed
qed

section \<open>Properties\<close>

text \<open>
  C17: The IPv4 parser accepts exactly the canonical dotted quads (no leading zeros, each octet at
  most 255) whose first octet is unicast (not 0, not 127, below 224), returns the 32-bit address they
  denote, and rejects every other text with \<open>invalid_argument\<close> and the message that tells a malformed
  text from a well-formed address that is not unicast.
\<close>

theorem ipv4_exact:
  "(ipv4 s = Inr w \<longleftrightarrow>
      (\<exists>a b c d. a \<noteq> 0 \<and> a < 224 \<and> a \<noteq> 127 \<and> b \<le> 255 \<and> c \<le> 255 \<and> d \<le> 255 \<and>
         s = dotted [a, b, c, d] \<and> unat w = a * 2 ^ 24 + b * 2 ^ 16 + c * 2 ^ 8 + d)) \<and>
   (ipv4 s = Inl e \<longleftrightarrow>
      e = Error invalid_argument
        (if \<exists>a b c d. a \<le> 255 \<and> b \<le> 255 \<and> c \<le> 255 \<and> d \<le> 255 \<and> s = dotted [a, b, c, d]
         then ''IPv4 must be a unicast address'' else ''invalid IPv4 address'') \<and>
      (\<nexists>w. ipv4 s = Inr w))"
proof -
  have loop_error: "ipv4_loop k t acc = Inl x \<Longrightarrow> x = Error invalid_argument ''invalid IPv4 address''"
    for k t acc x
    by (induction k arbitrary: t acc)
       (auto simp: ipv4_loop.simps(2) Let_def rseq_def split: option.splits sum.splits)
  have "ipv4 s = Inl e \<longleftrightarrow> e = Error invalid_argument
        (if decimalAddress s then ''IPv4 must be a unicast address'' else ''invalid IPv4 address'') \<and>
      (\<nexists>w. ipv4 s = Inr w)"
    using decimal_address_loop_ipv4 [of 4 s 0] loop_error [of 4 s 0]
    by (cases "ipv4_loop 4 s 0") (auto simp: ipv4_def decimalAddress_def rseq_def check_def)
  then show ?thesis
    unfolding decimalAddress_dotted [symmetric] using ipv4_dotted [of s w]
    by (simp add: address_of_def)
qed

text \<open>
  Network validation accepts a list exactly when it is well formed: at most eight interfaces,
  at most one preferred default, distinct interface names of the allowed syntax, at most four unicast
  IPv4 name servers each, no address on a DHCP interface, and on a static interface a usable host
  address of its subnet with, if there is a gateway, a different usable host address of the same
  subnet. Every rejection is an \<open>invalid_argument\<close> error.
\<close>

theorem validateNetwork_exact:
  "(validateNetwork cs = Inr () \<longleftrightarrow> wf_network cs) \<and>
   validateNetwork cs \<in> {Inr ()} \<union> range (\<lambda>m. Inl (Error invalid_argument m))"
proof -
  have "argument_error (validateNetwork cs)" by (rule argument_error_validateNetwork)
  then show ?thesis
    by (cases "validateNetwork cs") (auto simp: argument_error_def validateNetwork_Inr [symmetric])
qed


text \<open>
  C18: An accepted NTP server holds only letters, digits, dots, hyphens and colons and is at most
  253 bytes long: no white space, line break, bracket, comment or assignment character can reach the
  generated configuration files.
\<close>

theorem ntp_server_no_injection:
  assumes "validNtpServer s"
  shows "s \<noteq> [] \<and> length s \<le> 253 \<and>
    (\<forall>c\<in>set s. isalnum c \<or> c = CHR ''-'' \<or> c = CHR ''.'' \<or> c = CHR '':'')"
  using validNtpServer_chars [OF assms] assms
  by (auto simp: validNtpServer_def list_all_iff server_char_def label_char_def isalnum_def
      split: if_splits)

theorem ntp_server_no_injection_witness:
  "validNtpServer ''pool.ntp.org'' \<and> CHR '' '' \<notin> set ''pool.ntp.org''"
proof -
  have "validNtpServer ''pool.ntp.org''" by code_simp
  with ntp_server_no_injection [OF this] show ?thesis by (auto simp: char_class)
qed

text \<open>
  A server name with no colon that is not made of digits and dots only is accepted exactly when,
  after one optional final dot, it is a sequence of dot-separated labels of 1 to 63 letters, digits
  and hyphens that neither start nor end with a hyphen, 253 bytes at most in all.
\<close>

theorem ntp_hostname_exact:
  assumes "CHR '':'' \<notin> set s" and "\<not> list_all (\<lambda>c. isdigit c \<or> c = CHR ''.'') s"
  shows "validNtpServer s \<longleftrightarrow> length s \<le> 253 \<and>
    (\<forall>label\<in>set (split_on CHR ''.'' (if last s = CHR ''.'' then butlast s else s)).
       valid_label label)"
  using assms by (auto simp: validNtpServer_def find_char_None host_labels_split)

theorem ntp_hostname_exact_witness:
  "validNtpServer ''a-b.example.'' \<and> \<not> validNtpServer ''-a.example''"
  using ntp_hostname_exact [of "''a-b.example.''"] ntp_hostname_exact [of "''-a.example''"]
  by (simp add: valid_label_def label_char_def char_class)

text \<open>
  C19: A server text with a colon is accepted exactly when it is an IPv6 literal of at most 253 bytes:
  eight colon-separated groups of one to four hexadecimal digits (the last two may be written as a
  dotted quad), or two such runs around one \<open>::\<close> that stand for fewer than eight groups in all, the
  dotted quad being allowed at the very end only.
\<close>

theorem ntp_ipv6_exact:
  assumes "CHR '':'' \<in> set s"
  shows "validNtpServer s \<longleftrightarrow> length s \<le> 253 \<and>
    (part_groups True s = Some 8 \<or>
     (\<exists>left right m n. s = left @ ''::'' @ right \<and> part_groups False left = Some m \<and>
        part_groups True right = Some n \<and> m + n < 8))"
  by (rule validNtpServer_ipv6 [OF assms])

theorem ntp_ipv6_exact_witness:
  "validNtpServer ''fe80::1'' \<and> part_groups False ''fe80'' = Some 1 \<and> part_groups True ''1'' = Some 1"
proof -
  have "part_groups False ''fe80'' = Some 1" "part_groups True ''1'' = Some 1" by code_simp+
  moreover have "''fe80::1'' = ''fe80'' @ ''::'' @ ''1''" by simp
  ultimately show ?thesis using ntp_ipv6_exact [of "''fe80::1''"] by fastforce
qed

end
