(* ===== verification/Logging.thy ===== *)
theory Logging
  imports Prelude
begin

text \<open>
  Structured logging (logging.hpp, logging.cpp): priorities, the syntax of journal fields and of
  public events, and the record a log object hands to its sink. The sink is an injected strategy of
  the source; a log write returns the record it would send, and whether the sink is called at all.
\<close>

section \<open>Priorities\<close>

datatype priority = emergency | alert | critical | error | warning | notice | info | debug

fun priority_index :: "priority \<Rightarrow> nat" where
  "priority_index emergency = 0"
| "priority_index alert = 1"
| "priority_index critical = 2"
| "priority_index error = 3"
| "priority_index warning = 4"
| "priority_index notice = 5"
| "priority_index info = 6"
| "priority_index debug = 7"

definition priority_names :: "string list" where
  "priority_names =
     [''emergency'', ''alert'', ''critical'', ''error'', ''warning'', ''notice'', ''info'', ''debug'']"

definition priority_name :: "priority \<Rightarrow> string" where
  "priority_name p =
     (let index = priority_index p
      in if index < length priority_names then priority_names ! index else ''info'')"

text \<open>\<open>std::tolower\<close> in the "C" locale.\<close>

definition tolower :: "char \<Rightarrow> char" where
  "tolower c = (if isupper c then char_of (ord c + 32) else c)"

definition priority_values :: "(string \<times> priority) list" where
  "priority_values =
     [(''emergency'', emergency), (''emerg'', emergency), (''alert'', alert), (''critical'', critical),
      (''crit'', critical), (''error'', error), (''err'', error), (''warning'', warning),
      (''notice'', notice), (''info'', info)]"

definition parse_priority :: "string \<Rightarrow> priority option" where
  "parse_priority name =
     (let normalized = map tolower name
      in case map_of priority_values normalized of
           Some p \<Rightarrow> Some p
         | None \<Rightarrow> if normalized = ''debug'' then Some debug else None)"

section \<open>Fields and public events\<close>

record field =
  fd_name :: string
  fd_value :: string

definition valid_field_name :: "string \<Rightarrow> bool" where
  "valid_field_name name =
     (if name = [] \<or> hd name = CHR ''_'' then False
      else list_all (\<lambda>c. isupper c \<or> isdigit c \<or> c = CHR ''_'') name)"

definition reserved :: "string \<Rightarrow> bool" where
  "reserved name =
     (name = ''MESSAGE'' \<or> name = ''PRIORITY'' \<or> name = ''MNC_COMPONENT'' \<or>
      name = ''MNC_MODULE'' \<or> name = ''MNC_EVENT'' \<or> name = ''MNC_LOG_AUDIENCE'' \<or>
      name = ''MNC_EVENT_CATEGORY'' \<or> name = ''MNC_ACTOR'' \<or> name = ''MNC_ACTION'' \<or>
      name = ''MNC_OUTCOME'' \<or> name = ''MNC_SUBJECT'' \<or> name = ''MNC_CHANGED_FIELDS'' \<or>
      starts_with name ''CODE_'')"

definition safe_text :: "string \<Rightarrow> nat \<Rightarrow> bool" where
  "safe_text s maximum = (length s \<le> maximum \<and> list_all (\<lambda>c. \<not> (ord c < 0x20 \<or> ord c = 0x7f)) s)"

definition identifier_char :: "char \<Rightarrow> bool" where
  "identifier_char c =
     (islower c \<or> isupper c \<or> isdigit c \<or> c = CHR ''_'' \<or> c = CHR ''-'' \<or> c = CHR ''.'')"

definition is_identifier :: "string \<Rightarrow> bool" where
  "is_identifier s = (s \<noteq> [] \<and> length s \<le> 128 \<and> list_all identifier_char s)"

definition quote :: char where
  "quote = CHR 0x22"

text \<open>The loop of \<open>changed_json\<close>: a comma before every name but the first.\<close>

fun changed_json_loop :: "string \<Rightarrow> string list \<Rightarrow> string" where
  "changed_json_loop acc [] = acc"
| "changed_json_loop acc (name # names) =
     changed_json_loop
       ((if length acc > 1 then acc @ '','' else acc) @ quote # name @ [quote]) names"

definition changed_json :: "string list \<Rightarrow> string" where
  "changed_json names = changed_json_loop ''['' names @ '']''"

record user_event =
  ue_code :: string
  ue_category :: string
  ue_message :: string
  ue_actor :: string
  ue_action :: string
  ue_outcome :: string
  ue_subject :: string
  ue_changed_fields :: "string list"
  ue_request_id :: string

definition categories :: "string list" where
  "categories =
     [''network'', ''mqtt'', ''delivery'', ''settings'', ''authentication'', ''administration'',
      ''availability'']"

definition valid_user_event :: "user_event \<Rightarrow> bool" where
  "valid_user_event event =
     (is_identifier (ue_code event) \<and> is_identifier (ue_action event) \<and> is_identifier (ue_outcome event) \<and>
      ue_category event \<in> set categories \<and>
      ue_message event \<noteq> [] \<and> safe_text (ue_message event) 512 \<and>
      safe_text (ue_actor event) 256 \<and> safe_text (ue_subject event) 256 \<and>
      safe_text (ue_request_id event) 128 \<and> length (ue_changed_fields event) \<le> 64 \<and>
      list_all is_identifier (ue_changed_fields event))"

section \<open>Log objects\<close>

datatype audience = developer | user

record log_base =
  lb_component :: string
  lb_module :: string
  lb_audience :: audience

text \<open>The constructors: an empty component is refused.\<close>

definition make_log :: "string \<Rightarrow> string \<Rightarrow> audience \<Rightarrow> log_base result" where
  "make_log component module_name aud =
     (if component = [] then Inl (StdException ''logging component must not be empty'')
      else Inr \<lparr>lb_component = component, lb_module = module_name, lb_audience = aud\<rparr>)"

record source_location =
  sl_file_name :: string
  sl_line :: "32 word"
  sl_function_name :: string

text \<open>
  \<open>LogBase::emit\<close>: the record built for the sink. Allocation failure, the only thing its handler
  catches, is outside the model, so the sink is always called.
\<close>

definition emit :: "log_base \<Rightarrow> priority \<Rightarrow> string \<Rightarrow> string \<Rightarrow> field list \<Rightarrow>
    source_location option \<Rightarrow> field list" where
  "emit lb p message event extra source =
     [\<lparr>fd_name = ''MESSAGE'', fd_value = message\<rparr>,
      \<lparr>fd_name = ''PRIORITY'', fd_value = to_string (priority_index p)\<rparr>,
      \<lparr>fd_name = ''MNC_COMPONENT'', fd_value = lb_component lb\<rparr>,
      \<lparr>fd_name = ''MNC_LOG_AUDIENCE'',
       fd_value = (if lb_audience lb = user then ''user'' else ''developer'')\<rparr>] @
     (if lb_module lb \<noteq> [] then [\<lparr>fd_name = ''MNC_MODULE'', fd_value = lb_module lb\<rparr>] else []) @
     (if event \<noteq> [] then [\<lparr>fd_name = ''MNC_EVENT'', fd_value = event\<rparr>] else []) @
     (case source of None \<Rightarrow> []
      | Some src \<Rightarrow>
          [\<lparr>fd_name = ''CODE_FILE'', fd_value = sl_file_name src\<rparr>,
           \<lparr>fd_name = ''CODE_LINE'', fd_value = to_string (unat (sl_line src))\<rparr>,
           \<lparr>fd_name = ''CODE_FUNC'', fd_value = sl_function_name src\<rparr>]) @
     filter (\<lambda>f. valid_field_name (fd_name f) \<and>
                 \<not> (reserved (fd_name f) \<and> lb_audience lb = developer)) extra"

definition developer_record :: "log_base \<Rightarrow> priority \<Rightarrow> string \<Rightarrow> string \<Rightarrow> field list \<Rightarrow>
    source_location \<Rightarrow> field list" where
  "developer_record lb p message event extra source = emit lb p message event extra (Some source)"

text \<open>\<open>UserLog::write\<close>: an invalid event never reaches the sink (\<open>None\<close>).\<close>

definition user_record :: "log_base \<Rightarrow> priority \<Rightarrow> user_event \<Rightarrow> field list option" where
  "user_record lb p event =
     (if \<not> valid_user_event event then None
      else Some (emit lb p (ue_message event) (ue_code event)
        [\<lparr>fd_name = ''MNC_EVENT_CATEGORY'', fd_value = ue_category event\<rparr>,
         \<lparr>fd_name = ''MNC_ACTOR'', fd_value = ue_actor event\<rparr>,
         \<lparr>fd_name = ''MNC_ACTION'', fd_value = ue_action event\<rparr>,
         \<lparr>fd_name = ''MNC_OUTCOME'', fd_value = ue_outcome event\<rparr>,
         \<lparr>fd_name = ''MNC_SUBJECT'', fd_value = ue_subject event\<rparr>,
         \<lparr>fd_name = ''MNC_CHANGED_FIELDS'', fd_value = changed_json (ue_changed_fields event)\<rparr>,
         \<lparr>fd_name = ''MNC_REQUEST_ID'', fd_value = ue_request_id event\<rparr>] None))"

text \<open>The wire form of a field, as the journal sink sends it.\<close>

definition journal_field :: "string \<Rightarrow> string \<Rightarrow> string" where
  "journal_field name v = name @ ''='' @ v"

definition journal_record :: "field list \<Rightarrow> string list" where
  "journal_record entries = map (\<lambda>f. journal_field (fd_name f) (fd_value f)) entries"

end
