(* ===== verification/Backend.thy ===== *)
theory Backend
  imports Validation Logging
begin

text \<open>
  The daemon's state machine (class \<open>Backend\<close> of backend.hpp and storage.cpp): the journalled
  network transaction, preferences, power and reset jobs, boot recovery and the periodic tick.

  The object's surroundings are the record \<open>env\<close>: the abstract class \<open>Platform\<close>, the clock, the
  storage primitives of storage.cpp and the JSON codec. Every one of them may change the
  surroundings (type \<open>'w\<close>) and may throw; theorems hold for every environment.
\<close>

section \<open>The surroundings\<close>

record 'w env =
  en_discover :: "('w, configuration) io"
  en_status :: "('w, system_status) io"
  en_time :: "('w, time_status) io"
  en_networkLinks :: "('w, network_status list) io"
  en_timezones :: "('w, string list) io"
  en_timezoneCatalog :: "('w, timezone_catalog) io"
  en_temperatures :: "('w, temperature list) io"
  en_validateConfiguration :: "configuration \<Rightarrow> ('w, unit) io"
  en_preferences :: "configuration \<Rightarrow> ('w, unit) io"
  en_bootHostname :: "string \<Rightarrow> ('w, unit) io"
  en_network :: "network_config list \<Rightarrow> bool \<Rightarrow> ('w, unit) io"
  en_sshBootPolicy :: "bool \<Rightarrow> ('w, unit) io"
  en_clockBootPolicy :: "time_preferences \<Rightarrow> ('w, unit) io"
  en_power :: "power_action \<Rightarrow> ('w, unit) io"
  en_clock :: "('w, 64 word) io"
  en_createStateDirectory :: "string \<Rightarrow> ('w, unit) io"
  en_exists :: "string \<Rightarrow> ('w, bool) io"
  en_readFile :: "string \<Rightarrow> ('w, string) io"
  en_atomicWrite :: "string \<Rightarrow> string \<Rightarrow> ('w, unit) io"
  en_durableRemove :: "string \<Rightarrow> ('w, unit) io"
  en_fileHash :: "string \<Rightarrow> ('w, string) io"
  en_randomId :: "('w, string) io"
  en_sink :: "field list \<Rightarrow> 'w \<Rightarrow> bool \<times> 'w"
  en_encodeState :: "state \<Rightarrow> string result"
  en_decodeState :: "string \<Rightarrow> state result"
  en_readStorageStatus :: "string \<Rightarrow> (bool \<times> bool) option"

section \<open>The object\<close>

record 'w backend =
  bk_profile :: profile
  bk_state :: state
  bk_carriers :: "string \<Rightarrow> bool option"
  bk_next_network_observation :: "64 word"
  bk_storage_failed :: bool
  bk_job_deadline :: "64 word"
  bk_world :: 'w

text \<open>A call into the surroundings from a member function.\<close>

definition ext :: "('w, 'a) io \<Rightarrow> ('w backend, 'a) io" where
  "ext m = (\<lambda>b. case m (bk_world b) of (r, w) \<Rightarrow> (r, b\<lparr>bk_world := w\<rparr>))"

abbreviation upd_state :: "(state \<Rightarrow> state) \<Rightarrow> ('w backend, unit) io" where
  "upd_state f \<equiv> modify (\<lambda>b. b\<lparr>bk_state := f (bk_state b)\<rparr>)"

abbreviation upd_pending :: "(pending \<Rightarrow> pending) \<Rightarrow> ('w backend, unit) io" where
  "upd_pending f \<equiv> upd_state (\<lambda>s. s\<lparr>st_pending := f (st_pending s)\<rparr>)"

abbreviation upd_transaction :: "(network_transaction \<Rightarrow> network_transaction) \<Rightarrow> ('w backend, unit) io" where
  "upd_transaction f \<equiv> upd_pending (\<lambda>p. p\<lparr>pd_transaction := f (pd_transaction p)\<rparr>)"

abbreviation upd_job :: "(job \<Rightarrow> job) \<Rightarrow> ('w backend, unit) io" where
  "upd_job f \<equiv> upd_state (\<lambda>s. s\<lparr>st_job := f (st_job s)\<rparr>)"

abbreviation tx_state :: "state \<Rightarrow> string" where
  "tx_state s \<equiv> nt_state (pd_transaction (st_pending s))"

abbreviation tx_id :: "state \<Rightarrow> string" where
  "tx_id s \<equiv> nt_id (pd_transaction (st_pending s))"

abbreviation tx_network :: "state \<Rightarrow> network_config list" where
  "tx_network s \<equiv> nt_network (pd_transaction (st_pending s))"

abbreviation conf_network :: "state \<Rightarrow> network_config list" where
  "conf_network s \<equiv> pr_network (cf_system (st_configuration s))"

definition set_network :: "network_config list \<Rightarrow> configuration \<Rightarrow> configuration" where
  "set_network n c = c\<lparr>cf_system := (cf_system c)\<lparr>pr_network := n\<rparr>\<rparr>"

definition set_hostname :: "string \<Rightarrow> configuration \<Rightarrow> configuration" where
  "set_hostname h c = c\<lparr>cf_system := (cf_system c)\<lparr>pr_hostname := h\<rparr>\<rparr>"

definition journal_path :: "profile \<Rightarrow> string" where
  "journal_path p = path_join (pf_state_directory p) ''state.json''"

section \<open>Construction\<close>

definition load_state :: "'w env \<Rightarrow> profile \<Rightarrow> ('w, state) io" where
  "load_state E profile =
     seq (en_createStateDirectory E (pf_state_directory profile))
     (bind (en_exists E (journal_path profile)) (\<lambda>present.
      if present
      then bind (en_readFile E (journal_path profile)) (\<lambda>text. of_result (en_decodeState E text))
      else ret (default_state\<lparr>st_configuration := pf_defaults profile\<rparr>)))"

definition fill_ptp :: "profile \<Rightarrow> state \<Rightarrow> state" where
  "fill_ptp profile st =
     (let time = cf_time (st_configuration st)
      in if tp_ptp_interface time = []
         then st\<lparr>st_configuration := (st_configuration st)\<lparr>cf_time :=
                time\<lparr>tp_ptp_interface := tp_ptp_interface (cf_time (pf_defaults profile))\<rparr>\<rparr>\<rparr>
         else st)"

definition make_backend :: "'w env \<Rightarrow> profile \<Rightarrow> 'w \<Rightarrow> 'w backend result \<times> 'w" where
  "make_backend E profile =
     bind (load_state E profile) (\<lambda>st w.
       (Inr \<lparr>bk_profile = profile, bk_state = fill_ptp profile st, bk_carriers = (\<lambda>_. None),
             bk_next_network_observation = 0, bk_storage_failed = False, bk_job_deadline = 0,
             bk_world = w\<rparr>, w))"

section \<open>Audit events and link observation\<close>

definition user_log :: log_base where
  "user_log = \<lparr>lb_component = ''system-manager'', lb_module = ''operations'', lb_audience = user\<rparr>"

definition event :: "'w env \<Rightarrow> string \<Rightarrow> string \<Rightarrow> string \<Rightarrow> string \<Rightarrow> string \<Rightarrow> string \<Rightarrow> string \<Rightarrow>
    priority \<Rightarrow> string \<Rightarrow> ('w backend, unit) io" where
  "event E code category message actor action outcome subject prio request_id =
     (\<lambda>b. case user_record user_log prio
            \<lparr>ue_code = code, ue_category = category, ue_message = message, ue_actor = actor,
             ue_action = action, ue_outcome = outcome, ue_subject = subject,
             ue_changed_fields = [], ue_request_id = request_id\<rparr> of
          None \<Rightarrow> (Inr (), b)
        | Some rec \<Rightarrow> (Inr (), b\<lparr>bk_world := snd (en_sink E rec (bk_world b))\<rparr>))"

definition observe_link :: "'w env \<Rightarrow> network_status \<Rightarrow> ('w backend, unit) io" where
  "observe_link E link =
     bind (gets (\<lambda>b. (pf_interfaces (bk_profile b), bk_carriers b (ns_interface link))))
       (\<lambda>(policies, previous).
     if list_all (\<lambda>policy. ip_name policy \<noteq> ns_interface link) policies then ret ()
     else
       seq (cond (previous \<noteq> None \<and> the previous \<noteq> ns_carrier link)
              (event E (if ns_carrier link then ''network_recovered'' else ''network_down'') ''network''
                 (if ns_carrier link then ''Network connection restored'' else ''Network connection lost'')
                 ''system'' ''link'' (if ns_carrier link then ''recovered'' else ''failed'')
                 (ns_interface link) (if ns_carrier link then info else warning) []))
         (modify (\<lambda>b. b\<lparr>bk_carriers := (bk_carriers b)(ns_interface link := Some (ns_carrier link))\<rparr>)))"

definition observeNetwork :: "'w env \<Rightarrow> ('w backend, unit) io" where
  "observeNetwork E =
     catch
       (bind (ext (en_networkLinks E)) (\<lambda>links.
          seq (modify (\<lambda>b. b\<lparr>bk_carriers :=
                 (\<lambda>k. if list_all (\<lambda>link. ns_interface link \<noteq> k) links then None
                      else bk_carriers b k)\<rparr>))
            (for_io (observe_link E) links)))
       (\<lambda>_. ret ())"

section \<open>The journal\<close>

definition recovery_error :: exn where
  "recovery_error = Error unavailable ''system journal requires recovery''"

definition persist :: "'w env \<Rightarrow> ('w backend, unit) io" where
  "persist E =
     bind (gets bk_storage_failed) (\<lambda>failed.
     seq (guard (\<not> failed) recovery_error)
       (catch
          (bind (gets (\<lambda>b. (journal_path (bk_profile b), bk_state b))) (\<lambda>(path, st).
           bind (of_result (en_encodeState E st)) (\<lambda>text.
             ext (en_atomicWrite E path text))))
          (\<lambda>e. seq (modify (\<lambda>b. b\<lparr>bk_storage_failed := True\<rparr>)) (throw e))))"

definition is_pending :: "state \<Rightarrow> bool" where
  "is_pending s = (tx_state s = ''pending'' \<or> tx_state s = ''committing'')"

definition idle :: "('w backend, unit) io" where
  "idle =
     bind (gets (\<lambda>b. (bk_storage_failed b, bk_state b))) (\<lambda>(failed, s).
     seq (guard (\<not> failed) recovery_error)
       (guard (\<not> (is_pending s \<or> jb_state (st_job s) = ''accepted'' \<or> st_reset_intent s))
          (Error busy ''another system transaction is in progress'')))"

definition checkId :: "string \<Rightarrow> ('w backend, unit) io" where
  "checkId i =
     bind (gets bk_state) (\<lambda>s.
       guard (\<not> (\<not> is_pending s \<or> i \<noteq> tx_id s))
         (Error invalid_argument ''network transaction is no longer pending''))"

definition settle_event :: "'w env \<Rightarrow> bool \<Rightarrow> string \<Rightarrow> ('w backend, unit) io" where
  "settle_event E commit reason =
     bind (gets (\<lambda>b. st_pending (bk_state b))) (\<lambda>p.
        event E
          (if commit then ''network_configuration_committed''
           else if reason = ''cancel'' then ''network_configuration_cancelled''
           else if reason = ''timeout'' then ''network_configuration_timed_out''
           else ''network_configuration_rolled_back'')
          ''network''
          (if commit then ''Network settings confirmed''
           else if reason = ''cancel'' then ''Network settings cancelled''
           else if reason = ''timeout'' then ''Network settings confirmation timed out''
           else ''Network settings restored'')
          (pd_actor p) ''configure_network''
          (if commit then ''completed'' else ''rolled_back'') ''network'' info (pd_request_id p))"

definition settleNetwork :: "'w env \<Rightarrow> bool \<Rightarrow> bool \<Rightarrow> string \<Rightarrow> ('w backend, unit) io" where
  "settleNetwork E commit boot reason =
     bind (gets (\<lambda>b. if commit then tx_network (bk_state b) else pd_previous (st_pending (bk_state b))))
       (\<lambda>next_network.
     seq (ext (en_network E next_network boot))
     (seq (upd_state (\<lambda>s. s\<lparr>st_configuration := set_network next_network (st_configuration s)\<rparr>))
     (seq (upd_transaction (\<lambda>t. t\<lparr>nt_state := if commit then ''committed'' else ''rolled_back''\<rparr>))
     (seq (upd_transaction (\<lambda>t. t\<lparr>nt_remaining_ms := 0\<rparr>))
     (seq (persist E) (settle_event E commit reason))))))"

definition recoverNetwork :: "'w env \<Rightarrow> bool \<Rightarrow> ('w backend, unit) io" where
  "recoverNetwork E boot =
     bind (gets (\<lambda>b. (bk_profile b, bk_state b))) (\<lambda>(profile, s).
     if \<not> is_pending s then ret ()
     else
       bind (if tx_state s = ''committing''
             then bind (ext (en_fileHash E (pf_active_settings profile))) (\<lambda>h.
                    ret (h = pd_candidate_hash (st_pending s)))
             else ret False) (\<lambda>committed.
       settleNetwork E committed boot (if boot then ''recovery'' else ''timeout'')))"

text \<open>\<open>storageStatus\<close>: whether a factory reset is possible, and whether one was prepared.\<close>

definition storageStatus :: "'w env \<Rightarrow> string \<Rightarrow> ('w backend, bool \<times> bool) io" where
  "storageStatus E path =
     bind (ext (en_readFile E path)) (\<lambda>input.
       case en_readStorageStatus E input of
         None \<Rightarrow> throw (Error unavailable ''invalid storage boot status'')
       | Some status \<Rightarrow> ret status)"

section \<open>Boot\<close>

definition boot_policies :: "'w env \<Rightarrow> ('w backend, unit) io" where
  "boot_policies E =
     bind (gets (\<lambda>b. st_configuration (bk_state b))) (\<lambda>c.
     seq (ext (en_network E (pr_network (cf_system c)) True))
     (seq (ext (en_sshBootPolicy E (pr_ssh_enabled (cf_system c))))
     (ext (en_clockBootPolicy E (cf_time c)))))"

definition finish_reset :: "'w env \<Rightarrow> profile \<Rightarrow> ('w backend, unit) io" where
  "finish_reset E profile =
     seq (cond (pf_storage_status_file profile \<noteq> [])
            (bind (storageStatus E (pf_storage_status_file profile)) (\<lambda>(_, reset_prepared).
              guard reset_prepared (Error unavailable ''storage reset recovery did not complete''))))
     (seq (for_io (\<lambda>path. ext (en_durableRemove E path)) (pf_reset_paths profile))
     (seq (upd_state (\<lambda>s. s\<lparr>st_configuration := pf_defaults profile, st_initialized := True,
                            st_pending := default_pending\<rparr>))
     (seq (boot_policies E)
     (seq (upd_state (\<lambda>s. s\<lparr>st_reset_intent := False\<rparr>))
     (seq (upd_job (\<lambda>j. j\<lparr>jb_state := ''completed''\<rparr>))
     (seq (persist E)
     (bind (gets bk_state) (\<lambda>s.
        event E ''device_reset_completed'' ''administration'' ''Device reset completed''
          (st_job_actor s) ''device_reset'' ''completed'' ''device'' info (st_job_request_id s)))))))))"

definition boot_hostname :: "'w env \<Rightarrow> profile \<Rightarrow> ('w backend, unit) io" where
  "boot_hostname E profile =
     (case pf_boot_preferences profile of
        Some boot \<Rightarrow>
          seq (upd_state (\<lambda>s. s\<lparr>st_configuration :=
                 set_hostname (bp_managed_hostname boot) (st_configuration s)\<rparr>))
          (seq (ext (en_bootHostname E (bp_managed_hostname boot))) (persist E))
      | None \<Rightarrow> ret ())"

definition bootstrap :: "'w env \<Rightarrow> ('w backend, unit) io" where
  "bootstrap E =
     bind (gets (\<lambda>b. (bk_profile b, bk_state b))) (\<lambda>(profile, s).
     seq (if st_reset_intent s then finish_reset E profile
          else if st_initialized s then seq (recoverNetwork E True) (boot_policies E)
          else (case pf_boot_preferences profile of
                  Some boot \<Rightarrow>
                    seq (upd_state (\<lambda>s. s\<lparr>st_configuration := bp_initial boot\<rparr>))
                    (seq (boot_policies E)
                    (seq (upd_state (\<lambda>s. s\<lparr>st_initialized := True\<rparr>)) (persist E)))
                | None \<Rightarrow> ext (en_clockBootPolicy E (cf_time (pf_defaults profile)))))
       (boot_hostname E profile))"

definition start_job :: "'w env \<Rightarrow> ('w backend, unit) io" where
  "start_job E =
     bind (gets bk_state) (\<lambda>s.
     cond (jb_state (st_job s) = ''accepted'')
       (seq (upd_job (\<lambda>j. j\<lparr>jb_state := ''interrupted''\<rparr>))
       (seq (persist E)
       (event E ''system_operation_interrupted'' ''administration'' ''System operation interrupted''
          (st_job_actor s) (jb_action (st_job s)) ''interrupted'' ''device'' warning
          (st_job_request_id s)))))"

definition start :: "'w env \<Rightarrow> ('w backend, unit) io" where
  "start E =
     bind (gets bk_state) (\<lambda>s.
     if st_reset_intent s
     then bind (ext (en_clock E)) (\<lambda>now. modify (\<lambda>b. b\<lparr>bk_job_deadline := now + 5000\<rparr>))
     else
       seq (cond (\<not> st_initialized s)
              (bind (ext (en_discover E)) (\<lambda>c.
               seq (upd_state (\<lambda>s. s\<lparr>st_configuration := c\<rparr>))
               (seq (of_result (validate c))
               (seq (upd_state (\<lambda>s. s\<lparr>st_initialized := True\<rparr>)) (persist E))))))
       (seq (recoverNetwork E False) (start_job E)))"

section \<open>The periodic tick\<close>

definition observe_due :: "'w env \<Rightarrow> ('w backend, unit) io" where
  "observe_due E =
     bind (ext (en_clock E)) (\<lambda>now.
     bind (gets bk_next_network_observation) (\<lambda>due.
     cond (due \<le> now)
       (bind (ext (en_clock E)) (\<lambda>now'.
        seq (modify (\<lambda>b. b\<lparr>bk_next_network_observation := now' + 1000\<rparr>)) (observeNetwork E)))))"

definition expire_pending :: "'w env \<Rightarrow> ('w backend, unit) io" where
  "expire_pending E =
     bind (gets bk_state) (\<lambda>s.
     cond (is_pending s)
       (bind (ext (en_clock E)) (\<lambda>now.
        cond (pd_deadline (st_pending s) \<le> now) (recoverNetwork E False))))"

definition dispatch_job :: "'w env \<Rightarrow> ('w backend, unit) io" where
  "dispatch_job E =
     seq (modify (\<lambda>b. b\<lparr>bk_job_deadline := 0\<rparr>))
     (seq (upd_job (\<lambda>j. j\<lparr>jb_state := ''dispatched''\<rparr>))
     (seq (persist E)
     (bind (gets bk_state) (\<lambda>s.
      catch
        (seq (ext (en_power E (if jb_action (st_job s) = ''shutdown'' then shutdown else reboot)))
          (event E ''system_operation_dispatched'' ''administration'' ''System operation dispatched''
             (st_job_actor s) (jb_action (st_job s)) ''dispatched'' ''device'' info
             (st_job_request_id s)))
        (\<lambda>e.
          seq (upd_job (\<lambda>j. j\<lparr>jb_state := ''failed''\<rparr>))
          (seq (persist E)
          (seq (event E ''system_operation_failed'' ''administration'' ''System operation failed''
                  (st_job_actor s) (jb_action (st_job s)) ''failed'' ''device'' error
                  (st_job_request_id s))
          (throw e))))))))"

definition run_job :: "'w env \<Rightarrow> ('w backend, unit) io" where
  "run_job E =
     bind (gets bk_job_deadline) (\<lambda>deadline.
     cond (deadline \<noteq> 0)
       (bind (ext (en_clock E)) (\<lambda>now. cond (deadline \<le> now) (dispatch_job E))))"

definition tick :: "'w env \<Rightarrow> ('w backend, unit) io" where
  "tick E =
     bind (gets bk_storage_failed) (\<lambda>failed.
     seq (guard (\<not> failed) recovery_error)
     (seq (observe_due E) (seq (expire_pending E) (run_job E))))"

section \<open>Requests\<close>

definition status :: "'w env \<Rightarrow> ('w backend, system_status) io" where
  "status E =
     bind (ext (en_status E)) (\<lambda>r.
     bind (gets (\<lambda>b. st_configuration (bk_state b))) (\<lambda>c. ret (r\<lparr>ss_configuration := c\<rparr>)))"

definition managed_hostname_check :: "profile \<Rightarrow> configuration \<Rightarrow> ('w backend, unit) io" where
  "managed_hostname_check profile c =
     (case pf_boot_preferences profile of
        Some boot \<Rightarrow> guard (\<not> (pr_hostname (cf_system c) \<noteq> bp_managed_hostname boot))
                       (Error invalid_argument ''hostname is managed by production identity'')
      | None \<Rightarrow> ret ())"

text \<open>\<open>Backend::apply\<close>; the name is a command of Isabelle's proof language.\<close>

definition apply_preferences :: "'w env \<Rightarrow> configuration \<Rightarrow> ('w backend, unit) io" where
  "apply_preferences E config =
     seq idle
     (seq (of_result (validate config))
     (bind (gets (\<lambda>b. (bk_profile b, bk_state b))) (\<lambda>(profile, s).
     seq (managed_hostname_check profile config)
     (seq (ext (en_validateConfiguration E config))
     (seq (guard (\<not> (st_initialized s \<and> pr_network (cf_system config) \<noteq> conf_network s))
             (Error invalid_argument ''network changes require a confirmation transaction''))
     (let previous = st_configuration s
      in catch
        (seq (ext (en_preferences E config))
        (seq (ext (en_sshBootPolicy E (pr_ssh_enabled (cf_system config))))
        (seq (upd_state (\<lambda>s. s\<lparr>st_configuration := config\<rparr>))
        (seq (upd_state (\<lambda>s. s\<lparr>st_initialized := True\<rparr>)) (persist E)))))
        (\<lambda>e.
          seq (upd_state (\<lambda>s. s\<lparr>st_configuration := previous\<rparr>))
          (seq (catch
                 (seq (ext (en_preferences E previous))
                 (seq (ext (en_sshBootPolicy E (pr_ssh_enabled (cf_system previous)))) (persist E)))
                 (\<lambda>_. throw (Error apply_failed ''preferences failed and rollback needs recovery'')))
          (throw e)))))))))"

definition networkTransaction :: "'w env \<Rightarrow> ('w backend, network_transaction) io" where
  "networkTransaction E =
     seq (tick E)
     (bind (gets bk_state) (\<lambda>s.
      bind (if is_pending s
            then bind (ext (en_clock E)) (\<lambda>now.
                   if now < pd_deadline (st_pending s)
                   then bind (ext (en_clock E)) (\<lambda>now'. ret (pd_deadline (st_pending s) - now'))
                   else ret 0)
            else ret 0) (\<lambda>remaining.
      ret ((pd_transaction (st_pending s))\<lparr>nt_remaining_ms := remaining\<rparr>))))"

definition validHash :: "string \<Rightarrow> bool" where
  "validHash s = (length s = 64 \<and> list_all (\<lambda>c. isdigit c \<or> (97 \<le> ord c \<and> ord c \<le> 102)) s)"

definition check_proposal :: "'w env \<Rightarrow> profile \<Rightarrow> network_proposal \<Rightarrow> ('w backend, unit) io" where
  "check_proposal E profile p =
     (if \<not> validHash (np_previous_settings_hash p) \<or> \<not> validHash (np_candidate_settings_hash p) \<or>
         np_previous_settings_hash p = np_candidate_settings_hash p
      then throw (Error invalid_argument ''settings changed before network proposal'')
      else bind (ext (en_fileHash E (pf_active_settings profile))) (\<lambda>h.
        guard (\<not> (h \<noteq> np_previous_settings_hash p))
          (Error invalid_argument ''settings changed before network proposal'')))"

definition beginNetwork :: "'w env \<Rightarrow> network_proposal \<Rightarrow> string \<Rightarrow> string \<Rightarrow>
    ('w backend, network_transaction) io" where
  "beginNetwork E p actor request_id =
     seq idle
     (bind (gets (\<lambda>b. (bk_profile b, bk_state b))) (\<lambda>(profile, s).
     let config = set_network (np_network p) (st_configuration s)
     in seq (of_result (validate config))
     (seq (managed_hostname_check profile config)
     (seq (ext (en_validateConfiguration E config))
     (seq (check_proposal E profile p)
     (bind (ext (en_randomId E)) (\<lambda>i.
     bind (ext (en_clock E)) (\<lambda>now.
     seq (upd_state (\<lambda>s. s\<lparr>st_pending :=
            \<lparr>pd_transaction =
               \<lparr>nt_id = i, nt_state = ''pending'', nt_remaining_ms = 120000, nt_network = np_network p,
                nt_message = ''Confirm within 120 seconds to retain these addresses''\<rparr>,
             pd_previous = conf_network s,
             pd_previous_hash = np_previous_settings_hash p,
             pd_candidate_hash = np_candidate_settings_hash p,
             pd_deadline = now + 120000,
             pd_actor = actor, pd_request_id = request_id\<rparr>\<rparr>))
     (seq (persist E)
     (seq (catch (ext (en_network E (np_network p) False))
             (\<lambda>e. seq (settleNetwork E False False ''recovery'') (throw e)))
     (seq (event E ''network_configuration_pending'' ''network'' ''Network settings await confirmation''
             actor ''configure_network'' ''pending'' ''network'' info request_id)
     (networkTransaction E))))))))))))"

definition prepareNetworkCommit :: "'w env \<Rightarrow> string \<Rightarrow> ('w backend, unit) io" where
  "prepareNetworkCommit E i =
     seq (tick E)
     (seq (checkId i)
     (bind (gets (\<lambda>b. (bk_profile b, bk_state b))) (\<lambda>(profile, s).
      if tx_state s = ''committing'' then ret ()
      else
        bind (ext (en_fileHash E (pf_active_settings profile))) (\<lambda>h.
        seq (guard (\<not> (h \<noteq> pd_previous_hash (st_pending s)))
               (Error invalid_argument ''settings changed during network proposal''))
        (seq (upd_transaction (\<lambda>t. t\<lparr>nt_state := ''committing''\<rparr>))
        (bind (ext (en_clock E)) (\<lambda>now.
        seq (upd_pending (\<lambda>p. p\<lparr>pd_deadline := now + 30000\<rparr>)) (persist E))))))))"

definition check_finish :: "'w env \<Rightarrow> profile \<Rightarrow> state \<Rightarrow> bool \<Rightarrow> ('w backend, unit) io" where
  "check_finish E profile s commit =
     (if commit
      then (if tx_state s \<noteq> ''committing''
            then throw (Error invalid_argument ''candidate settings have not been persisted'')
            else bind (ext (en_fileHash E (pf_active_settings profile))) (\<lambda>h.
              guard (\<not> (h \<noteq> pd_candidate_hash (st_pending s)))
                (Error invalid_argument ''candidate settings have not been persisted'')))
      else cond (tx_state s = ''committing'')
        (bind (ext (en_fileHash E (pf_active_settings profile))) (\<lambda>h.
           guard (\<not> (h = pd_candidate_hash (st_pending s)))
             (Error busy ''network settings already committed''))))"

definition finishNetwork :: "'w env \<Rightarrow> string \<Rightarrow> bool \<Rightarrow> string \<Rightarrow> string \<Rightarrow> ('w backend, unit) io" where
  "finishNetwork E i commit actor request_id =
     bind (gets (\<lambda>b. (bk_profile b, bk_state b))) (\<lambda>(profile, s).
     if i = tx_id s \<and> tx_state s = (if commit then ''committed'' else ''rolled_back'') then ret ()
     else
       seq (checkId i)
       (seq (check_finish E profile s commit)
       (seq (upd_pending (\<lambda>p. p\<lparr>pd_actor := actor\<rparr>))
       (seq (upd_pending (\<lambda>p. p\<lparr>pd_request_id := request_id\<rparr>))
       (settleNetwork E commit False ''cancel'')))))"

text \<open>The audit event and the delay that both job requests end with.\<close>

definition job_accepted :: "'w env \<Rightarrow> ('w backend, job) io" where
  "job_accepted E =
     bind (gets bk_state) (\<lambda>s.
     seq (event E
            (if jb_action (st_job s) = ''device_reset'' then ''device_reset_requested'' else ''power_requested'')
            ''administration''
            (if jb_action (st_job s) = ''device_reset'' then ''Device reset requested''
             else ''Power operation requested'')
            (st_job_actor s) (jb_action (st_job s)) ''accepted'' ''device'' info (st_job_request_id s))
     (bind (ext (en_clock E)) (\<lambda>now.
     seq (modify (\<lambda>b. b\<lparr>bk_job_deadline := now + 5000\<rparr>))
     (gets (\<lambda>b. st_job (bk_state b))))))"

definition power :: "'w env \<Rightarrow> power_action \<Rightarrow> string \<Rightarrow> string \<Rightarrow> ('w backend, job) io" where
  "power E action actor request_id =
     seq idle
     (bind (ext (en_randomId E)) (\<lambda>i.
     seq (upd_state (\<lambda>s. s\<lparr>st_job :=
            \<lparr>jb_id = i, jb_action = (if action = reboot then ''reboot'' else ''shutdown''),
             jb_state = ''accepted''\<rparr>,
            st_job_actor := actor, st_job_request_id := request_id\<rparr>))
     (seq (persist E) (job_accepted E))))"

definition resetDevice :: "'w env \<Rightarrow> bool \<Rightarrow> string \<Rightarrow> string \<Rightarrow> ('w backend, job) io" where
  "resetDevice E confirmed actor request_id =
     seq (guard confirmed (Error invalid_argument ''whole-device reset requires explicit confirmation''))
     (seq idle
     (bind (gets bk_profile) (\<lambda>profile.
     seq (cond (pf_storage_status_file profile \<noteq> [])
            (bind (storageStatus E (pf_storage_status_file profile)) (\<lambda>(factory_reset, _).
              guard factory_reset
                (Error unavailable ''factory reset requires persistent state and data''))))
     (bind (ext (en_randomId E)) (\<lambda>i.
     seq (upd_state (\<lambda>s. s\<lparr>st_job :=
            \<lparr>jb_id = i, jb_action = ''device_reset'', jb_state = ''accepted''\<rparr>,
            st_reset_intent := True, st_job_actor := actor, st_job_request_id := request_id\<rparr>))
     (seq (persist E) (job_accepted E)))))))"

definition job_status :: "('w backend, job) io" where
  "job_status = gets (\<lambda>b. st_job (bk_state b))"

end
