(* ===== verification/Backend_Rules.thy ===== *)
theory Backend_Rules
  imports Backend
begin

text \<open>
  Proof rules for the backend: what a call into the surroundings, a journal write, an audit event
  and a look at the links can do to the object.
\<close>

section \<open>Calls, events and journal writes\<close>

lemma wp_ext_any:
  assumes "\<And>x w. m (bk_world b) = (Inr x, w) \<Longrightarrow> Q x (b\<lparr>bk_world := w\<rparr>)"
    and "\<And>e w. m (bk_world b) = (Inl e, w) \<Longrightarrow> R e (b\<lparr>bk_world := w\<rparr>)"
  shows "wp (ext m) Q R b"
proof -
  obtain r w where "m (bk_world b) = (r, w)" by fastforce
  with assms show ?thesis by (auto simp: wp_def ext_def split: sum.splits)
qed

lemma wp_event_any:
  assumes "\<And>w. Q () (b\<lparr>bk_world := w\<rparr>)"
  shows "wp (event E code category message actor action outcome subject prio rid) Q R b"
proof -
  have "Q () b" using assms [of "bk_world b"] by simp
  with assms show ?thesis by (auto simp: wp_def event_def split: option.splits)
qed

text \<open>
  A journal write: on success the encoding of the state was written to the journal's path; on any
  failure the object refuses further journal writes.
\<close>

lemma wp_persist:
  assumes "\<And>text w. \<not> bk_storage_failed b \<Longrightarrow> en_encodeState E (bk_state b) = Inr text \<Longrightarrow>
      en_atomicWrite E (journal_path (bk_profile b)) text (bk_world b) = (Inr (), w) \<Longrightarrow>
      Q () (b\<lparr>bk_world := w\<rparr>)"
    and "\<And>text e w. \<not> bk_storage_failed b \<Longrightarrow> en_encodeState E (bk_state b) = Inr text \<Longrightarrow>
      en_atomicWrite E (journal_path (bk_profile b)) text (bk_world b) = (Inl e, w) \<Longrightarrow>
      R e (b\<lparr>bk_world := w, bk_storage_failed := True\<rparr>)"
    and "\<And>e. R e (b\<lparr>bk_storage_failed := True\<rparr>)"
  shows "wp (persist E) Q R b"
proof (cases "bk_storage_failed b")
  case True
  then have "b\<lparr>bk_storage_failed := True\<rparr> = b" by simp
  with True assms(3) [of recovery_error] show ?thesis by (simp add: persist_def wp_rules wp_of_result)
next
  case False
  show ?thesis
  proof (cases "en_encodeState E (bk_state b)")
    case (Inl e)
    with False assms(3) show ?thesis by (simp add: persist_def wp_rules wp_of_result)
  next
    case (Inr js)
    with False show ?thesis
      by (auto simp: persist_def wp_rules wp_of_result intro!: wp_ext_any intro: assms)
  qed
qed

lemma wp_persist_any:
  assumes "\<And>w. \<not> bk_storage_failed b \<Longrightarrow> Q () (b\<lparr>bk_world := w\<rparr>)"
    and "\<And>e w. R e (b\<lparr>bk_world := w, bk_storage_failed := True\<rparr>)"
  shows "wp (persist E) Q R b"
proof (rule wp_persist)
  show "R e (b\<lparr>bk_storage_failed := True\<rparr>)" for e
    using assms(2) [of e "bk_world b"] by simp
qed (use assms in auto)

text \<open>Validation, and the guards that requests share.\<close>

definition validate_error :: "configuration \<Rightarrow> exn" where
  "validate_error c = (case validate c of Inl e \<Rightarrow> e | Inr _ \<Rightarrow> UnknownException)"

lemma wp_validate [wp_rules]:
  "wp (of_result (validate c)) Q R b = (if wf_configuration c then Q () b else R (validate_error c) b)"
  using validate_Inr [of c] by (auto simp: wp_of_result validate_error_def split: sum.splits)

lemma wp_idle [wp_rules]:
  "wp idle Q R b \<longleftrightarrow>
     (if bk_storage_failed b then R recovery_error b
      else if is_pending (bk_state b) \<or> jb_state (st_job (bk_state b)) = ''accepted'' \<or>
              st_reset_intent (bk_state b)
      then R (Error busy ''another system transaction is in progress'') b
      else Q () b)"
  by (simp add: idle_def wp_rules)

definition hostname_allowed :: "profile \<Rightarrow> configuration \<Rightarrow> bool" where
  "hostname_allowed p c =
     (case pf_boot_preferences p of None \<Rightarrow> True
      | Some boot \<Rightarrow> pr_hostname (cf_system c) = bp_managed_hostname boot)"

lemma wp_managed_hostname_check [wp_rules]:
  "wp (managed_hostname_check p c) Q R b \<longleftrightarrow>
     (if hostname_allowed p c then Q () b
      else R (Error invalid_argument ''hostname is managed by production identity'') b)"
  by (auto simp: managed_hostname_check_def hostname_allowed_def wp_rules split: option.splits)

lemma wp_checkId [wp_rules]:
  "wp (checkId i) Q R b \<longleftrightarrow>
     (if is_pending (bk_state b) \<and> i = tx_id (bk_state b) then Q () b
      else R (Error invalid_argument ''network transaction is no longer pending'') b)"
  by (auto simp: checkId_def wp_rules)

text \<open>The state a settled transaction leaves.\<close>

definition settle_target :: "bool \<Rightarrow> state \<Rightarrow> network_config list" where
  "settle_target commit s = (if commit then tx_network s else pd_previous (st_pending s))"

definition settled :: "bool \<Rightarrow> state \<Rightarrow> state" where
  "settled commit s =
     s\<lparr>st_configuration := set_network (settle_target commit s) (st_configuration s),
       st_pending := (st_pending s)\<lparr>pd_transaction := (pd_transaction (st_pending s))
         \<lparr>nt_state := if commit then ''committed'' else ''rolled_back'', nt_remaining_ms := 0\<rparr>\<rparr>\<rparr>"

lemma wp_ext_cong:
  assumes "\<And>x w. Q x (b\<lparr>bk_world := w\<rparr>) = Q' x (b\<lparr>bk_world := w\<rparr>)"
  shows "wp (ext m) Q R b = wp (ext m) Q' R b"
  using assms by (auto simp: wp_def ext_def split: prod.splits sum.splits)

lemma wp_settleNetwork:
  "wp (settleNetwork E commit boot reason) Q R b \<longleftrightarrow>
     wp (ext (en_network E (settle_target commit (bk_state b)) boot))
       (\<lambda>_ b'. wp (persist E) (\<lambda>_. wp (settle_event E commit reason) Q R) R
          (b'\<lparr>bk_state := settled commit (bk_state b)\<rparr>)) R b"
  unfolding settleNetwork_def wp_rules settle_target_def [symmetric]
  by (rule wp_ext_cong) (simp add: wp_modify settled_def)

lemma settled_simps [simp]:
  "tx_state (settled commit s) = (if commit then ''committed'' else ''rolled_back'')"
  "\<not> is_pending (settled commit s)"
  "conf_network (settled commit s) = settle_target commit s"
  "st_initialized (settled commit s) = st_initialized s"
  "st_reset_intent (settled commit s) = st_reset_intent s"
  "st_job (settled commit s) = st_job s"
  "tx_id (settled commit s) = tx_id s" "tx_network (settled commit s) = tx_network s"
  "pd_previous (st_pending (settled commit s)) = pd_previous (st_pending s)"
  by (simp_all add: settled_def is_pending_def set_network_def)

section \<open>Observing the links\<close>

text \<open>
  The observation of the links changes the remembered carriers and, through audit events and the
  platform, surroundings for which a predicate \<open>P\<close> is kept.
\<close>

lemma wp_event_keeps:
  assumes "\<And>fs w. P w \<Longrightarrow> P (snd (en_sink E fs w))" and "P (bk_world b)"
    and "\<And>w. P w \<Longrightarrow> Q () (b\<lparr>bk_world := w\<rparr>)"
  shows "wp (event E code category message actor action outcome subject prio rid) Q R b"
proof -
  have "Q () b" using assms(3) [OF assms(2)] by simp
  with assms show ?thesis by (auto simp: wp_def event_def split: option.splits)
qed

lemma wp_ext_keeps:
  assumes "keeps P m" and "P (bk_world b)"
    and "\<And>x w. P w \<Longrightarrow> Q x (b\<lparr>bk_world := w\<rparr>)" and "\<And>e w. P w \<Longrightarrow> R e (b\<lparr>bk_world := w\<rparr>)"
  shows "wp (ext m) Q R b"
  using assms keepsD [OF assms(1,2)] by (auto intro!: wp_ext_any)

lemma wp_observe_link:
  assumes "\<And>fs w. P w \<Longrightarrow> P (snd (en_sink E fs w))" and "P (bk_world b)"
    and "\<And>cs w. P w \<Longrightarrow> Q () (b\<lparr>bk_carriers := cs, bk_world := w\<rparr>)"
  shows "wp (observe_link E link) Q R b"
proof -
  have same: "Q () b"
    using assms(3) [OF assms(2), of "bk_carriers b"] by simp
  have carriers: "Q () (b\<lparr>bk_carriers := cs\<rparr>)" for cs
    using assms(3) [OF assms(2), of cs] by simp
  have both: "Q () (b\<lparr>bk_world := w, bk_carriers := cs\<rparr>)" if "P w" for cs w
  proof -
    have "b\<lparr>bk_world := w, bk_carriers := cs\<rparr> = b\<lparr>bk_carriers := cs, bk_world := w\<rparr>"
      by (cases b) simp
    with assms(3) [OF that, of cs] show ?thesis by (simp only:)
  qed
  show ?thesis
    unfolding observe_link_def
    by (auto simp: wp_rules same carriers both intro!: wp_event_keeps [where P = P] assms(1,2))
qed

lemma wp_for_observe:
  assumes "\<And>fs w. P w \<Longrightarrow> P (snd (en_sink E fs w))" and "P (bk_world b)"
    and "\<And>cs w. P w \<Longrightarrow> Q () (b\<lparr>bk_carriers := cs, bk_world := w\<rparr>)"
  shows "wp (for_io (observe_link E) links) Q R b"
  using assms(2,3)
proof (induction links arbitrary: b)
  case Nil
  from Nil(2) [OF Nil(1), of "bk_carriers b"] show ?case by (simp add: wp_rules)
next
  case (Cons link links)
  have "wp (for_io (observe_link E) links) Q R (b\<lparr>bk_carriers := cs, bk_world := w\<rparr>)" if "P w" for cs w
    using that Cons.prems(2) by (intro Cons.IH) simp_all
  then show ?case
    by (simp only: for_io.simps wp_rules) (intro wp_observe_link [where P = P] assms(1) Cons.prems(1))
qed

lemma wp_observeNetwork:
  assumes "\<And>fs w. P w \<Longrightarrow> P (snd (en_sink E fs w))" and "keeps P (en_networkLinks E)"
    and "P (bk_world b)"
    and "\<And>cs w. P w \<Longrightarrow> Q () (b\<lparr>bk_carriers := cs, bk_world := w\<rparr>)"
  shows "wp (observeNetwork E) Q R b"
proof -
  have world: "Q () (b\<lparr>bk_world := w\<rparr>)" if "P w" for w
    using assms(4) [OF that, of "bk_carriers b"] by simp
  have both: "Q () (b\<lparr>bk_world := w, bk_carriers := cs, bk_world := w'\<rparr>)" if "P w'" for cs w w'
    using assms(4) [OF that, of cs] by (cases b) simp
  show ?thesis
    unfolding observeNetwork_def
    by (auto simp: wp_rules both world assms(3,4)
        intro!: wp_ext_keeps [OF assms(2)] wp_for_observe [where P = P] assms(1))
qed

lemma wp_observe_due:
  assumes "\<And>fs w. P w \<Longrightarrow> P (snd (en_sink E fs w))" and "keeps P (en_networkLinks E)"
    and "keeps P (en_clock E)" and "P (bk_world b)"
    and "\<And>cs n w. P w \<Longrightarrow> Q () (b\<lparr>bk_next_network_observation := n, bk_carriers := cs, bk_world := w\<rparr>)"
    and "\<And>e w. P w \<Longrightarrow> R e (b\<lparr>bk_world := w\<rparr>)"
  shows "wp (observe_due E) Q R b"
proof -
  have world: "Q () (b\<lparr>bk_world := w\<rparr>)" if "P w" for w
    using assms(5) [OF that, where cs = "bk_carriers b" and n = "bk_next_network_observation b"] by simp
  show ?thesis
    unfolding observe_due_def
    by (auto simp: wp_rules world assms(4-6)
        intro!: wp_ext_keeps [OF assms(3)] wp_observeNetwork [where P = P] assms(1,2))
qed

end
