(* ===== verification/Backend_Invariant.thy ===== *)
theory Backend_Invariant
  imports Backend_Rules
begin

text \<open>
  The invariant of the backend's state and that construction, boot, start and every request keep it,
  whatever the surroundings do and whichever way the call ends.
\<close>

section \<open>The invariant\<close>

text \<open>
  At most one transaction is in progress; while a network transaction is pending the configuration
  still holds the network it would roll back to; the configuration is valid, also with the proposed
  network in place. A journal that was written may be loaded again; a serving backend has moreover
  finished its initialisation, unless it only waits for the reboot of a reset.
\<close>

definition known_states :: "state \<Rightarrow> bool" where
  "known_states s =
     (tx_state s \<in> {''idle'', ''pending'', ''committing'', ''committed'', ''rolled_back''} \<and>
      jb_state (st_job s) \<in> {[], ''accepted'', ''dispatched'', ''failed'', ''interrupted'', ''completed''})"

definition exclusive :: "state \<Rightarrow> bool" where
  "exclusive s =
     (is_pending s \<longrightarrow>
        jb_state (st_job s) \<noteq> ''accepted'' \<and> \<not> st_reset_intent s \<and> st_initialized s)"

definition anchored :: "state \<Rightarrow> bool" where
  "anchored s = (is_pending s \<longrightarrow> pd_previous (st_pending s) = conf_network s)"

definition valid_state :: "state \<Rightarrow> bool" where
  "valid_state s =
     (wf_configuration (st_configuration s) \<and>
      (is_pending s \<longrightarrow> wf_configuration (set_network (tx_network s) (st_configuration s))))"

definition journal_inv :: "state \<Rightarrow> bool" where
  "journal_inv s = (known_states s \<and> exclusive s \<and> anchored s \<and> valid_state s)"

definition ready :: "state \<Rightarrow> bool" where
  "ready s = (st_initialized s \<or> st_reset_intent s)"

definition state_inv :: "state \<Rightarrow> bool" where
  "state_inv s = (journal_inv s \<and> ready s)"

lemmas inv_defs =
  state_inv_def journal_inv_def known_states_def exclusive_def anchored_def valid_state_def ready_def
  is_pending_def

lemmas inv_parts =
  state_inv_def journal_inv_def exclusive_def anchored_def valid_state_def ready_def

lemma set_network_simps [simp]:
  "pr_network (cf_system (set_network n c)) = n"
  "pr_hostname (cf_system (set_network n c)) = pr_hostname (cf_system c)"
  "pr_ssh_enabled (cf_system (set_network n c)) = pr_ssh_enabled (cf_system c)"
  "cf_time (set_network n c) = cf_time c"
  "set_network n (set_network m c) = set_network n c"
  "set_network (pr_network (cf_system c)) c = c"
  by (simp_all add: set_network_def)

lemma set_hostname_simps [simp]:
  "pr_network (cf_system (set_hostname h c)) = pr_network (cf_system c)"
  "pr_hostname (cf_system (set_hostname h c)) = h"
  "cf_time (set_hostname h c) = cf_time c"
  by (simp_all add: set_hostname_def)

text \<open>How the state changes: settling a transaction, another job, another configuration.\<close>

lemma pending_ready: "journal_inv s \<Longrightarrow> is_pending s \<Longrightarrow> ready s"
  by (simp add: journal_inv_def exclusive_def ready_def)

lemma state_inv_settle:
  assumes "state_inv s" and "is_pending s"
  shows "state_inv (settled commit s)"
proof -
  have "wf_configuration (set_network (settle_target commit s) (st_configuration s))"
    using assms by (auto simp: inv_parts settle_target_def)
  then have "valid_state (settled commit s)"
    by (simp add: valid_state_def) (simp add: settled_def)
  moreover have "known_states (settled commit s)"
    using assms(1) by (simp add: state_inv_def journal_inv_def known_states_def)
  ultimately show ?thesis using assms(1) by (simp add: inv_parts)
qed

lemma state_inv_job_state:
  assumes "state_inv s" and "v \<in> {''dispatched'', ''failed'', ''interrupted'', ''completed''}"
  shows "state_inv (s\<lparr>st_job := st_job s\<lparr>jb_state := v\<rparr>\<rparr>)"
proof -
  have "v \<noteq> ''accepted''" using assms(2) by auto
  moreover have "known_states (s\<lparr>st_job := st_job s\<lparr>jb_state := v\<rparr>\<rparr>)"
    using assms by (auto simp: state_inv_def journal_inv_def known_states_def)
  moreover have "is_pending (s\<lparr>st_job := st_job s\<lparr>jb_state := v\<rparr>\<rparr>) = is_pending s"
    by (simp add: is_pending_def)
  ultimately show ?thesis using assms(1) by (auto simp: inv_parts)
qed

lemma state_inv_new_job:
  assumes "state_inv s" and "\<not> is_pending s" and "jb_state j = ''accepted''"
  shows "state_inv (s\<lparr>st_job := j, st_job_actor := a, st_job_request_id := r\<rparr>)"
    and "state_inv (s\<lparr>st_job := j, st_reset_intent := True, st_job_actor := a, st_job_request_id := r\<rparr>)"
  using assms by (simp_all add: inv_defs)

lemma journal_inv_configuration:
  assumes "journal_inv s" and "\<not> is_pending s" and "wf_configuration c"
  shows "journal_inv (s\<lparr>st_configuration := c\<rparr>)"
    and "journal_inv (s\<lparr>st_configuration := c, st_initialized := i\<rparr>)"
  using assms by (simp_all add: inv_defs)

lemma state_inv_configuration:
  assumes "state_inv s" and "\<not> is_pending s" and "wf_configuration c"
  shows "state_inv (s\<lparr>st_configuration := c\<rparr>)"
    and "state_inv (s\<lparr>st_configuration := c, st_initialized := True\<rparr>)"
  using assms by (simp_all add: inv_defs)

lemma journal_inv_initialized:
  "journal_inv s \<Longrightarrow> journal_inv (s\<lparr>st_initialized := True\<rparr>)"
  by (simp add: inv_defs)

lemma state_inv_initialized [simp]:
  "journal_inv s \<Longrightarrow> state_inv (s\<lparr>st_initialized := True\<rparr>)"
  "state_inv s \<Longrightarrow> state_inv (s\<lparr>st_initialized := True\<rparr>)"
  by (simp_all add: inv_defs)

lemma state_inv_begin:
  assumes "state_inv s" and "jb_state (st_job s) \<noteq> ''accepted''" and "\<not> st_reset_intent s"
    and "wf_configuration (set_network (nt_network (pd_transaction p)) (st_configuration s))"
    and "nt_state (pd_transaction p) = ''pending''" and "pd_previous p = conf_network s"
  shows "state_inv (s\<lparr>st_pending := p\<rparr>)"
  using assms by (simp add: inv_defs)

lemma state_inv_pending:
  assumes "state_inv s"
    and "nt_state (pd_transaction p) = tx_state s \<or>
      nt_state (pd_transaction p) = ''committing'' \<and> is_pending s"
    and "nt_network (pd_transaction p) = tx_network s" and "pd_previous p = pd_previous (st_pending s)"
  shows "state_inv (s\<lparr>st_pending := p\<rparr>)"
  using assms(2)
proof
  assume "nt_state (pd_transaction p) = tx_state s"
  with assms(1,3,4) show ?thesis by (simp add: inv_defs)
next
  assume *: "nt_state (pd_transaction p) = ''committing'' \<and> is_pending s"
  then have "is_pending (s\<lparr>st_pending := p\<rparr>)" by (simp add: is_pending_def)
  moreover have "known_states (s\<lparr>st_pending := p\<rparr>)"
    using * assms(1) by (simp add: state_inv_def journal_inv_def known_states_def)
  ultimately show ?thesis using * assms(1,3,4) by (simp add: inv_parts)
qed

lemma journal_inv_reset:
  assumes "journal_inv s" and "wf_configuration c"
  shows "journal_inv (s\<lparr>st_configuration := c, st_initialized := i, st_pending := default_pending\<rparr>)"
    and "state_inv (s\<lparr>st_configuration := c, st_initialized := True, st_pending := default_pending,
      st_reset_intent := False, st_job := st_job s\<lparr>jb_state := ''completed''\<rparr>\<rparr>)"
  using assms by (simp_all add: inv_defs default_defs)

text \<open>
  What loading a profile and the boot preferences has checked (loadProfile, loadBootPreferences):
  every configuration the daemon may fall back to is valid.
\<close>

definition wf_profile :: "profile \<Rightarrow> bool" where
  "wf_profile p =
     (wf_configuration (pf_defaults p) \<and>
      (case pf_boot_preferences p of None \<Rightarrow> True
       | Some boot \<Rightarrow> wf_configuration (bp_initial boot) \<and> valid_hostname (bp_managed_hostname boot)))"

lemma set_hostname_inv:
  assumes "journal_inv s" and "valid_hostname h"
  shows "journal_inv (s\<lparr>st_configuration := set_hostname h (st_configuration s)\<rparr>)"
  using assms
  by (simp add: inv_defs wf_configuration_def set_hostname_def set_network_def)

text \<open>A recovery that returns leaves no transaction pending.\<close>

definition resolved :: "state \<Rightarrow> bool" where
  "resolved s = (journal_inv s \<and> \<not> is_pending s)"

lemma resolved_settle:
  "journal_inv s \<Longrightarrow> is_pending s \<Longrightarrow> resolved (settled commit s)"
  using state_inv_settle [of s commit] pending_ready [of s] by (simp add: resolved_def state_inv_def)

lemma unstarted_resolved: "\<not> st_initialized s \<Longrightarrow> journal_inv s \<Longrightarrow> resolved s"
  by (auto simp: resolved_def journal_inv_def exclusive_def)

lemma initial_resolved:
  assumes "journal_inv s" and "\<not> st_initialized s" and "wf_configuration c"
  shows "resolved (s\<lparr>st_configuration := c, st_initialized := True\<rparr>)"
  using unstarted_resolved [OF assms(2,1)] assms(3)
  by (simp add: resolved_def is_pending_def journal_inv_configuration)

text \<open>A start that returns has resolved everything an earlier run left behind.\<close>

definition settled_start :: "state \<Rightarrow> bool" where
  "settled_start s =
     (state_inv s \<and> \<not> is_pending s \<and> (jb_state (st_job s) = ''accepted'' \<longrightarrow> st_reset_intent s))"

lemma journal_inv_time:
  assumes "journal_inv s" and "wf_time t"
  shows "journal_inv (s\<lparr>st_configuration := (st_configuration s)\<lparr>cf_time := t\<rparr>\<rparr>)"
  using assms by (simp add: inv_defs wf_configuration_def set_network_def)

lemma fill_ptp_inv:
  assumes "journal_inv s" and "wf_configuration (pf_defaults p)"
  shows "journal_inv (fill_ptp p s)"
  using assms unfolding fill_ptp_def Let_def
  by (auto intro!: journal_inv_time) (auto simp: inv_parts wf_configuration_def wf_time_def)

lemma resolved_hostname:
  "resolved s \<Longrightarrow> valid_hostname h \<Longrightarrow>
     resolved (s\<lparr>st_configuration := set_hostname h (st_configuration s)\<rparr>)"
  using set_hostname_inv [of s h] by (simp add: resolved_def is_pending_def)

lemma resolved_reset:
  assumes "journal_inv s" and "wf_configuration c"
  shows "resolved (s\<lparr>st_configuration := c, st_initialized := True, st_pending := default_pending,
      st_reset_intent := False, st_job := st_job s\<lparr>jb_state := ''completed''\<rparr>\<rparr>)"
  using journal_inv_reset(2) [OF assms] by (simp add: resolved_def state_inv_def is_pending_def default_defs)

section \<open>The serving process\<close>

text \<open>
  The requests a started backend serves, in any order and with any arguments, each ending normally
  or with an exception.
\<close>

inductive backend_step :: "'w env \<Rightarrow> 'w backend \<Rightarrow> 'w backend \<Rightarrow> bool" for E where
  step_status: "backend_step E b (snd (status E b))"
| step_apply: "backend_step E b (snd (apply_preferences E config b))"
| step_begin: "backend_step E b (snd (beginNetwork E p actor rid b))"
| step_transaction: "backend_step E b (snd (networkTransaction E b))"
| step_prepare: "backend_step E b (snd (prepareNetworkCommit E i b))"
| step_finish: "backend_step E b (snd (finishNetwork E i commit actor rid b))"
| step_power: "backend_step E b (snd (power E action actor rid b))"
| step_reset: "backend_step E b (snd (resetDevice E confirmed actor rid b))"
| step_tick: "backend_step E b (snd (tick E b))"

inductive_cases backend_stepE: "backend_step E b b'"

text \<open>
  The life of a device: a process that constructs a backend and boots it, one that constructs a
  backend, starts it and serves, any process ending at any time, and surroundings that change on
  their own as long as \<open>G\<close> holds.
\<close>

datatype 'w device = Down 'w | Up "'w backend"

inductive lifecycle :: "'w env \<Rightarrow> profile \<Rightarrow> ('w \<Rightarrow> bool) \<Rightarrow> 'w device \<Rightarrow> bool" for E p G where
  off: "G w \<Longrightarrow> lifecycle E p G (Down w)"
| construct_failed: "lifecycle E p G (Down w) \<Longrightarrow> make_backend E p w = (Inl e, w') \<Longrightarrow>
    lifecycle E p G (Down w')"
| booted: "lifecycle E p G (Down w) \<Longrightarrow> make_backend E p w = (Inr b, w') \<Longrightarrow>
    bootstrap E b = (r, b') \<Longrightarrow> lifecycle E p G (Down (bk_world b'))"
| start_failed: "lifecycle E p G (Down w) \<Longrightarrow> make_backend E p w = (Inr b, w') \<Longrightarrow>
    start E b = (Inl e, b') \<Longrightarrow> lifecycle E p G (Down (bk_world b'))"
| started: "lifecycle E p G (Down w) \<Longrightarrow> make_backend E p w = (Inr b, w') \<Longrightarrow>
    start E b = (Inr (), b') \<Longrightarrow> lifecycle E p G (Up b')"
| served: "lifecycle E p G (Up b) \<Longrightarrow> backend_step E b b' \<Longrightarrow> lifecycle E p G (Up b')"
| stopped: "lifecycle E p G (Up b) \<Longrightarrow> lifecycle E p G (Down (bk_world b))"
| surroundings: "lifecycle E p G (Up b) \<Longrightarrow> G w \<Longrightarrow> lifecycle E p G (Up (b\<lparr>bk_world := w\<rparr>))"

section \<open>Surroundings that keep the journal\<close>

text \<open>
  What the backend relies on: there is a predicate \<open>G\<close> of the surroundings under which the journal,
  if it can be read, holds a state with the invariant; every call keeps it, and so does the write of
  such a state to the journal, whether it succeeds or fails.
\<close>

locale stable_storage =
  fixes E :: "'w env" and profile :: profile and G :: "'w \<Rightarrow> bool"
  assumes reads: "keeps G (en_discover E)" "keeps G (en_status E)" "keeps G (en_networkLinks E)"
      "keeps G (en_validateConfiguration E c)" "keeps G (en_clock E)" "keeps G (en_readFile E path)"
      "keeps G (en_fileHash E path)" "keeps G (en_randomId E)" "keeps G (en_exists E path)"
      "keeps G (en_createStateDirectory E path)" "G w \<Longrightarrow> G (snd (en_sink E fs w))"
    and effects: "keeps G (en_preferences E c)" "keeps G (en_bootHostname E h)"
      "keeps G (en_sshBootPolicy E enabled)" "keeps G (en_clockBootPolicy E t)"
      "keeps G (en_network E n boot)" "keeps G (en_power E a)"
      "reset_path \<in> set (pf_reset_paths profile) \<Longrightarrow> keeps G (en_durableRemove E reset_path)"
    and journal_write: "en_encodeState E s = Inr js \<Longrightarrow> journal_inv s \<Longrightarrow>
      keeps G (en_atomicWrite E (journal_path profile) js)"
    and journal_read: "G w \<Longrightarrow> en_readFile E (journal_path profile) w = (Inr js, w') \<Longrightarrow>
      en_decodeState E js = Inr s \<Longrightarrow> journal_inv s"
begin

lemmas env_keeps = reads effects

definition mine :: "'w backend \<Rightarrow> bool" where
  "mine b = (bk_profile b = profile)"

lemma mine_updates [simp]:
  "mine (b\<lparr>bk_state := s\<rparr>) = mine b" "mine (b\<lparr>bk_carriers := cs\<rparr>) = mine b"
  "mine (b\<lparr>bk_next_network_observation := n\<rparr>) = mine b" "mine (b\<lparr>bk_world := w\<rparr>) = mine b"
  "mine (b\<lparr>bk_job_deadline := n\<rparr>) = mine b" "mine (b\<lparr>bk_storage_failed := x\<rparr>) = mine b"
  by (simp_all add: mine_def)

lemma wp_journal:
  assumes "mine b" and "G (bk_world b)" and "journal_inv (bk_state b)"
    and "\<And>w. G w \<Longrightarrow> Q () (b\<lparr>bk_world := w\<rparr>)"
    and "\<And>e w. G w \<Longrightarrow> R e (b\<lparr>bk_world := w, bk_storage_failed := True\<rparr>)"
  shows "wp (persist E) Q R b"
proof (rule wp_persist)
  fix js r w
  assume "en_encodeState E (bk_state b) = Inr js"
  from journal_write [OF this assms(3)] assms(1,2)
  have "en_atomicWrite E (journal_path (bk_profile b)) js (bk_world b) = (r, w) \<Longrightarrow> G w" for r w
    by (auto simp: mine_def dest: keepsD)
  then show "en_atomicWrite E (journal_path (bk_profile b)) js (bk_world b) = (Inr (), w) \<Longrightarrow>
      Q () (b\<lparr>bk_world := w\<rparr>)"
    and "en_atomicWrite E (journal_path (bk_profile b)) js (bk_world b) = (Inl e, w) \<Longrightarrow>
      R e (b\<lparr>bk_world := w, bk_storage_failed := True\<rparr>)" for e
    using assms(4,5) by blast+
next
  show "R e (b\<lparr>bk_storage_failed := True\<rparr>)" for e
    using assms(5) [OF assms(2), of e] by simp
qed

lemma wp_status_file:
  assumes "G (bk_world b)" and "\<And>w st. G w \<Longrightarrow> Q st (b\<lparr>bk_world := w\<rparr>)"
    and "\<And>e w. G w \<Longrightarrow> R e (b\<lparr>bk_world := w\<rparr>)"
  shows "wp (storageStatus E path) Q R b"
  unfolding storageStatus_def
  by (auto simp: wp_rules assms env_keeps intro!: wp_ext_keeps [where P = G] split: option.split)

lemmas vc = wp_ext_keeps [where P = G] wp_event_keeps [where P = G] wp_journal wp_status_file

text \<open>The invariant of a serving backend.\<close>

definition inv :: "'w backend \<Rightarrow> bool" where
  "inv b = (state_inv (bk_state b) \<and> G (bk_world b) \<and> mine b)"

lemma inv_journal: "state_inv s \<Longrightarrow> journal_inv s"
  by (simp add: state_inv_def)

lemma settleNetwork_inv:
  assumes "inv b" and "is_pending (bk_state b)"
  shows "wp (settleNetwork E commit boot reason) (\<lambda>_. inv) (\<lambda>_. inv) b"
  using assms unfolding wp_settleNetwork settle_event_def inv_def
  by (auto simp: wp_rules env_keeps state_inv_settle inv_journal intro!: vc)

lemma recoverNetwork_inv: "keeps inv (recoverNetwork E boot)"
proof (rule keepsI)
  fix b assume b: "inv b"
  from b have "G (bk_world b)" "state_inv (bk_state b)" "mine b" by (simp_all add: inv_def)
  with b show "wp (recoverNetwork E boot) (\<lambda>_. inv) (\<lambda>_. inv) b"
    unfolding recoverNetwork_def
    by (auto simp: wp_rules env_keeps intro!: vc settleNetwork_inv) (auto simp: inv_def)
qed

lemma observe_due_inv: "keeps inv (observe_due E)"
  by (rule keepsI)
     (auto simp: inv_def env_keeps intro!: wp_observe_due [where P = G])

lemma clock_inv [keeps_rules]: "keeps inv (ext (en_clock E))"
  by (rule keepsI) (auto simp: inv_def env_keeps intro!: vc)

lemma expire_pending_inv: "keeps inv (expire_pending E)"
  unfolding expire_pending_def by (intro keeps_rules recoverNetwork_inv)

lemma dispatch_job_inv: "keeps inv (dispatch_job E)"
  unfolding dispatch_job_def inv_def
  by (rule keepsI) (simp only: wp_rules | intro vc | simp add: env_keeps state_inv_job_state inv_journal)+

lemma tick_inv [keeps_rules]: "keeps inv (tick E)"
  unfolding tick_def run_job_def
  by (intro keeps_rules observe_due_inv expire_pending_inv dispatch_job_inv)

lemma networkTransaction_inv [keeps_rules]: "keeps inv (networkTransaction E)"
  unfolding networkTransaction_def by (intro keeps_rules)

text \<open>Requests.\<close>

lemma status_inv [keeps_rules]: "keeps inv (status E)"
  unfolding status_def by (rule keepsI) (auto simp: wp_rules inv_def env_keeps intro!: vc)

lemma apply_preferences_inv [keeps_rules]: "keeps inv (apply_preferences E config)"
proof (rule keepsI)
  fix b assume "inv b"
  then have b: "state_inv (bk_state b)" "G (bk_world b)" "mine b"
    "wf_configuration (st_configuration (bk_state b))"
    by (simp_all add: inv_def inv_parts)
  show "wp (apply_preferences E config) (\<lambda>_. inv) (\<lambda>_. inv) b"
    unfolding apply_preferences_def inv_def
    by (simp only: wp_rules case_prod_conv Let_def split: if_split
        | intro vc conjI impI
        | simp add: b env_keeps inv_journal state_inv_configuration)+
qed

lemma beginNetwork_inv [keeps_rules]: "keeps inv (beginNetwork E p actor rid)"
proof (rule keepsI)
  fix b assume "inv b"
  then have b: "state_inv (bk_state b)" "G (bk_world b)" "mine b"
    by (simp_all add: inv_def)
  show "wp (beginNetwork E p actor rid) (\<lambda>_. inv) (\<lambda>_. inv) b"
    unfolding beginNetwork_def check_proposal_def
    by (simp only: wp_rules case_prod_conv Let_def split: if_split
        | intro vc conjI impI keeps_then [OF networkTransaction_inv]
            wp_mono [OF settleNetwork_inv]
        | simp add: b inv_def env_keeps inv_journal state_inv_begin is_pending_def)+
qed

lemma prepareNetworkCommit_inv [keeps_rules]: "keeps inv (prepareNetworkCommit E i)"
proof (rule keepsI)
  fix b assume "inv b"
  then show "wp (prepareNetworkCommit E i) (\<lambda>_. inv) (\<lambda>_. inv) b"
    unfolding prepareNetworkCommit_def wp_seq
    by (intro keeps_then [OF tick_inv])
       (simp only: wp_rules case_prod_conv split: if_split
          | intro vc conjI impI
          | simp add: inv_def env_keeps inv_journal state_inv_pending)+
qed

lemma finishNetwork_inv [keeps_rules]: "keeps inv (finishNetwork E i commit actor rid)"
  unfolding finishNetwork_def check_finish_def
  by (rule keepsI)
     (simp only: wp_rules case_prod_conv split: if_split
        | intro vc conjI impI settleNetwork_inv
        | simp add: inv_def env_keeps inv_journal state_inv_pending is_pending_def)+

lemma power_inv [keeps_rules]: "keeps inv (power E action actor rid)"
  unfolding power_def job_accepted_def
  by (rule keepsI)
     (simp only: wp_rules split: if_split
        | intro vc conjI impI
        | simp add: inv_def env_keeps inv_journal state_inv_new_job)+

lemma resetDevice_inv [keeps_rules]: "keeps inv (resetDevice E confirmed actor rid)"
  unfolding resetDevice_def job_accepted_def
  by (rule keepsI)
     (simp only: wp_rules case_prod_conv split_paired_all split: if_split
        | intro vc conjI impI
        | simp add: inv_def env_keeps inv_journal state_inv_new_job)+

lemma backend_step_inv: "backend_step E b b' \<Longrightarrow> inv b \<Longrightarrow> inv b'"
  by (elim backend_stepE) (auto intro: keepsD keeps_rules)

text \<open>Boot and start: on return everything is resolved; on an exception the journal is intact.\<close>

definition fair :: "'w backend \<Rightarrow> bool" where
  "fair b = (G (bk_world b) \<and> mine b)"

lemma fair_simps [simp]:
  "fair (b\<lparr>bk_state := s\<rparr>) = fair b" "fair (b\<lparr>bk_storage_failed := x\<rparr>) = fair b"
  "fair (b\<lparr>bk_job_deadline := n\<rparr>) = fair b" "fair (b\<lparr>bk_world := w\<rparr>) \<longleftrightarrow> G w \<and> mine b"
  by (simp_all add: fair_def)

lemma fairD: "fair b \<Longrightarrow> mine b" "fair b \<Longrightarrow> G (bk_world b)"
  by (simp_all add: fair_def)

lemma settleNetwork_resolved:
  assumes "journal_inv (bk_state b)" and "is_pending (bk_state b)" and "fair b"
  shows "wp (settleNetwork E commit boot reason)
    (\<lambda>_ b'. resolved (bk_state b') \<and> fair b' \<and> st_initialized (bk_state b') = st_initialized (bk_state b))
    (\<lambda>_. fair) b"
  using assms resolved_settle [OF assms(1,2), of commit]
  unfolding wp_settleNetwork settle_event_def fair_def
  by (auto simp: wp_rules env_keeps resolved_def intro!: vc)

lemma recoverNetwork_resolved:
  assumes "journal_inv (bk_state b)" and "fair b"
  shows "wp (recoverNetwork E boot)
    (\<lambda>_ b'. resolved (bk_state b') \<and> fair b' \<and> st_initialized (bk_state b') = st_initialized (bk_state b))
    (\<lambda>_. fair) b"
proof -
  have b: "G (bk_world b)" "mine b" using assms(2) by (simp_all add: fair_def)
  have settle: "wp (settleNetwork E commit boot reason)
      (\<lambda>_ b'. resolved (bk_state b') \<and> fair b' \<and> st_initialized (bk_state b') = st_initialized (bk_state b))
      (\<lambda>_. fair) (b\<lparr>bk_world := w\<rparr>)" if "is_pending (bk_state b)" "G w" for commit reason w
    using settleNetwork_resolved [of "b\<lparr>bk_world := w\<rparr>"] that assms(1) b by (simp add: fair_def)
  from settle [of "bk_world b"] b have "is_pending (bk_state b) \<Longrightarrow> wp (settleNetwork E commit boot reason)
      (\<lambda>_ b'. resolved (bk_state b') \<and> fair b' \<and> st_initialized (bk_state b') = st_initialized (bk_state b))
      (\<lambda>_. fair) b" for commit reason by simp
  with settle show ?thesis
    using assms b unfolding recoverNetwork_def
    by (auto simp: wp_rules resolved_def [of "bk_state b"] env_keeps fair_def intro!: vc)
qed

lemma wp_boot_policies:
  assumes "G (bk_world b)" and "\<And>w. G w \<Longrightarrow> Q () (b\<lparr>bk_world := w\<rparr>)"
    and "\<And>e w. G w \<Longrightarrow> R e (b\<lparr>bk_world := w\<rparr>)"
  shows "wp (boot_policies E) Q R b"
  unfolding boot_policies_def by (auto simp: wp_rules assms env_keeps intro!: vc)

lemma wp_removals:
  assumes "set ps \<subseteq> set (pf_reset_paths profile)" and "G (bk_world b)"
    and "\<And>w. G w \<Longrightarrow> Q () (b\<lparr>bk_world := w\<rparr>)" and "\<And>e w. G w \<Longrightarrow> R e (b\<lparr>bk_world := w\<rparr>)"
  shows "wp (for_io (\<lambda>path. ext (en_durableRemove E path)) ps) Q R b"
  using assms
proof (induction ps arbitrary: b)
  case Nil
  from Nil(3) [OF Nil(2)] show ?case by (simp add: wp_rules)
next
  case (Cons p ps)
  have "wp (for_io (\<lambda>path. ext (en_durableRemove E path)) ps) Q R (b\<lparr>bk_world := w\<rparr>)" if "G w" for w
    using that Cons.prems by (intro Cons.IH) simp_all
  with Cons.prems show ?case by (auto simp: wp_rules env_keeps intro!: vc)
qed

lemma finish_reset_resolved:
  assumes "journal_inv (bk_state b)" and "wf_configuration (pf_defaults profile)" and "fair b"
  shows "wp (finish_reset E profile) (\<lambda>_ b'. resolved (bk_state b') \<and> fair b') (\<lambda>_. fair) b"
proof -
  have b: "G (bk_world b)" "mine b" using assms(3) by (simp_all add: fair_def)
  note reset = resolved_reset [OF assms(1,2)]
  have "journal_inv s" if "resolved s" for s using that by (simp add: resolved_def)
  note journal = this [OF reset]
  show ?thesis
    unfolding finish_reset_def fair_def
    by (simp only: wp_rules case_prod_conv split_paired_all split: if_split
        | intro vc conjI impI wp_removals wp_boot_policies order_refl
        | simp add: b env_keeps reset journal)+
qed

lemma boot_hostname_resolved:
  assumes "resolved (bk_state b)" and "wf_profile profile" and "fair b"
  shows "wp (boot_hostname E profile) (\<lambda>_ b'. resolved (bk_state b') \<and> fair b') (\<lambda>_. fair) b"
proof -
  have "journal_inv s" if "resolved s" for s using that by (simp add: resolved_def)
  with assms show ?thesis unfolding boot_hostname_def fair_def
    by (auto simp: wp_rules wf_profile_def env_keeps resolved_hostname intro!: vc split: option.splits)
qed

lemma bootstrap_resolved:
  assumes "journal_inv (bk_state b)" and "wf_profile profile" and "fair b"
  shows "wp (bootstrap E) (\<lambda>_ b'. resolved (bk_state b') \<and> fair b') (\<lambda>_. fair) b"
proof -
  have wfp: "wf_configuration (pf_defaults profile)"
    "pf_boot_preferences profile = Some boot \<Longrightarrow> wf_configuration (bp_initial boot)" for boot
    using assms(2) by (simp_all add: wf_profile_def)
  have b: "bk_profile b = profile" "G (bk_world b)" "mine b"
    using assms(3) by (simp_all add: fair_def mine_def)
  have initial: "resolved (bk_state b\<lparr>st_configuration := bp_initial boot, st_initialized := True\<rparr>)"
    "journal_inv (bk_state b\<lparr>st_configuration := bp_initial boot, st_initialized := True\<rparr>)"
    if "pf_boot_preferences profile = Some boot" "\<not> st_initialized (bk_state b)" for boot
    using initial_resolved [OF assms(1) that(2) wfp(2) [OF that(1)]] by (simp_all add: resolved_def)
  have hostname: "wp (boot_hostname E profile) (\<lambda>_ b'. resolved (bk_state b') \<and> fair b') (\<lambda>_. fair) b'"
    if "resolved (bk_state b')" "fair b'" for b'
    using that assms(2) by (intro boot_hostname_resolved)
  show ?thesis
    unfolding bootstrap_def
    by (auto simp: wp_rules b assms wfp env_keeps hostname initial unstarted_resolved fairD
        split: option.split intro!: vc wp_boot_policies
          finish_reset_resolved [THEN wp_mono] recoverNetwork_resolved [THEN wp_mono])
qed

lemma start_settled:
  assumes "journal_inv (bk_state b)" and "fair b"
  shows "wp (start E) (\<lambda>_ b'. settled_start (bk_state b') \<and> inv b') (\<lambda>_. fair) b"
proof -
  have b: "G (bk_world b)" "mine b" using assms(2) by (simp_all add: fair_def)
  have job: "wp (start_job E) (\<lambda>_ b'. settled_start (bk_state b') \<and> inv b') (\<lambda>_. fair) b'"
    if "resolved (bk_state b')" "st_initialized (bk_state b')" "fair b'" for b'
  proof -
    have "state_inv (bk_state b')" using that by (simp add: resolved_def state_inv_def ready_def)
    from state_inv_job_state [OF this, of "''interrupted''"] this that show ?thesis
      unfolding start_job_def
      by (auto simp: wp_rules settled_start_def resolved_def is_pending_def inv_def fair_def
          env_keeps inv_journal intro!: vc)
  qed
  have recover: "wp (recoverNetwork E False)
      (\<lambda>_. wp (start_job E) (\<lambda>_ b'. settled_start (bk_state b') \<and> inv b') (\<lambda>_. fair)) (\<lambda>_. fair) b'"
    if "journal_inv (bk_state b')" "st_initialized (bk_state b')" "fair b'" for b'
    using that by (intro recoverNetwork_resolved [THEN wp_mono]) (auto intro: job)
  have resetting: "settled_start (bk_state b)" "state_inv (bk_state b)" if "st_reset_intent (bk_state b)"
    using that assms(1)
    by (auto simp: settled_start_def state_inv_def ready_def journal_inv_def exclusive_def)
  have discovered: "journal_inv (bk_state b\<lparr>st_configuration := c, st_initialized := True\<rparr>)"
    if "\<not> st_initialized (bk_state b)" "wf_configuration c" for c
    using initial_resolved [OF assms(1) that] by (simp add: resolved_def)
  show ?thesis
    using assms b unfolding start_def
    by (auto simp: wp_rules recover resetting discovered env_keeps intro!: vc)
       (simp_all add: inv_def resetting)
qed

lemma load_state_journal:
  assumes "wf_configuration (pf_defaults profile)" and "G w"
  shows "wp (load_state E profile) (\<lambda>s w. G w \<and> journal_inv s) (\<lambda>_. G) w"
proof -
  have fresh: "journal_inv (default_state\<lparr>st_configuration := pf_defaults profile\<rparr>)"
    using assms(1) by (simp add: inv_defs default_defs)
  have read: "wp (en_readFile E (journal_path profile))
      (\<lambda>x. wp (of_result (en_decodeState E x)) (\<lambda>s w. G w \<and> journal_inv s) (\<lambda>_. G)) (\<lambda>_. G) w'"
    if "G w'" for w'
    using that by (auto simp: of_result_def intro!: wp_eqI dest: journal_read keeps_run [OF reads(6)]
        split: sum.splits)
  show ?thesis
    unfolding load_state_def wp_rules
    by (intro keeps_then [of G] assms(2) reads) (simp_all add: read fresh)
qed

lemma make_backend_fair:
  assumes "wf_configuration (pf_defaults profile)" and "G w" and "make_backend E profile w = (r, w')"
  shows "G w' \<and> (\<forall>b. r = Inr b \<longrightarrow> journal_inv (bk_state b) \<and> fair b)"
proof -
  have "wp (make_backend E profile) (\<lambda>b w. G w \<and> journal_inv (bk_state b) \<and> fair b) (\<lambda>_. G) w"
    unfolding make_backend_def wp_bind
    by (rule wp_mono [OF load_state_journal [OF assms(1,2)]])
       (simp_all add: wp_def fair_def mine_def fill_ptp_inv [OF _ assms(1)])
  with assms(3) show ?thesis by (auto simp: wp_run split: sum.splits)
qed

lemma lifecycle_inv:
  assumes "lifecycle E profile G d" and "wf_profile profile"
  shows "case d of Down w \<Rightarrow> G w | Up b \<Rightarrow> inv b"
  using assms(1)
proof (induction rule: lifecycle.induct)
  have wf: "wf_configuration (pf_defaults profile)" using assms(2) by (simp add: wf_profile_def)
  {
    case (construct_failed w e w')
    with make_backend_fair [OF wf] show ?case by auto
  next
    case (booted w b w' r b')
    then have "journal_inv (bk_state b)" "fair b" using make_backend_fair [OF wf, of w] by auto
    from bootstrap_resolved [OF this(1) assms(2) this(2)] booted(3) show ?case
      by (auto simp: wp_run fair_def split: sum.splits)
  next
    case (start_failed w b w' e b')
    then have "journal_inv (bk_state b)" "fair b" using make_backend_fair [OF wf, of w] by auto
    from start_settled [OF this] start_failed(3) show ?case by (auto simp: wp_run fair_def)
  next
    case (started w b w' b')
    then have "journal_inv (bk_state b)" "fair b" using make_backend_fair [OF wf, of w] by auto
    from start_settled [OF this] started(3) show ?case by (auto simp: wp_run)
  next
    case (served b b')
    then show ?case using backend_step_inv by auto
  }
qed (auto simp: inv_def)

end

end
