(* ===== verification/Storage.thy ===== *)
theory Storage
  imports Validation
begin

text \<open>
  The storage primitives of storage.cpp over a POSIX file system: readFile, atomicWrite,
  durableRemove, fileHash, randomId and bootMilliseconds.

  The file system distinguishes what a running program sees from what survives a power loss: a name
  survives when its directory was synchronised, contents when the file was. How each system call
  ends is taken from a schedule, so a theorem about every schedule covers short and interrupted
  transfers, every error and a power loss at every call.
\<close>

section \<open>Paths\<close>

text \<open>
  A path names a node: its components from the root, with empty and dot components dropped and
  dot-dot resolved lexically (the product's directories contain no symbolic links).
\<close>

definition locate_step :: "string \<Rightarrow> string list \<Rightarrow> string list" where
  "locate_step c acc =
     (if c = [] \<or> c = ''.'' then acc else if c = ''..'' then butlast acc else acc @ [c])"

definition locate :: "string \<Rightarrow> string list" where
  "locate p = fold locate_step (split_on (CHR ''/'') p) []"

section \<open>The file system\<close>

text \<open>
  How a system call ends: it completes; it transfers \<open>n\<close> bytes; it is interrupted by a signal; it
  fails with an error text, a removal after having removed some paths; the power is lost. When the
  schedule is used up every call completes.
\<close>

datatype outcome =
    Done
  | Partial nat
  | Interrupted
  | Failed string
  | Removed "string list" string
  | PowerLoss

type_synonym node = "string list"

record fs =
  fs_names :: "node \<Rightarrow> nat option"
  fs_disk :: "node \<Rightarrow> nat option"
  fs_data :: "nat \<Rightarrow> string"
  fs_synced :: "nat \<Rightarrow> string option"
  fs_fresh :: nat
  fs_dirs :: "node \<Rightarrow> bool"
  fs_stat :: "node \<Rightarrow> (bool \<times> 32 word \<times> 32 word) option"
  fs_dead :: bool
  fs_schedule :: "outcome list"
  fs_entropy :: "8 word list"
  fs_clock :: "(64 word \<times> 64 word) list"

text \<open>The next outcome; after a power loss nothing happens any more.\<close>

definition next_outcome :: "(fs, outcome) io" where
  "next_outcome f =
     (if fs_dead f then (Inr PowerLoss, f)
      else case fs_schedule f of
        [] \<Rightarrow> (Inr Done, f)
      | PowerLoss # rest \<Rightarrow> (Inr PowerLoss, f\<lparr>fs_schedule := rest, fs_dead := True\<rparr>)
      | out # rest \<Rightarrow> (Inr out, f\<lparr>fs_schedule := rest\<rparr>))"

text \<open>The contents a program reads under a name, and what a power loss may leave there.\<close>

definition node_content :: "fs \<Rightarrow> node \<Rightarrow> string option" where
  "node_content f n = map_option (fs_data f) (fs_names f n)"

abbreviation content :: "fs \<Rightarrow> string \<Rightarrow> string option" where
  "content f p \<equiv> node_content f (locate p)"

text \<open>
  After a power loss each name is either the synchronised one or the one in memory, and the contents
  of a file are the synchronised ones, or arbitrary when it was never synchronised.
\<close>

definition survivor :: "(nat \<Rightarrow> string option) \<Rightarrow> nat option \<Rightarrow> string option \<Rightarrow> bool" where
  "survivor synced name c =
     (case name of None \<Rightarrow> c = None
      | Some i \<Rightarrow> (case synced i of None \<Rightarrow> True | Some text \<Rightarrow> c = Some text))"

definition survives :: "fs \<Rightarrow> node \<Rightarrow> string option \<Rightarrow> bool" where
  "survives f n c =
     (survivor (fs_synced f) (fs_disk f n) c \<or> survivor (fs_synced f) (fs_names f n) c)"

section \<open>System calls\<close>

definition io_error :: "string \<Rightarrow> string \<Rightarrow> exn" where
  "io_error what err = Error apply_failed (what @ '': '' @ err)"

text \<open>A call that only succeeds or fails; \<open>io(call() == 0, what)\<close>.\<close>

definition simple_call :: "string \<Rightarrow> (fs \<Rightarrow> fs) \<Rightarrow> (fs, unit) io" where
  "simple_call what effect =
     bind next_outcome (\<lambda>out. case out of
        Done \<Rightarrow> modify effect
      | Partial _ \<Rightarrow> modify effect
      | Interrupted \<Rightarrow> throw (io_error what ''Interrupted system call'')
      | Failed err \<Rightarrow> throw (io_error what err)
      | Removed _ err \<Rightarrow> throw (io_error what err)
      | PowerLoss \<Rightarrow> throw (io_error what ''power loss''))"

text \<open>A throwing call of \<open>std::filesystem\<close>.\<close>

definition filesystem_call :: "(fs \<Rightarrow> fs) \<Rightarrow> (fs, unit) io" where
  "filesystem_call effect =
     bind next_outcome (\<lambda>out. case out of
        Done \<Rightarrow> modify effect
      | Partial _ \<Rightarrow> modify effect
      | Interrupted \<Rightarrow> throw (StdException ''Interrupted system call'')
      | Failed err \<Rightarrow> throw (StdException err)
      | Removed _ err \<Rightarrow> throw (StdException err)
      | PowerLoss \<Rightarrow> throw (StdException ''power loss''))"

definition create_directories :: "node \<Rightarrow> (fs, unit) io" where
  "create_directories d = filesystem_call (\<lambda>f. f\<lparr>fs_dirs := (\<lambda>q. fs_dirs f q \<or> prefix q d)\<rparr>)"

definition node_exists :: "node \<Rightarrow> (fs, bool) io" where
  "node_exists n = gets (\<lambda>f. fs_names f n \<noteq> None \<or> fs_dirs f n)"

definition open_new :: "node \<Rightarrow> (fs, nat) io" where
  "open_new n =
     bind (gets (\<lambda>f. (fs_names f n, fs_fresh f))) (\<lambda>(old, i).
       if old \<noteq> None then throw (io_error ''create state file'' ''File exists'')
       else seq (simple_call ''create state file'' (\<lambda>f.
              f\<lparr>fs_names := (fs_names f)(n := Some i), fs_data := (fs_data f)(i := []),
                fs_synced := (fs_synced f)(i := None), fs_fresh := Suc i\<rparr>))
            (ret i))"

definition fsync :: "nat \<Rightarrow> (fs, unit) io" where
  "fsync i = simple_call ''sync state'' (\<lambda>f. f\<lparr>fs_synced := (fs_synced f)(i := Some (fs_data f i))\<rparr>)"

definition rename :: "node \<Rightarrow> node \<Rightarrow> (fs, unit) io" where
  "rename a b =
     simple_call ''replace state'' (\<lambda>f. f\<lparr>fs_names := (fs_names f)(b := fs_names f a, a := None)\<rparr>)"

text \<open>\<open>unlink\<close>, whose result the code ignores.\<close>

definition unlink :: "node \<Rightarrow> (fs, unit) io" where
  "unlink n =
     catch (simple_call ''unlink'' (\<lambda>f. f\<lparr>fs_names := (fs_names f)(n := None)\<rparr>)) (\<lambda>_. ret ())"

text \<open>The entries of a directory become those in memory.\<close>

definition entries :: "node \<Rightarrow> (node \<Rightarrow> nat option) \<Rightarrow> (node \<Rightarrow> nat option) \<Rightarrow> node \<Rightarrow> nat option" where
  "entries d names disk q = (if q \<noteq> [] \<and> butlast q = d then names q else disk q)"

definition syncDirectory :: "node \<Rightarrow> (fs, unit) io" where
  "syncDirectory d =
     seq (simple_call ''open directory'' (\<lambda>f. f))
         (simple_call ''sync directory'' (\<lambda>f. f\<lparr>fs_disk := entries d (fs_names f) (fs_disk f)\<rparr>))"

section \<open>Writing a file atomically\<close>

text \<open>
  The write loop. A write of \<open>n\<close> bytes transfers at least one and at most all of them; a result of
  zero or an error ends the loop. \<open>EINTR\<close> repeats the call.
\<close>

definition append_data :: "nat \<Rightarrow> string \<Rightarrow> fs \<Rightarrow> fs" where
  "append_data i s f = f\<lparr>fs_data := (fs_data f)(i := fs_data f i @ s)\<rparr>"

lemma next_outcome_cases:
  assumes "next_outcome f = (r, f')"
  obtains (off) "fs_dead f" "r = Inr PowerLoss" "f' = f"
  | (empty) "\<not> fs_dead f" "fs_schedule f = []" "r = Inr Done" "f' = f"
  | (lost) rest where "\<not> fs_dead f" "fs_schedule f = PowerLoss # rest" "r = Inr PowerLoss"
      "f' = f\<lparr>fs_schedule := rest, fs_dead := True\<rparr>"
  | (out) out rest where "\<not> fs_dead f" "fs_schedule f = out # rest" "out \<noteq> PowerLoss" "r = Inr out"
      "f' = f\<lparr>fs_schedule := rest\<rparr>"
  using assms unfolding next_outcome_def
  by (auto split: if_splits list.splits outcome.splits)

lemma next_outcome_schedule:
  assumes "next_outcome f = (Inr out, f')"
  shows "length (fs_schedule f') \<le> length (fs_schedule f)"
    and "out = Interrupted \<Longrightarrow> length (fs_schedule f') < length (fs_schedule f)"
  using assms by (auto elim!: next_outcome_cases)

function write_all :: "nat \<Rightarrow> string \<Rightarrow> fs \<Rightarrow> unit result \<times> fs" where
  "write_all i rest f =
     (if rest = [] then (Inr (), f)
      else case next_outcome f of
        (Inl e, f') \<Rightarrow> (Inl e, f')
      | (Inr out, f') \<Rightarrow>
          (case out of
             Done \<Rightarrow> write_all i [] (append_data i rest f')
           | Partial n \<Rightarrow>
               if n = 0 then (Inl (io_error ''write state'' ''short write''), f')
               else write_all i (drop n rest) (append_data i (take n rest) f')
           | Interrupted \<Rightarrow> write_all i rest f'
           | Failed err \<Rightarrow> (Inl (io_error ''write state'' err), f')
           | Removed _ err \<Rightarrow> (Inl (io_error ''write state'' err), f')
           | PowerLoss \<Rightarrow> (Inl (io_error ''write state'' ''power loss''), f')))"
  by pat_completeness auto
termination
proof (relation "measure (\<lambda>(i, rest, f). length rest + length (fs_schedule f))", goal_cases)
  case (2 i rest f x f' out)
  then have "next_outcome f = (Inr out, f')" by simp
  from next_outcome_schedule(1) [OF this] 2 show ?case by (cases rest) (auto simp: append_data_def)
next
  case (3 i rest f x f' out n)
  then have "next_outcome f = (Inr out, f')" by simp
  from next_outcome_schedule(1) [OF this] 3 show ?case
    by (cases rest; cases n) (auto simp: append_data_def)
next
  case (4 i rest f x f' out)
  then have "next_outcome f = (Inr out, f')" by simp
  from next_outcome_schedule(2) [OF this] 4 show ?case by simp
qed simp

declare write_all.simps [simp del]

section \<open>Random identifiers and the clock\<close>

definition hex_digit :: "nat \<Rightarrow> char" where
  "hex_digit n = (if n < 10 then char_of (48 + n) else char_of (87 + n))"

definition hex_byte :: "8 word \<Rightarrow> string" where
  "hex_byte b = [hex_digit (unat b div 16), hex_digit (unat b mod 16)]"

definition take_entropy :: "nat \<Rightarrow> fs \<Rightarrow> 8 word list \<times> fs" where
  "take_entropy n f =
     (take n (fs_entropy f @ replicate n 0), f\<lparr>fs_entropy := drop n (fs_entropy f)\<rparr>)"

lemma take_entropy_frame:
  "take_entropy n f = (bs, f') \<Longrightarrow> length bs = n \<and> f' = f\<lparr>fs_entropy := fs_entropy f'\<rparr>"
  by (auto simp: take_entropy_def)

function random_bytes :: "8 word list \<Rightarrow> fs \<Rightarrow> 8 word list result \<times> fs" where
  "random_bytes got f =
     (if 16 \<le> length got then (Inr got, f)
      else case next_outcome f of
        (Inl e, f') \<Rightarrow> (Inl e, f')
      | (Inr out, f') \<Rightarrow>
          (case out of
             Done \<Rightarrow> (case take_entropy (16 - length got) f' of (bs, f'') \<Rightarrow> (Inr (got @ bs), f''))
           | Partial n \<Rightarrow>
               if n = 0 then (Inl (io_error ''random ID'' ''no entropy''), f')
               else (case take_entropy (min n (16 - length got)) f' of
                       (bs, f'') \<Rightarrow> random_bytes (got @ bs) f'')
           | Interrupted \<Rightarrow> random_bytes got f'
           | Failed err \<Rightarrow> (Inl (io_error ''random ID'' err), f')
           | Removed _ err \<Rightarrow> (Inl (io_error ''random ID'' err), f')
           | PowerLoss \<Rightarrow> (Inl (io_error ''random ID'' ''power loss''), f')))"
  by pat_completeness auto
termination
proof (relation "measure (\<lambda>(got, f). (16 - length got) + length (fs_schedule f))", goal_cases)
  case (2 got f x f' out n bs f'')
  then have "next_outcome f = (Inr out, f')" by simp
  from next_outcome_schedule(1) [OF this] 2 take_entropy_frame [of "min n (16 - length got)" f' bs f'']
  show ?case by (cases f'') auto
next
  case (3 got f x f' out)
  then have "next_outcome f = (Inr out, f')" by simp
  from next_outcome_schedule(2) [OF this] 3 show ?case by simp
qed simp

declare random_bytes.simps [simp del]

definition randomId :: "(fs, string) io" where
  "randomId = bind (random_bytes []) (\<lambda>b. ret (concat (map hex_byte b)))"

text \<open>\<open>CLOCK_BOOTTIME\<close> as seconds and nanoseconds.\<close>

definition clock_gettime :: "(fs, 64 word \<times> 64 word) io" where
  "clock_gettime =
     seq (simple_call ''boot clock'' (\<lambda>f. f))
         (\<lambda>f. case fs_clock f of
                [] \<Rightarrow> (Inr (0, 0), f)
              | t # rest \<Rightarrow> (Inr t, f\<lparr>fs_clock := rest\<rparr>))"

definition bootMilliseconds :: "(fs, 64 word) io" where
  "bootMilliseconds =
     bind clock_gettime (\<lambda>(sec, nsec). ret (sec * 1000 + nsec div 1000000))"

section \<open>The primitives\<close>

definition replace_file :: "nat \<Rightarrow> string \<Rightarrow> node \<Rightarrow> node \<Rightarrow> (fs, unit) io" where
  "replace_file i text tmp n =
     catch
       (seq (write_all i text)
       (seq (fsync i)
       (seq (rename tmp n)
       (syncDirectory (butlast n)))))
       (\<lambda>e. seq (unlink tmp) (throw e))"

definition atomicWrite :: "string \<Rightarrow> string \<Rightarrow> (fs, unit) io" where
  "atomicWrite p text =
     seq (create_directories (butlast (locate p)))
     (bind randomId (\<lambda>rid.
      let tmp = locate (p @ ''.'' @ rid @ ''.tmp'')
      in bind (open_new tmp) (\<lambda>i. replace_file i text tmp (locate p))))"

definition remove_all :: "node \<Rightarrow> (fs, unit) io" where
  "remove_all n =
     bind next_outcome (\<lambda>out. case out of
        Done \<Rightarrow> modify (\<lambda>f. f\<lparr>fs_names := (\<lambda>q. if prefix n q then None else fs_names f q),
                           fs_dirs := (\<lambda>q. fs_dirs f q \<and> \<not> prefix n q)\<rparr>)
      | Partial _ \<Rightarrow> throw (StdException ''cannot remove all'')
      | Interrupted \<Rightarrow> throw (StdException ''Interrupted system call'')
      | Failed err \<Rightarrow> throw (StdException err)
      | Removed qs err \<Rightarrow>
          seq (modify (\<lambda>f. f\<lparr>fs_names :=
                 (\<lambda>q. if prefix n q \<and> q \<in> locate ` set qs then None else fs_names f q)\<rparr>))
              (throw (StdException err))
      | PowerLoss \<Rightarrow> throw (StdException ''power loss''))"

text \<open>
  \<open>path::parent_path\<close>: everything before the last separator, so that the parent of a path with a
  trailing separator is the path itself.
\<close>

definition parent_path :: "string \<Rightarrow> string" where
  "parent_path p =
     (case dropWhile (\<lambda>c. c \<noteq> CHR ''/'') (rev p) of
        [] \<Rightarrow> []
      | _ # r \<Rightarrow> (let q = rev (dropWhile (\<lambda>c. c = CHR ''/'') r) in if q = [] then ''/'' else q))"

definition durableRemove :: "string \<Rightarrow> (fs, unit) io" where
  "durableRemove p =
     seq (remove_all (locate p))
     (bind (node_exists (locate (parent_path p))) (\<lambda>present.
        cond present (syncDirectory (locate (parent_path p)))))"

text \<open>
  Reading in blocks of 4096 bytes; the size is checked after each block, the end of the file is
  noticed by a short block.
\<close>

function read_blocks :: "nat \<Rightarrow> string \<Rightarrow> string \<Rightarrow> string \<Rightarrow> fs \<Rightarrow> string result \<times> fs" where
  "read_blocks limit p got rest f =
     (case next_outcome f of
        (Inl e, f') \<Rightarrow> (Inl e, f')
      | (Inr (Failed err), f') \<Rightarrow>
          (Inl (if limit < length got then Error invalid_argument ''file too large''
                else Error unavailable (''cannot finish reading '' @ p)), f')
      | (Inr PowerLoss, f') \<Rightarrow> (Inl (Error unavailable (''cannot finish reading '' @ p)), f')
      | (Inr _, f') \<Rightarrow>
          (let got' = got @ take 4096 rest
           in if limit < length got' then (Inl (Error invalid_argument ''file too large''), f')
              else if length rest < 4096 then (Inr got', f')
              else read_blocks limit p got' (drop 4096 rest) f'))"
  by pat_completeness auto
termination
  by (relation "measure (\<lambda>(limit, p, got, rest, f). length rest)") auto

declare read_blocks.simps [simp del]

definition readFile :: "nat \<Rightarrow> string \<Rightarrow> (fs, string) io" where
  "readFile limit p =
     bind (gets (\<lambda>f. content f p)) (\<lambda>c. case c of
        None \<Rightarrow> throw (Error unavailable (''cannot read '' @ p))
      | Some text \<Rightarrow> read_blocks limit p [] text)"

text \<open>The hash function is OpenSSL's; \<open>None\<close> is a failed digest.\<close>

definition fileHash :: "(string \<Rightarrow> 8 word list option) \<Rightarrow> nat \<Rightarrow> string \<Rightarrow> (fs, string) io" where
  "fileHash sha256 limit p =
     bind (node_exists (locate p)) (\<lambda>present.
       if \<not> present then ret []
       else bind (readFile limit p) (\<lambda>v. case sha256 v of
         None \<Rightarrow> throw (Error internal_error ''SHA256 failed'')
       | Some digest \<Rightarrow> ret (concat (map hex_byte digest))))"

section \<open>Rules for the system calls\<close>

lemma wp_next_outcome:
  assumes "\<And>out x. out \<noteq> PowerLoss \<Longrightarrow> Q out (f\<lparr>fs_schedule := x\<rparr>)"
    and "\<And>x. Q PowerLoss (f\<lparr>fs_schedule := x, fs_dead := True\<rparr>)"
  shows "wp next_outcome Q R f"
proof (rule wp_eqI)
  fix out f' assume "next_outcome f = (Inr out, f')"
  then show "Q out f'"
  proof (cases rule: next_outcome_cases)
    case off
    then have "f\<lparr>fs_dead := True\<rparr> = f" by (cases f) simp
    with off assms(2) [of "fs_schedule f"] show ?thesis by simp
  next
    case empty
    then have "f\<lparr>fs_schedule := []\<rparr> = f" by (cases f) simp
    with empty assms(1) [of Done "[]"] show ?thesis by simp
  next
    case (lost rest)
    with assms(2) [of rest] show ?thesis by simp
  next
    case (out out rest)
    with assms(1) [of out rest] show ?thesis by simp
  qed
qed (auto elim: next_outcome_cases)

lemma wp_call:
  assumes "\<And>x. Q () (effect (f\<lparr>fs_schedule := x\<rparr>))"
    and "\<And>e x d. R e (f\<lparr>fs_schedule := x, fs_dead := d\<rparr>)"
  shows "wp (simple_call what effect) Q R f" and "wp (filesystem_call effect) Q R f"
proof -
  have fail: "R e (f\<lparr>fs_schedule := x\<rparr>)" for e x
    using assms(2) [where d = "fs_dead f" and x = x] by (cases f) simp
  show "wp (simple_call what effect) Q R f" "wp (filesystem_call effect) Q R f"
    unfolding simple_call_def filesystem_call_def wp_bind
    by (rule wp_next_outcome; simp add: wp_rules assms fail split: outcome.split)+
qed

lemma next_outcome_shape:
  assumes "next_outcome f = (Inr out, f')"
  shows "\<exists>x d. f' = f\<lparr>fs_schedule := x, fs_dead := d\<rparr> \<and> (out \<noteq> PowerLoss \<longrightarrow> f' = f\<lparr>fs_schedule := x\<rparr>)"
  using assms
proof (cases rule: next_outcome_cases)
  case off
  then show ?thesis by (intro exI [of _ "fs_schedule f"] exI [of _ True]) (cases f, simp)
next
  case empty
  then show ?thesis by (intro exI [of _ "fs_schedule f"] exI [of _ False]) (cases f, simp)
next
  case (lost rest)
  then show ?thesis by (intro exI [of _ rest] exI [of _ True]) simp
next
  case (out out rest)
  then show ?thesis by (intro exI [of _ rest] exI [of _ False]) (cases f, simp)
qed

lemma wp_write_all:
  assumes "\<And>x. Q () (f\<lparr>fs_data := (fs_data f)(i := fs_data f i @ rest), fs_schedule := x\<rparr>)"
    and "\<And>e s x d. R e (f\<lparr>fs_data := (fs_data f)(i := s), fs_schedule := x, fs_dead := d\<rparr>)"
  shows "wp (write_all i rest) Q R f"
  using assms
proof (induction i rest f rule: write_all.induct)
  case (1 i rest f)
  show ?case
  proof (cases "rest = []")
    case True
    with 1(4) [of "fs_schedule f"] show ?thesis
      by (simp add: wp_def write_all.simps)
  next
    case False
    obtain out f' where n: "next_outcome f = (Inr out, f')"
      by (metis next_outcome_cases surj_pair)
    from next_outcome_shape [OF this] obtain x d where
      f': "f' = f\<lparr>fs_schedule := x, fs_dead := d\<rparr>" "out \<noteq> PowerLoss \<longrightarrow> f' = f\<lparr>fs_schedule := x\<rparr>"
      by blast
    have fail: "R e f'" for e
      using 1(5) [where s = "fs_data f i" and d = d and x = x] f'(1) by (cases f) simp
    have step: "write_all i rest f = (case out of
             Done \<Rightarrow> write_all i [] (append_data i rest f')
           | Partial n \<Rightarrow>
               if n = 0 then (Inl (io_error ''write state'' ''short write''), f')
               else write_all i (drop n rest) (append_data i (take n rest) f')
           | Interrupted \<Rightarrow> write_all i rest f'
           | Failed err \<Rightarrow> (Inl (io_error ''write state'' err), f')
           | Removed _ err \<Rightarrow> (Inl (io_error ''write state'' err), f')
           | PowerLoss \<Rightarrow> (Inl (io_error ''write state'' ''power loss''), f'))"
      using False n by (simp add: write_all.simps [of i rest f])
    show ?thesis
    proof (cases out)
      case Done
      with f'(2) have eq: "f' = f\<lparr>fs_schedule := x\<rparr>" by simp
      have "wp (write_all i []) Q R (append_data i rest f')"
        by (rule 1(1) [OF False n [symmetric] refl Done])
           (use 1(4,5) in \<open>simp_all add: eq append_data_def fun_upd_same del: fun_upd_apply\<close>)
      with step Done show ?thesis by (simp add: wp_def)
    next
      case (Partial k)
      with f'(2) have eq: "f' = f\<lparr>fs_schedule := x\<rparr>" by simp
      show ?thesis
      proof (cases "k = 0")
        case True
        with step Partial fail show ?thesis by (simp add: wp_def)
      next
        case k: False
        have "wp (write_all i (drop k rest)) Q R (append_data i (take k rest) f')"
          by (rule 1(2) [OF False n [symmetric] refl Partial k])
             (use 1(4,5) in \<open>simp_all add: eq append_data_def fun_upd_same del: fun_upd_apply\<close>)
        with step Partial k show ?thesis by (simp add: wp_def)
      qed
    next
      case Interrupted
      with f'(2) have eq: "f' = f\<lparr>fs_schedule := x\<rparr>" by simp
      have "wp (write_all i rest) Q R f'"
        by (rule 1(3) [OF False n [symmetric] refl Interrupted])
           (use 1(4,5) in \<open>simp_all add: eq\<close>)
      with step Interrupted show ?thesis by (simp add: wp_def)
    qed (use step fail in \<open>simp_all add: wp_def\<close>)
  qed
qed

lemma wp_random_bytes:
  assumes "length got \<le> 16"
    and "\<And>bs x en. length bs = 16 \<Longrightarrow> Q bs (f\<lparr>fs_schedule := x, fs_entropy := en\<rparr>)"
    and "\<And>e x d en. R e (f\<lparr>fs_schedule := x, fs_dead := d, fs_entropy := en\<rparr>)"
  shows "wp (random_bytes got) Q R f"
  using assms
proof (induction got f rule: random_bytes.induct)
  case (1 got f)
  show ?case
  proof (cases "16 \<le> length got")
    case True
    have "f\<lparr>fs_schedule := fs_schedule f, fs_entropy := fs_entropy f\<rparr> = f" by (cases f) simp
    with True 1(3) 1(4) [of got "fs_entropy f" "fs_schedule f"] show ?thesis
      by (simp add: wp_def random_bytes.simps [of got f])
  next
    case False
    obtain out f' where n: "next_outcome f = (Inr out, f')"
      by (metis next_outcome_cases surj_pair)
    from next_outcome_shape [OF this] obtain x d where
      f': "f' = f\<lparr>fs_schedule := x, fs_dead := d\<rparr>" "out \<noteq> PowerLoss \<longrightarrow> f' = f\<lparr>fs_schedule := x\<rparr>"
      by blast
    have fail: "R e f'" for e
      using 1(5) [where en = "fs_entropy f" and d = d and x = x] f'(1) by (cases f) simp
    show ?thesis
    proof (cases out)
      case Done
      with f'(2) have eq: "f' = f\<lparr>fs_schedule := x\<rparr>" by simp
      obtain bs f'' where t: "take_entropy (16 - length got) f' = (bs, f'')" by fastforce
      from take_entropy_frame [OF this] have "length bs = 16 - length got"
        "f'' = f\<lparr>fs_schedule := x, fs_entropy := fs_entropy f''\<rparr>" by (simp_all add: eq)
      moreover from this(1) 1(3) have "Q (got @ bs) (f\<lparr>fs_schedule := x, fs_entropy := fs_entropy f''\<rparr>)"
        by (intro 1(4)) simp
      ultimately show ?thesis using False n Done t
        by (simp add: wp_def random_bytes.simps [of got f])
    next
      case (Partial k)
      with f'(2) have eq: "f' = f\<lparr>fs_schedule := x\<rparr>" by simp
      show ?thesis
      proof (cases "k = 0")
        case True
        with False n Partial fail show ?thesis by (simp add: wp_def random_bytes.simps [of got f])
      next
        case k: False
        obtain bs f'' where t: "take_entropy (min k (16 - length got)) f' = (bs, f'')" by fastforce
        from take_entropy_frame [OF this] obtain en where fr: "length bs = min k (16 - length got)"
          "f'' = f\<lparr>fs_schedule := x, fs_entropy := en\<rparr>" by (auto simp: eq)
        have "wp (random_bytes (got @ bs)) Q R f''"
        proof (rule 1(1) [OF False n [symmetric] refl Partial k t [symmetric]])
          show "length (got @ bs) \<le> 16" using fr(1) 1(3) by simp
        qed (use 1(4,5) in \<open>simp_all add: fr(2)\<close>)
        with False n Partial k t show ?thesis by (simp add: wp_def random_bytes.simps [of got f])
      qed
    next
      case Interrupted
      with f'(2) have eq: "f' = f\<lparr>fs_schedule := x\<rparr>" by simp
      have "wp (random_bytes got) Q R f'"
        by (rule 1(2) [OF False n [symmetric] refl Interrupted])
           (use 1(3-5) in \<open>simp_all add: eq\<close>)
      with False n Interrupted show ?thesis by (simp add: wp_def random_bytes.simps [of got f])
    qed (use False n fail in \<open>simp_all add: wp_def random_bytes.simps [of got f]\<close>)
  qed
qed

definition hex_char :: "char \<Rightarrow> bool" where
  "hex_char c = (isdigit c \<or> (97 \<le> ord c \<and> ord c \<le> 102))"

lemma hex_byte_shape: "length (hex_byte b) = 2" "list_all hex_char (hex_byte b)"
proof -
  have "unat b < 256" using unsigned_less [of b] by simp
  then have "unat b div 16 < 16" "unat b mod 16 < 16" by auto
  then have "hex_char (hex_digit (unat b div 16))" "hex_char (hex_digit (unat b mod 16))"
    by (auto simp: hex_char_def hex_digit_def isdigit_def of_char_of)
  then show "length (hex_byte b) = 2" "list_all hex_char (hex_byte b)" by (simp_all add: hex_byte_def)
qed

lemma hex_shape:
  "length (concat (map hex_byte bs)) = 2 * length bs" "list_all hex_char (concat (map hex_byte bs))"
  by (induction bs) (simp_all add: hex_byte_shape)

lemma wp_randomId:
  assumes "\<And>s x en. length s = 32 \<Longrightarrow> list_all hex_char s \<Longrightarrow> Q s (f\<lparr>fs_schedule := x, fs_entropy := en\<rparr>)"
    and "\<And>e x d en. R e (f\<lparr>fs_schedule := x, fs_dead := d, fs_entropy := en\<rparr>)"
  shows "wp randomId Q R f"
  unfolding randomId_def wp_rules
  by (rule wp_random_bytes) (simp_all add: wp_rules assms hex_shape)

section \<open>Atomicity\<close>

definition wf_fs :: "fs \<Rightarrow> bool" where
  "wf_fs f = (\<forall>n i. fs_names f n = Some i \<or> fs_disk f n = Some i \<longrightarrow> i < fs_fresh f)"

text \<open>
  What a write of a new text to a name may do, whatever happens during it: the name then has its old
  contents or the new text, also after a power loss; all other names but the temporary one keep
  theirs; and a successful write is visible and survives.
\<close>

definition write_spec :: "node \<Rightarrow> string \<Rightarrow> fs \<Rightarrow> bool \<Rightarrow> fs \<Rightarrow> bool" where
  "write_spec n text f ok f' =
     (wf_fs f' \<and>
      (node_content f' n = node_content f n \<or> node_content f' n = Some text) \<and>
      (\<forall>c. survives f' n c \<longrightarrow> survives f n c \<or> c = Some text) \<and>
      (ok \<longrightarrow> node_content f' n = Some text \<and> (\<forall>c. survives f' n c \<longleftrightarrow> c = Some text)))"

lemma locate_slash: "locate (d @ ''/'') = locate d"
  using split_on_append_any [of "CHR ''/''" d "[]"] by (simp add: locate_def locate_step_def)

lemma locate_join:
  assumes "CHR ''/'' \<notin> set nm" and "nm \<noteq> []" and "nm \<noteq> ''.''" and "nm \<noteq> ''..''"
  shows "locate (path_join d nm) = locate d @ [nm]"
proof -
  have step: "locate_step nm acc = acc @ [nm]" for acc using assms by (simp add: locate_step_def)
  have join: "locate (d' @ ''/'' @ nm) = locate d' @ [nm]" for d'
    using split_on_append_any [of "CHR ''/''" d' nm] assms(1) step by (simp add: locate_def)
  show ?thesis
  proof (cases "d = [] \<or> last d = CHR ''/''")
    case True
    show ?thesis
    proof (cases "d = []")
      case True
      with assms(1) step show ?thesis by (simp add: path_join_def locate_def locate_step_def)
    next
      case False
      then have d: "d = butlast d @ ''/''" using True by (metis append_butlast_last_id)
      then have "path_join d nm = butlast d @ ''/'' @ nm" by (metis True append.assoc path_join_def)
      moreover have "locate d = locate (butlast d)" using locate_slash [of "butlast d"] d by simp
      ultimately show ?thesis using join [of "butlast d"] by simp
    qed
  next
    case False
    then show ?thesis using join [of d] by (simp add: path_join_def)
  qed
qed

lemma hex_no_slash: "list_all hex_char s \<Longrightarrow> CHR ''/'' \<notin> set s"
  by (auto simp: list_all_iff hex_char_def isdigit_def)

text \<open>A name in a directory, as the code builds them.\<close>

definition plain :: "string \<Rightarrow> bool" where
  "plain p = (\<exists>d nm. p = path_join d nm \<and> CHR ''/'' \<notin> set nm \<and> nm \<noteq> [] \<and> nm \<noteq> ''.'' \<and> nm \<noteq> ''..'')"

lemma locate_strip: "locate (rev (dropWhile (\<lambda>c. c = CHR ''/'') (rev e))) = locate e"
  by (induction e rule: rev_induct) (simp_all add: locate_slash)

lemma locate_parent:
  assumes "plain p"
  shows "locate (parent_path p) = butlast (locate p)" and "locate p \<noteq> []"
proof -
  obtain d nm where p: "p = path_join d nm" and nm: "CHR ''/'' \<notin> set nm" "nm \<noteq> []" "nm \<noteq> ''.''" "nm \<noteq> ''..''"
    using assms by (auto simp: plain_def)
  have skip: "dropWhile (\<lambda>c. c \<noteq> CHR ''/'') (rev nm @ xs) = dropWhile (\<lambda>c. c \<noteq> CHR ''/'') xs" for xs
    using nm(1) by (intro dropWhile_append2) auto
  have empty: "locate [] = []" "locate ''/'' = []" by (simp_all add: locate_def locate_step_def)
  have up: "locate (parent_path (e @ ''/'' @ nm)) = locate e" for e
  proof -
    let ?q = "rev (dropWhile (\<lambda>c. c = CHR ''/'') (rev e))"
    have "parent_path (e @ ''/'' @ nm) = (if ?q = [] then ''/'' else ?q)"
      using skip [of "CHR ''/'' # rev e"] by (simp add: parent_path_def Let_def del: rev_is_Nil_conv)
    then show ?thesis using locate_strip [of e] empty by (cases "?q = []") (simp_all only: if_True if_False simp_thms)
  qed
  have "locate (parent_path p) = locate d"
  proof (cases "d = []")
    case True
    have "dropWhile (\<lambda>c. c \<noteq> CHR ''/'') (rev nm) = []" using nm(1) by auto
    with True show ?thesis by (simp only: p path_join_def parent_path_def simp_thms if_True append_Nil list.case empty)
  next
    case False
    show ?thesis
    proof (cases "last d = CHR ''/''")
      case True
      with False have "d = butlast d @ ''/''" by (metis append_butlast_last_id)
      with True False up [of "butlast d"] locate_slash [of "butlast d"] show ?thesis
        by (metis append.assoc p path_join_def)
    next
      case False
      with \<open>d \<noteq> []\<close> up [of d] show ?thesis by (simp add: p path_join_def)
    qed
  qed
  with locate_join [OF nm, of d] show "locate (parent_path p) = butlast (locate p)" "locate p \<noteq> []"
    by (simp_all add: p)
qed

lemma temporary_name:
  assumes "plain p" and "list_all hex_char rid" and "rid \<noteq> []"
  shows "locate (p @ ''.'' @ rid @ ''.tmp'') \<noteq> locate p"
    and "butlast (locate (p @ ''.'' @ rid @ ''.tmp'')) = butlast (locate p)"
    and "locate p \<noteq> []"
proof -
  obtain d nm where p: "p = path_join d nm" "CHR ''/'' \<notin> set nm" "nm \<noteq> []" "nm \<noteq> ''.''" "nm \<noteq> ''..''"
    using assms(1) by (auto simp: plain_def)
  let ?nm = "nm @ ''.'' @ rid @ ''.tmp''"
  have "CHR ''/'' \<notin> set ?nm" "?nm \<noteq> []" "?nm \<noteq> ''.''" "?nm \<noteq> ''..''"
    using p hex_no_slash [OF assms(2)] by (auto simp: append_eq_Cons_conv)
  note locate_join [OF this, of d]
  moreover have "p @ ''.'' @ rid @ ''.tmp'' = path_join d ?nm" by (simp add: p path_join_def)
  moreover note locate_join [OF p(2-5), of d]
  ultimately show "locate (p @ ''.'' @ rid @ ''.tmp'') \<noteq> locate p"
    "butlast (locate (p @ ''.'' @ rid @ ''.tmp'')) = butlast (locate p)" "locate p \<noteq> []"
    by (simp_all add: p(1))
qed

lemma wf_fs_simps [simp]:
  "wf_fs (f\<lparr>fs_schedule := x\<rparr>) = wf_fs f" "wf_fs (f\<lparr>fs_dead := d\<rparr>) = wf_fs f"
  "wf_fs (f\<lparr>fs_entropy := en\<rparr>) = wf_fs f" "wf_fs (f\<lparr>fs_dirs := ds\<rparr>) = wf_fs f"
  "wf_fs (f\<lparr>fs_data := dt\<rparr>) = wf_fs f" "wf_fs (f\<lparr>fs_synced := sy\<rparr>) = wf_fs f"
  by (simp_all add: wf_fs_def)

text \<open>Before the new file replaces the old one, nothing about the name has changed.\<close>

definition same_name :: "node \<Rightarrow> fs \<Rightarrow> fs \<Rightarrow> bool" where
  "same_name n f f' =
     (wf_fs f' \<and> fs_names f' n = fs_names f n \<and> fs_disk f' n = fs_disk f n \<and>
      (\<forall>i. fs_names f n = Some i \<or> fs_disk f n = Some i \<longrightarrow>
         fs_data f' i = fs_data f i \<and> fs_synced f' i = fs_synced f i))"

lemma same_name_spec: "same_name n f f' \<Longrightarrow> write_spec n text f False f'"
  by (cases "fs_names f n"; cases "fs_disk f n")
     (auto simp: same_name_def write_spec_def node_content_def survives_def survivor_def)

text \<open>After it, the name is the new file, whose contents are synchronised.\<close>

definition replaced_name :: "node \<Rightarrow> nat \<Rightarrow> string \<Rightarrow> fs \<Rightarrow> fs \<Rightarrow> bool" where
  "replaced_name n i text f f' =
     (wf_fs f' \<and> fs_names f' n = Some i \<and> fs_data f' i = text \<and> fs_synced f' i = Some text \<and>
      (fs_disk f' n = fs_disk f n \<or> fs_disk f' n = Some i) \<and>
      (\<forall>j. fs_disk f n = Some j \<longrightarrow> j \<noteq> i \<and> fs_synced f' j = fs_synced f j))"

lemma replaced_name_spec:
  assumes "replaced_name n i text f f'"
  shows "write_spec n text f False f'" and "fs_disk f' n = Some i \<Longrightarrow> write_spec n text f True f'"
  using assms
  by (cases "fs_disk f n"; auto simp: replaced_name_def write_spec_def node_content_def survives_def survivor_def
      split: option.splits)+

lemma wf_fs_rename: "wf_fs f \<Longrightarrow> wf_fs (f\<lparr>fs_names := (fs_names f)(n := fs_names f m, m := None)\<rparr>)"
  by (auto simp: wf_fs_def)

lemma wf_fs_sync: "wf_fs f \<Longrightarrow> wf_fs (f\<lparr>fs_disk := entries d (fs_names f) (fs_disk f)\<rparr>)"
  by (auto simp: wf_fs_def entries_def)

lemma wf_fs_unlink: "wf_fs f \<Longrightarrow> wf_fs (f\<lparr>fs_names := (fs_names f)(n := None)\<rparr>)"
  by (auto simp: wf_fs_def)

definition old_or_new :: "node \<Rightarrow> nat \<Rightarrow> string \<Rightarrow> fs \<Rightarrow> fs \<Rightarrow> bool" where
  "old_or_new n i text f f' = (same_name n f f' \<or> replaced_name n i text f f')"

lemma old_or_new_spec: "old_or_new n i text f f' \<Longrightarrow> write_spec n text f False f'"
  using same_name_spec replaced_name_spec(1) by (auto simp: old_or_new_def)

lemma same_name_frame [simp]:
  "same_name n f0 (f\<lparr>fs_schedule := x\<rparr>) = same_name n f0 f"
  "same_name n f0 (f\<lparr>fs_dead := d\<rparr>) = same_name n f0 f"
  "same_name n f0 (f\<lparr>fs_entropy := en\<rparr>) = same_name n f0 f"
  "same_name n f0 (f\<lparr>fs_dirs := ds\<rparr>) = same_name n f0 f"
  by (simp_all add: same_name_def)

lemma replaced_name_frame [simp]:
  "replaced_name n i text f0 (f\<lparr>fs_schedule := x\<rparr>) = replaced_name n i text f0 f"
  "replaced_name n i text f0 (f\<lparr>fs_dead := d\<rparr>) = replaced_name n i text f0 f"
  by (simp_all add: replaced_name_def)

lemma old_or_new_unlink:
  assumes "old_or_new n i text f0 f" and "tmp \<noteq> n"
  shows "old_or_new n i text f0 (f\<lparr>fs_names := (fs_names f)(tmp := None)\<rparr>)"
  using assms by (auto simp: old_or_new_def same_name_def replaced_name_def wf_fs_unlink)

lemma unlink_spec:
  assumes "old_or_new n i text f0 f" and "tmp \<noteq> n"
  shows "wp (unlink tmp) (\<lambda>_ f'. write_spec n text f0 False f') R f"
proof -
  have frame: "old_or_new n i text f0 (f\<lparr>fs_schedule := x, fs_dead := d\<rparr>)" for x d
    using assms(1) by (simp add: old_or_new_def)
  have gone: "old_or_new n i text f0 (f\<lparr>fs_schedule := x, fs_names := (fs_names f)(tmp := None)\<rparr>)" for x
    using old_or_new_unlink [where f = "f\<lparr>fs_schedule := x\<rparr>", OF _ assms(2)] assms(1)
    by (simp add: old_or_new_def)
  show ?thesis
    unfolding unlink_def wp_rules
    by (rule wp_call) (auto simp: wp_rules intro!: old_or_new_spec frame gone)
qed

lemma handler_spec:
  assumes "old_or_new n i text f0 f" and "tmp \<noteq> n"
  shows "wp (seq (unlink tmp) (throw e)) Q (\<lambda>_ f'. write_spec n text f0 False f') f"
  unfolding wp_seq wp_throw by (rule wp_mono [OF unlink_spec [OF assms]])

lemma replace_spec:
  assumes same: "same_name n f0 f" and tmp: "tmp \<noteq> n" "fs_names f tmp = Some i" and "fs_data f i = []"
    and new: "fs_names f0 n \<noteq> Some i" "fs_disk f0 n \<noteq> Some i" and dir: "n \<noteq> []"
  shows "wp (replace_file i text tmp n) (\<lambda>_ f'. write_spec n text f0 True f') (\<lambda>_ f'. write_spec n text f0 False f') f"
proof -
  note new = new [symmetric]
  have data: "same_name n f0 (f\<lparr>fs_data := (fs_data f)(i := s)\<rparr>)" for s
    using same new by (auto simp: same_name_def)
  have synced: "same_name n f0 (f\<lparr>fs_data := (fs_data f)(i := s), fs_synced := (fs_synced f)(i := c)\<rparr>)" for s c
    using same new by (auto simp: same_name_def)
  let ?r = "f\<lparr>fs_data := (fs_data f)(i := text), fs_synced := (fs_synced f)(i := Some text),
    fs_names := (fs_names f)(n := Some i, tmp := None)\<rparr>"
  have wf: "wf_fs f" "i < fs_fresh f" using same tmp(2) by (auto simp: same_name_def wf_fs_def)
  have replaced: "replaced_name n i text f0 ?r"
    using same new tmp wf by (auto simp: same_name_def replaced_name_def wf_fs_def)
  have final: "write_spec n text f0 True (?r\<lparr>fs_schedule := x,
      fs_disk := entries (butlast n) ((fs_names f)(n := Some i, tmp := None)) (fs_disk f)\<rparr>)" for x
  proof (rule replaced_name_spec(2))
    show "replaced_name n i text f0 (?r\<lparr>fs_schedule := x,
        fs_disk := entries (butlast n) ((fs_names f)(n := Some i, tmp := None)) (fs_disk f)\<rparr>)"
      using replaced wf_fs_sync [of "?r\<lparr>fs_schedule := x\<rparr>" "butlast n"] dir tmp(1)
      by (auto simp: replaced_name_def entries_def)
  qed (use dir tmp(1) in \<open>simp add: entries_def\<close>)
  show ?thesis
    unfolding replace_file_def fsync_def rename_def syncDirectory_def
    by (simp only: wp_rules | intro wp_call wp_write_all handler_spec [where i = i] tmp(1))+
       (simp_all add: assms(4) tmp old_or_new_def data synced replaced final)
qed

lemma atomicWrite_spec:
  assumes "wf_fs f" and "plain p"
  shows "wp (atomicWrite p text) (\<lambda>_ f'. write_spec (locate p) text f True f')
    (\<lambda>_ f'. write_spec (locate p) text f False f') f"
proof -
  let ?n = "locate p"
  have old: "same_name ?n f f" using assms(1) by (simp add: same_name_def)
  have name: "locate (p @ CHR ''.'' # s @ ''.tmp'') \<noteq> ?n" "?n \<noteq> []"
    if "list_all hex_char s" "length s = 32" for s
    using temporary_name [OF assms(2) that(1)] that(2) by fastforce+
  have fresh: "fs_names f q \<noteq> Some (fs_fresh f)" "fs_disk f q \<noteq> Some (fs_fresh f)" for q
    using assms(1) by (auto simp: wf_fs_def)
  have opened: "same_name ?n f (f\<lparr>fs_dirs := ds, fs_entropy := en, fs_schedule := x,
      fs_names := (fs_names f)(tmp := Some (fs_fresh f)),
      fs_data := (fs_data f)(fs_fresh f := []), fs_synced := (fs_synced f)(fs_fresh f := None),
      fs_fresh := Suc (fs_fresh f)\<rparr>)" if "tmp \<noteq> ?n" for tmp ds en x
    using that assms(1) by (auto simp: same_name_def wf_fs_def less_Suc_eq)
  show ?thesis
    unfolding atomicWrite_def create_directories_def open_new_def Let_def
    by (simp only: wp_rules case_prod_conv split: if_split
        | intro wp_call wp_randomId conjI impI replace_spec same_name_spec
        | simp add: old opened fresh name)+
qed

section \<open>A predicate of a file's contents\<close>

text \<open>Every text a program can read under a name, now or after a power loss, satisfies \<open>P\<close>.\<close>

definition holds :: "node \<Rightarrow> (string \<Rightarrow> bool) \<Rightarrow> fs \<Rightarrow> bool" where
  "holds n P f =
     (wf_fs f \<and> (\<forall>c. node_content f n = Some c \<longrightarrow> P c) \<and> (\<forall>c. survives f n (Some c) \<longrightarrow> P c))"

lemma holds_frame [simp]:
  "holds n P (f\<lparr>fs_schedule := x\<rparr>) = holds n P f" "holds n P (f\<lparr>fs_dead := d\<rparr>) = holds n P f"
  "holds n P (f\<lparr>fs_entropy := en\<rparr>) = holds n P f" "holds n P (f\<lparr>fs_dirs := ds\<rparr>) = holds n P f"
  "holds n P (f\<lparr>fs_clock := ck\<rparr>) = holds n P f"
  by (simp_all add: holds_def wf_fs_def node_content_def survives_def)

lemma keeps_simple_call:
  "keeps (holds n P) (simple_call what effect)" "keeps (holds n P) (filesystem_call effect)"
  if "\<And>f. holds n P f \<Longrightarrow> holds n P (effect f)"
  using that by (auto intro!: keepsI wp_call)

lemma atomicWrite_holds: "plain p \<Longrightarrow> P text \<Longrightarrow> keeps (holds (locate p) P) (atomicWrite p text)"
proof (rule keepsI)
  fix f assume "plain p" "P text" "holds (locate p) P f"
  then have "wf_fs f" by (simp add: holds_def)
  have after: "holds (locate p) P f'" if "write_spec (locate p) text f ok f'" for ok f'
    using that \<open>P text\<close> \<open>holds (locate p) P f\<close> by (auto simp: write_spec_def holds_def)
  show "wp (atomicWrite p text) (\<lambda>_. holds (locate p) P) (\<lambda>_. holds (locate p) P) f"
    by (rule wp_mono [OF atomicWrite_spec [OF \<open>wf_fs f\<close> \<open>plain p\<close>]]) (auto intro: after)
qed

lemma holds_removed:
  assumes "holds n P f"
  shows "holds n P (f\<lparr>fs_names := (\<lambda>q. if B q then None else fs_names f q)\<rparr>)"
  using assms by (auto simp: holds_def wf_fs_def node_content_def survives_def) (simp_all add: survivor_def)

lemma holds_sync: "holds n P f \<Longrightarrow> holds n P (f\<lparr>fs_disk := entries d (fs_names f) (fs_disk f)\<rparr>)"
  using wf_fs_sync [of f d]
  by (auto simp: holds_def node_content_def survives_def entries_def split: if_splits)

lemma keeps_next_outcome: "keeps (holds n P) next_outcome"
  by (rule keepsI) (auto intro!: wp_next_outcome)

lemma keeps_syncDirectory: "keeps (holds n P) (syncDirectory d)"
  unfolding syncDirectory_def by (intro keeps_rules keeps_simple_call holds_sync)

lemma durableRemove_holds: "keeps (holds n P) (durableRemove p)"
proof -
  have "keeps (holds n P) (remove_all q)" for q
    unfolding remove_all_def
    by (rule keeps_bind [OF keeps_next_outcome])
       (auto simp: keeps_def modify_def throw_def seq_def bind_def holds_removed split: outcome.split)
  then show ?thesis
    unfolding durableRemove_def node_exists_def by (intro keeps_rules keeps_syncDirectory)
qed

lemma wp_read_blocks:
  assumes "\<And>x. length (got @ rest) \<le> limit \<Longrightarrow> Q (got @ rest) (f\<lparr>fs_schedule := x\<rparr>)"
    and "\<And>e x d. R e (f\<lparr>fs_schedule := x, fs_dead := d\<rparr>)"
  shows "wp (read_blocks limit p got rest) Q R f"
  using assms
proof (induction "length rest" arbitrary: got rest f rule: less_induct)
  case less
  have step: "wp (read_blocks limit p got rest) Q R f = wp next_outcome (\<lambda>out f'. case out of
        Failed err \<Rightarrow> R (if limit < length got then Error invalid_argument ''file too large''
                else Error unavailable (''cannot finish reading '' @ p)) f'
      | PowerLoss \<Rightarrow> R (Error unavailable (''cannot finish reading '' @ p)) f'
      | _ \<Rightarrow> (let got' = got @ take 4096 rest
           in if limit < length got' then R (Error invalid_argument ''file too large'') f'
              else if length rest < 4096 then Q got' f'
              else wp (read_blocks limit p got' (drop 4096 rest)) Q R f')) R f"
    by (simp add: wp_def read_blocks.simps [of limit p got rest f] Let_def
        split: prod.split sum.split outcome.split)
  have fail: "R e (f\<lparr>fs_schedule := x\<rparr>)" for e x
    using less(3) [where d = "fs_dead f" and x = x] by (cases f) simp
  have long: "wp (read_blocks limit p (got @ take 4096 rest) (drop 4096 rest)) Q R (f\<lparr>fs_schedule := x\<rparr>)"
    if "\<not> length rest < 4096" for x
    using that less(2,3) by (intro less(1)) (simp_all add: fail)
  show ?case
    unfolding step
    by (rule wp_next_outcome)
       (auto simp: Let_def fail long less(2) [simplified] less(3) not_less split: outcome.split)
qed

text \<open>What is read is what the name holds, and never more than the limit.\<close>

lemma wp_readFile:
  assumes "\<And>c x. content f p = Some c \<Longrightarrow> length c \<le> limit \<Longrightarrow> Q c (f\<lparr>fs_schedule := x\<rparr>)"
    and "\<And>e x d. R e (f\<lparr>fs_schedule := x, fs_dead := d\<rparr>)"
  shows "wp (readFile limit p) Q R f"
proof -
  have "R e f" for e
    using assms(2) [where d = "fs_dead f" and x = "fs_schedule f"] by (cases f) simp
  with assms show ?thesis
    unfolding readFile_def by (auto simp: wp_rules split: option.split intro!: wp_read_blocks)
qed

lemma readFile_holds: "keeps (holds n P) (readFile limit p)"
  by (rule keepsI) (auto intro!: wp_readFile)

lemma fileHash_holds: "keeps (holds n P) (fileHash sha256 limit p)"
proof -
  have "keeps (holds n P) (case c of None \<Rightarrow> throw e | Some d \<Rightarrow> ret (g d))" for c e g
    by (cases c) (auto intro: keeps_rules)
  then show ?thesis
    unfolding fileHash_def node_exists_def by (intro keeps_rules readFile_holds)
qed

lemma randomId_holds: "keeps (holds n P) randomId"
  by (rule keepsI) (auto intro!: wp_randomId)

lemma bootMilliseconds_holds: "keeps (holds n P) bootMilliseconds"
proof -
  have "keeps (holds n P) (\<lambda>f. case fs_clock f of [] \<Rightarrow> (Inr (0, 0), f)
      | t # rest \<Rightarrow> (Inr t, f\<lparr>fs_clock := rest\<rparr>))"
    by (auto simp: keeps_def split: list.split)
  moreover have "keeps (holds n P) (case t of (sec, nsec) \<Rightarrow> ret (g sec nsec))" for t g
    by (cases t) (auto intro: keeps_rules)
  ultimately show ?thesis
    unfolding bootMilliseconds_def clock_gettime_def
    by (intro keeps_rules keeps_simple_call)
qed

section \<open>Writes succeed when nothing fails\<close>

definition calm :: "fs \<Rightarrow> bool" where
  "calm f = (\<not> fs_dead f \<and> fs_schedule f = [])"

lemma calm_updates [simp]:
  "calm (f\<lparr>fs_names := a\<rparr>) = calm f" "calm (f\<lparr>fs_disk := b\<rparr>) = calm f" "calm (f\<lparr>fs_data := c\<rparr>) = calm f"
  "calm (f\<lparr>fs_synced := d\<rparr>) = calm f" "calm (f\<lparr>fs_fresh := e\<rparr>) = calm f" "calm (f\<lparr>fs_dirs := g\<rparr>) = calm f"
  "calm (f\<lparr>fs_entropy := h\<rparr>) = calm f" "calm (f\<lparr>fs_clock := k\<rparr>) = calm f"
  by (simp_all add: calm_def)

lemma next_outcome_calm: "calm f \<Longrightarrow> next_outcome f = (Inr Done, f)"
  by (simp add: calm_def next_outcome_def)

lemma wp_calm_call:
  assumes "calm f" and "Q () (effect f)"
  shows "wp (simple_call what effect) Q R f" and "wp (filesystem_call effect) Q R f"
  using assms next_outcome_calm [OF assms(1)]
  by (simp_all add: wp_def simple_call_def filesystem_call_def bind_def modify_def)

lemma wp_calm_write_all:
  assumes "calm f" and "Q () (append_data i rest f)"
  shows "wp (write_all i rest) Q R f"
proof (cases "rest = []")
  case True
  then have "append_data i rest f = f" by (cases f) (simp add: append_data_def)
  with True assms(2) show ?thesis by (simp add: wp_def write_all.simps)
next
  case False
  with assms next_outcome_calm [OF assms(1)] show ?thesis
    by (simp add: wp_def write_all.simps [of i rest f] write_all.simps [of i "[]"])
qed

lemma wp_calm_randomId:
  assumes "calm f" and "\<And>s en. length s = 32 \<Longrightarrow> list_all hex_char s \<Longrightarrow> Q s (f\<lparr>fs_entropy := en\<rparr>)"
  shows "wp randomId Q R f"
proof -
  obtain bs f' where t: "take_entropy 16 f = (bs, f')" by fastforce
  from take_entropy_frame [OF this] obtain en where "length bs = 16" "f' = f\<lparr>fs_entropy := en\<rparr>" by auto
  with t assms next_outcome_calm [OF assms(1)] hex_shape [of bs] show ?thesis
    by (simp add: wp_def randomId_def bind_def ret_def random_bytes.simps [of "[]" f])
qed

lemma wp_calm_atomicWrite:
  assumes "calm f" and "\<And>rid. fs_names f (locate (p @ ''.'' @ rid @ ''.tmp'')) = None"
    and "\<And>f'. calm f' \<Longrightarrow> Q () f'"
  shows "wp (atomicWrite p text) Q R f"
  unfolding atomicWrite_def create_directories_def open_new_def Let_def replace_file_def fsync_def
    rename_def syncDirectory_def
  by (simp only: wp_rules case_prod_conv
      | intro wp_calm_call wp_calm_randomId wp_calm_write_all assms(3)
      | simp add: assms(1) assms(2) [simplified] append_data_def)+

lemma wp_calm_read_blocks:
  assumes "calm f" and "length (got @ rest) \<le> limit" and "Q (got @ rest) f"
  shows "wp (read_blocks limit p got rest) Q R f"
  using assms(2,3)
proof (induction "length rest" arbitrary: got rest rule: less_induct)
  case less
  have "wp (read_blocks limit p (got @ take 4096 rest) (drop 4096 rest)) Q R f" if "4096 \<le> length rest"
    using that less(2,3) by (intro less(1)) simp_all
  with less(2,3) next_outcome_calm [OF assms(1)] show ?case
    by (auto simp: wp_def read_blocks.simps [of limit p got rest f] Let_def)
qed

section \<open>Properties\<close>

text \<open>An empty file system, for examples.\<close>

definition empty_fs :: fs where
  "empty_fs =
     \<lparr>fs_names = (\<lambda>_. None), fs_disk = (\<lambda>_. None), fs_data = (\<lambda>_. []), fs_synced = (\<lambda>_. None),
      fs_fresh = 0, fs_dirs = (\<lambda>_. False), fs_stat = (\<lambda>_. None), fs_dead = False, fs_schedule = [],
      fs_entropy = [], fs_clock = []\<rparr>"

lemma empty_fs_good: "wf_fs empty_fs" "calm empty_fs" "fs_names empty_fs n = None" "content empty_fs q = None"
  by (simp_all add: empty_fs_def wf_fs_def calm_def node_content_def)

lemma plain_example: "plain ''/data/state.json''"
  unfolding plain_def by (rule exI [of _ "''/data''"], rule exI [of _ "''state.json''"]) (simp add: path_join_def)



text \<open>
  A write during which no system call fails, with no temporary file of an earlier run in the
  way, returns, and the text can be read back.
\<close>

theorem atomicWrite_returns:
  assumes "calm f" and "wf_fs f" and "plain p" and "length text \<le> limit"
    and "\<And>rid. fs_names f (locate (p @ ''.'' @ rid @ ''.tmp'')) = None"
  shows "\<exists>f'. atomicWrite p text f = (Inr (), f') \<and> readFile limit p f' = (Inr text, f')"
proof -
  have "wp (atomicWrite p text) (\<lambda>_. calm) (\<lambda>_ _. False) f"
    by (rule wp_calm_atomicWrite [OF assms(1,5)]) simp_all
  moreover have "wp (atomicWrite p text) (\<lambda>_ f'. write_spec (locate p) text f True f')
      (\<lambda>_ f'. write_spec (locate p) text f False f') f"
    by (rule atomicWrite_spec [OF assms(2,3)])
  ultimately obtain f' where f': "atomicWrite p text f = (Inr (), f')" "calm f'" "content f' p = Some text"
    by (auto simp: wp_def write_spec_def split: prod.splits sum.splits)
  have "wp (read_blocks limit p [] text) (\<lambda>c g. c = text \<and> g = f') (\<lambda>_ _. False) f'"
    using f'(2) assms(4) by (intro wp_calm_read_blocks) simp_all
  with f' show ?thesis
    by (auto simp: readFile_def bind_def gets_def wp_def split: prod.splits sum.splits)
qed

theorem atomicWrite_returns_witness:
  "\<exists>f'. atomicWrite ''/data/state.json'' ''new'' empty_fs = (Inr (), f') \<and>
     readFile 100 ''/data/state.json'' f' = (Inr ''new'', f')"
  by (rule atomicWrite_returns) (simp_all add: empty_fs_good plain_example)

text \<open>
  What a read returns is exactly what the name holds, and never longer than the limit; a longer
  file is refused, whatever its size.
\<close>

theorem readFile_exact:
  assumes "readFile limit p f = (Inr c, f')"
  shows "content f p = Some c \<and> length c \<le> limit"
proof -
  have "wp (readFile limit p) (\<lambda>c _. content f p = Some c \<and> length c \<le> limit) (\<lambda>_ _. True) f"
    by (rule wp_readFile) simp_all
  from wp_Inr [OF this assms] show ?thesis .
qed

theorem readFile_exact_witness:
  "let f = empty_fs\<lparr>fs_names := (\<lambda>n. if n = locate ''/a'' then Some 0 else None), fs_data := (\<lambda>_. ''x'')\<rparr>
   in content f ''/a'' = Some ''x'' \<and> length ''x'' \<le> 100"
proof -
  let ?f = "empty_fs\<lparr>fs_names := (\<lambda>n. if n = locate ''/a'' then Some 0 else None), fs_data := (\<lambda>_. ''x'')\<rparr>"
  have "readFile 100 ''/a'' ?f = (Inr ''x'', ?f)"
    by (simp add: readFile_def bind_def gets_def node_content_def read_blocks.simps next_outcome_def
        empty_fs_def)
  from readFile_exact [OF this] show ?thesis by (simp add: Let_def)
qed

lemma durableRemove_sets:
  assumes "durableRemove p f = (r, f')"
  shows "(\<forall>n. \<not> prefix (locate p) n \<longrightarrow> node_content f' n = node_content f n) \<and>
    (r = Inr () \<longrightarrow> (\<forall>n. prefix (locate p) n \<longrightarrow> node_content f' n = None) \<and>
       (plain p \<and> fs_dirs f (butlast (locate p)) \<longrightarrow> (\<forall>c. survives f' (locate p) c \<longleftrightarrow> c = None)))"
proof -
  have up: "\<not> prefix n (butlast n)" if "n \<noteq> []" for n :: node
    using that by (metis append_butlast_last_id prefix_length_le length_append_singleton not_less_eq_eq order_refl)
  note parent = locate_parent [of p]
  have "wp (durableRemove p)
      (\<lambda>_ f'. (\<forall>n. \<not> prefix (locate p) n \<longrightarrow> node_content f' n = node_content f n) \<and>
         (\<forall>n. prefix (locate p) n \<longrightarrow> node_content f' n = None) \<and>
         (plain p \<and> fs_dirs f (butlast (locate p)) \<longrightarrow> (\<forall>c. survives f' (locate p) c \<longleftrightarrow> c = None)))
      (\<lambda>_ f'. \<forall>n. \<not> prefix (locate p) n \<longrightarrow> node_content f' n = node_content f n) f"
    unfolding durableRemove_def remove_all_def node_exists_def syncDirectory_def
    by (simp only: wp_rules
        | intro wp_next_outcome wp_call
        | auto simp: wp_rules node_content_def up parent survives_def survivor_def entries_def split: outcome.split
            intro!: wp_call)+
  with assms show ?thesis by (auto simp: wp_run split: sum.splits)
qed

text \<open>
  Removing a path never touches a name outside it; when it returns, nothing below it is left,
  and for a path to a name in an existing directory the removal itself survives a power loss.
\<close>

theorem durableRemove_exact:
  assumes "durableRemove p f = (r, f')"
  shows "(\<forall>n. \<not> prefix (locate p) n \<longrightarrow> node_content f' n = node_content f n) \<and>
    (r = Inr () \<longrightarrow> (\<forall>n. prefix (locate p) n \<longrightarrow> node_content f' n = None) \<and>
       (plain p \<and> fs_dirs f (butlast (locate p)) \<longrightarrow> (\<forall>c. survives f' (locate p) c \<longleftrightarrow> c = None)))"
  using durableRemove_sets [OF assms] .

theorem durableRemove_exact_witness:
  "content (snd (durableRemove ''/data'' empty_fs)) ''/etc/passwd'' = content empty_fs ''/etc/passwd''"
  using durableRemove_exact [of "''/data''" empty_fs "fst (durableRemove ''/data'' empty_fs)"
      "snd (durableRemove ''/data'' empty_fs)"]
  by (simp add: locate_def locate_step_def)

end
