(* ===== verification/Device.thy ===== *)
theory Device
  imports Backend_Invariant Storage Journal_Codec
begin

text \<open>
  The daemon on its file system: the backend's storage calls are the primitives of storage.cpp, its
  clock is \<open>bootMilliseconds\<close>, and the platform is any implementation of the interface. The journal
  then survives every failure and power loss with the invariant intact.
\<close>

section \<open>The surroundings of the daemon\<close>

record 'p world =
  wd_fs :: fs
  wd_platform :: 'p

definition on_fs :: "(fs, 'a) io \<Rightarrow> ('p world, 'a) io" where
  "on_fs m = (\<lambda>w. case m (wd_fs w) of (r, f) \<Rightarrow> (r, w\<lparr>wd_fs := f\<rparr>))"

definition on_platform :: "('p, 'a) io \<Rightarrow> ('p world, 'a) io" where
  "on_platform m = (\<lambda>w. case m (wd_platform w) of (r, p) \<Rightarrow> (r, w\<lparr>wd_platform := p\<rparr>))"

text \<open>The default limit of \<open>readFile\<close>, and the start of the constructor of \<open>Backend\<close>.\<close>

definition read_limit :: nat where
  "read_limit = 1048576"

definition createStateDirectory :: "string \<Rightarrow> (fs, unit) io" where
  "createStateDirectory d = seq (create_directories (locate d)) (filesystem_call (\<lambda>f. f))"

definition native_env :: "(state \<Rightarrow> string result) \<Rightarrow> (string \<Rightarrow> state result) \<Rightarrow>
    (string \<Rightarrow> (bool \<times> bool) option) \<Rightarrow> (string \<Rightarrow> 8 word list option) \<Rightarrow> 'p env \<Rightarrow> 'p world env" where
  "native_env enc dec readStatus sha256 P =
     \<lparr>en_discover = on_platform (en_discover P),
      en_status = on_platform (en_status P),
      en_time = on_platform (en_time P),
      en_networkLinks = on_platform (en_networkLinks P),
      en_timezones = on_platform (en_timezones P),
      en_timezoneCatalog = on_platform (en_timezoneCatalog P),
      en_temperatures = on_platform (en_temperatures P),
      en_validateConfiguration = (\<lambda>c. on_platform (en_validateConfiguration P c)),
      en_preferences = (\<lambda>c. on_platform (en_preferences P c)),
      en_bootHostname = (\<lambda>h. on_platform (en_bootHostname P h)),
      en_network = (\<lambda>n boot. on_platform (en_network P n boot)),
      en_sshBootPolicy = (\<lambda>b. on_platform (en_sshBootPolicy P b)),
      en_clockBootPolicy = (\<lambda>t. on_platform (en_clockBootPolicy P t)),
      en_power = (\<lambda>a. on_platform (en_power P a)),
      en_clock = on_fs bootMilliseconds,
      en_createStateDirectory = (\<lambda>d. on_fs (createStateDirectory d)),
      en_exists = (\<lambda>p. on_fs (node_exists (locate p))),
      en_readFile = (\<lambda>p. on_fs (readFile read_limit p)),
      en_atomicWrite = (\<lambda>p js. on_fs (atomicWrite p js)),
      en_durableRemove = (\<lambda>p. on_fs (durableRemove p)),
      en_fileHash = (\<lambda>p. on_fs (fileHash sha256 read_limit p)),
      en_randomId = on_fs randomId,
      en_sink = (\<lambda>fs w. case en_sink P fs (wd_platform w) of (ok, p) \<Rightarrow> (ok, w\<lparr>wd_platform := p\<rparr>)),
      en_encodeState = enc, en_decodeState = dec, en_readStorageStatus = readStatus\<rparr>"

section \<open>The journal on the file system\<close>

definition journal_node :: "profile \<Rightarrow> node" where
  "journal_node p = locate (journal_path p)"

definition journal_text :: "(string \<Rightarrow> state result) \<Rightarrow> string \<Rightarrow> bool" where
  "journal_text dec js = (\<forall>s. dec js = Inr s \<longrightarrow> journal_inv s)"

definition journal_safe :: "(string \<Rightarrow> state result) \<Rightarrow> profile \<Rightarrow> 'p world \<Rightarrow> bool" where
  "journal_safe dec p w = holds (journal_node p) (journal_text dec) (wd_fs w)"

lemma keeps_on_platform: "keeps (journal_safe dec p) (on_platform m)"
  by (auto simp: keeps_def on_platform_def journal_safe_def split: prod.split)

lemma keeps_on_fs: "keeps (holds (journal_node p) (journal_text dec)) m \<Longrightarrow>
    keeps (journal_safe dec p) (on_fs m)"
  by (auto simp: keeps_def on_fs_def journal_safe_def split: prod.split)

lemma plain_journal: "plain (journal_path p)"
  unfolding plain_def journal_path_def by (intro exI conjI, rule refl) simp_all

lemma keeps_create: "keeps (holds n P) (createStateDirectory d)"
  unfolding createStateDirectory_def create_directories_def by (intro keeps_rules keeps_simple_call) simp_all

lemma keeps_exists: "keeps (holds n P) (node_exists q)"
  unfolding node_exists_def by (intro keeps_rules)

locale native = journal_codec encodeState decodeState
  for encodeState :: "state \<Rightarrow> string result" and decodeState :: "string \<Rightarrow> state result" +
  fixes readStatus :: "string \<Rightarrow> (bool \<times> bool) option" and sha256 :: "string \<Rightarrow> 8 word list option"
    and P :: "'p env" and profile :: profile
begin

lemma journal_text_encoded:
  "encodeState s = Inr js \<Longrightarrow> journal_inv s \<Longrightarrow> journal_text decodeState js"
  by (auto simp: journal_text_def dest: faithful)

lemma read_journal:
  assumes "journal_safe decodeState profile w"
    and "on_fs (readFile read_limit (journal_path profile)) w = (Inr js, w')"
    and "decodeState js = Inr s"
  shows "journal_inv s"
proof -
  have "wp (readFile read_limit (journal_path profile))
      (\<lambda>c _. content (wd_fs w) (journal_path profile) = Some c) (\<lambda>_ _. True) (wd_fs w)"
    by (rule wp_readFile) simp_all
  with assms show ?thesis
    by (auto simp: on_fs_def journal_safe_def holds_def journal_node_def journal_text_def wp_def
        split: prod.splits sum.splits)
qed

sublocale stable_storage "native_env encodeState decodeState readStatus sha256 P" profile
  "journal_safe decodeState profile"
proof (unfold_locales, goal_cases)
  case (11 w fs)
  then show ?case by (auto simp: native_env_def journal_safe_def split: prod.split)
next
  case (19 s js)
  then show ?case
    unfolding native_env_def
    by (simp add: journal_text_encoded plain_journal journal_node_def atomicWrite_holds keeps_on_fs)
next
  case (20 w js w' s)
  then show ?case using read_journal by (simp add: native_env_def)
qed (simp_all add: native_env_def keeps_on_platform keeps_on_fs bootMilliseconds_holds readFile_holds
    fileHash_holds randomId_holds keeps_exists keeps_create durableRemove_holds)

end

interpretation plain_native: native plain_encode plain_decode readStatus sha256 P profile
  for readStatus :: "string \<Rightarrow> (bool \<times> bool) option" and sha256 :: "string \<Rightarrow> 8 word list option"
    and P :: "'p env" and profile :: profile
  by unfold_locales

end
