(* ===== verification/Scenario.thy ===== *)
theory Scenario
  imports Device
begin

text \<open>
  A small concrete device, on which examples of the properties compute: a platform whose calls all
  succeed, an empty file system, and a product profile with one interface.
\<close>

definition quiet_platform :: "unit env" where
  "quiet_platform =
     \<lparr>en_discover = ret default_configuration,
      en_status = throw (Error unsupported ''status''),
      en_time = throw (Error unsupported ''time''),
      en_networkLinks = ret [], en_timezones = ret [],
      en_timezoneCatalog = throw (Error unsupported ''zones''),
      en_temperatures = ret [],
      en_validateConfiguration = (\<lambda>_. ret ()), en_preferences = (\<lambda>_. ret ()),
      en_bootHostname = (\<lambda>_. ret ()), en_network = (\<lambda>_ _. ret ()),
      en_sshBootPolicy = (\<lambda>_. ret ()), en_clockBootPolicy = (\<lambda>_. ret ()),
      en_power = (\<lambda>_. ret ()),
      en_clock = ret 0, en_createStateDirectory = (\<lambda>_. ret ()), en_exists = (\<lambda>_. ret False),
      en_readFile = (\<lambda>_. ret []), en_atomicWrite = (\<lambda>_ _. ret ()), en_durableRemove = (\<lambda>_. ret ()),
      en_fileHash = (\<lambda>_. ret []), en_randomId = ret [],
      en_sink = (\<lambda>_ w. (True, w)),
      en_encodeState = plain_encode, en_decodeState = plain_decode,
      en_readStorageStatus = (\<lambda>_. Some (True, True))\<rparr>"

definition example_profile :: profile where
  "example_profile = default_profile
     \<lparr>pf_settings_user := ''settings'', pf_control_user := ''control'',
      pf_state_directory := ''/data/state'', pf_active_settings := ''/data/active.json'',
      pf_interfaces := [\<lparr>ip_name = ''eth0'', ip_device_tree_node = []\<rparr>]\<rparr>"

definition example_world :: "unit world" where
  "example_world = \<lparr>wd_fs = empty_fs, wd_platform = ()\<rparr>"

text \<open>Any total function of 32 bytes can stand for the hash in an example.\<close>

definition example_sha :: "string \<Rightarrow> 8 word list option" where
  "example_sha s = Some (replicate 32 (of_nat (length s)))"

definition example_env :: "unit world env" where
  "example_env = native_env plain_encode plain_decode (\<lambda>_. Some (True, True)) example_sha quiet_platform"

lemma wf_example: "wf_profile example_profile"
proof -
  have "validate default_configuration = Inr ()" by code_simp
  then have "wf_configuration default_configuration" by (simp add: validate_Inr)
  then show ?thesis by (simp add: wf_profile_def example_profile_def default_profile_def)
qed

text \<open>In calm surroundings the storage calls of the device return.\<close>

lemma on_fs_wp:
  assumes "wp m (\<lambda>x f. Q x (w\<lparr>wd_fs := f\<rparr>)) (\<lambda>e f. R e (w\<lparr>wd_fs := f\<rparr>)) (wd_fs w)"
  shows "wp (on_fs m) Q R w"
  using assms by (auto simp: wp_def on_fs_def split: prod.splits sum.splits)

lemma on_platform_wp:
  assumes "wp m (\<lambda>x p. Q x (w\<lparr>wd_platform := p\<rparr>)) (\<lambda>e p. R e (w\<lparr>wd_platform := p\<rparr>)) (wd_platform w)"
  shows "wp (on_platform m) Q R w"
  using assms by (auto simp: wp_def on_platform_def split: prod.splits sum.splits)

lemma ext_wp:
  assumes "wp m (\<lambda>x w. Q x (b\<lparr>bk_world := w\<rparr>)) (\<lambda>e w. R e (b\<lparr>bk_world := w\<rparr>)) (bk_world b)"
  shows "wp (ext m) Q R b"
  using assms by (auto simp: wp_def ext_def split: prod.splits sum.splits)

lemma example_paths:
  "locate (journal_path example_profile) = [''data'', ''state'', ''state.json'']"
  "locate (pf_state_directory example_profile) = [''data'', ''state'']"
  "pf_defaults example_profile = default_configuration"
  by (code_simp, code_simp, simp add: example_profile_def default_profile_def)

text \<open>A device with an empty file system and a platform that finds a valid configuration comes up.\<close>

lemma fresh_constructs:
  fixes E :: "'p world env"
  assumes "en_createStateDirectory E = (\<lambda>d. on_fs (createStateDirectory d))"
    and "en_exists E = (\<lambda>p. on_fs (node_exists (locate p)))" and "wd_fs w = empty_fs"
    and "pf_defaults p = default_configuration"
  shows "wp (make_backend E p)
     (\<lambda>b _. calm (wd_fs (bk_world b)) \<and> fs_names (wd_fs (bk_world b)) = (\<lambda>_. None) \<and>
        \<not> bk_storage_failed b \<and> bk_profile b = p \<and> bk_state b = default_state)
     (\<lambda>_ _. False) w"
proof -
  have fill: "fill_ptp p (default_state\<lparr>st_configuration := default_configuration\<rparr>) = default_state"
    using assms(4) by (simp add: fill_ptp_def default_defs)
  have "\<not> prefix (locate (journal_path p)) (locate (pf_state_directory p))"
    by (auto simp: journal_path_def locate_join dest: prefix_length_le)
  then show ?thesis
    unfolding make_backend_def load_state_def wp_rules assms(1,2) createStateDirectory_def create_directories_def node_exists_def
    apply (intro on_fs_wp)
    apply (simp only: wp_rules)
    apply (rule wp_calm_call, simp add: assms(3) empty_fs_good)
    apply (rule wp_calm_call, simp add: assms(3) empty_fs_good)
    apply (rule on_fs_wp)
    apply (simp add: wp_rules assms(3,4))
    apply (simp add: empty_fs_def wp_rules wp_def fill calm_def ret_def)
    done
qed

lemma fresh_starts:
  fixes E :: "'p world env"
  assumes "en_encodeState E = plain_encode" and "en_atomicWrite E = (\<lambda>p js. on_fs (atomicWrite p js))"
    and "wp (en_discover E) (\<lambda>c w. wf_configuration c \<and> wd_fs w = wd_fs (bk_world b)) (\<lambda>_ _. False) (bk_world b)"
    and "calm (wd_fs (bk_world b))" "fs_names (wd_fs (bk_world b)) = (\<lambda>_. None)"
    "\<not> bk_storage_failed b" "bk_state b = default_state"
  shows "wp (start E) (\<lambda>_ _. True) (\<lambda>_ _. False) b"
proof -
  have persist: "wp (persist E) Q R b'"
    if "calm (wd_fs (bk_world b'))" "fs_names (wd_fs (bk_world b')) = (\<lambda>_. None)" "\<not> bk_storage_failed b'"
      "\<And>w. Q () (b'\<lparr>bk_world := w\<rparr>)" for Q R and b' :: "'p world backend"
    using that unfolding persist_def assms(1,2)
    by (simp add: wp_rules wp_of_result plain_encode_def)
       (rule ext_wp on_fs_wp wp_calm_atomicWrite | simp)+
  have quiet: "\<not> st_initialized default_state" "\<not> st_reset_intent default_state" "\<not> is_pending default_state"
    "jb_state (st_job default_state) \<noteq> ''accepted''"
    by (simp_all add: default_defs is_pending_def)
  have rest: "wp (seq (recoverNetwork E False) (start_job E)) (\<lambda>_ _. True) (\<lambda>_ _. False) b'"
    if "\<not> is_pending (bk_state b')" "jb_state (st_job (bk_state b')) \<noteq> ''accepted''" for b'
    using that unfolding recoverNetwork_def start_job_def by (simp add: wp_rules)
  show ?thesis
    unfolding start_def wp_bind wp_gets assms(7) wp_if wp_seq [of "cond _ _"] wp_cond
    using quiet assms(4-6)
    by (simp add: wp_rules, intro ext_wp wp_mono [OF assms(3)])
       (auto simp: wp_rules assms(7) is_pending_def default_defs intro!: persist rest)
qed

lemma fresh_lifecycle:
  fixes E :: "'p world env"
  assumes "en_createStateDirectory E = (\<lambda>d. on_fs (createStateDirectory d))"
    and "en_exists E = (\<lambda>p. on_fs (node_exists (locate p)))" and "en_encodeState E = plain_encode"
    and "en_atomicWrite E = (\<lambda>p js. on_fs (atomicWrite p js))"
    and "\<And>v. wp (en_discover E) (\<lambda>c v'. wf_configuration c \<and> wd_fs v' = wd_fs v) (\<lambda>_ _. False) v"
    and "pf_defaults p = default_configuration" and "wd_fs w = empty_fs" and "G w"
  shows "\<exists>b. lifecycle E p G (Up b)"
proof -
  obtain b w' where b: "make_backend E p w = (Inr b, w')"
    and "calm (wd_fs (bk_world b))" "fs_names (wd_fs (bk_world b)) = (\<lambda>_. None)"
    "\<not> bk_storage_failed b" "bk_state b = default_state"
    using fresh_constructs [OF assms(1,2,7,6)] by (auto simp: wp_def split: prod.splits sum.splits)
  from fresh_starts [OF assms(3-5) this(2-5)] obtain b' where b': "start E b = (Inr (), b')"
    by (auto simp: wp_def split: prod.splits sum.splits)
  have "lifecycle E p G (Down w)" using assms(8) by (rule lifecycle.off)
  then have "lifecycle E p G (Up b')" using b b' by (rule lifecycle.started)
  then show ?thesis by (rule exI)
qed

lemma empty_safe: "wd_fs w = empty_fs \<Longrightarrow> journal_safe dec p w"
  by (simp add: journal_safe_def holds_def empty_fs_good survives_def survivor_def)
     (simp add: empty_fs_def node_content_def)

lemma example_lifecycle:
  "\<exists>b. lifecycle example_env example_profile (journal_safe plain_decode example_profile) (Up b)"
proof (rule fresh_lifecycle)
  have "wf_configuration default_configuration" using wf_example by (simp add: wf_profile_def example_paths)
  then show "wp (en_discover example_env) (\<lambda>c v'. wf_configuration c \<and> wd_fs v' = wd_fs v) (\<lambda>_ _. False) v" for v
    by (simp add: example_env_def native_env_def quiet_platform_def on_platform_def ret_def wp_def)
  show "journal_safe plain_decode example_profile example_world" by (rule empty_safe) (simp add: example_world_def)
qed (simp_all add: example_env_def native_env_def example_paths example_world_def quiet_platform_def)

section \<open>The invariant of the device\<close>

context native
begin

lemma device_inv:
  "wf_profile profile \<Longrightarrow>
   lifecycle (native_env encodeState decodeState readStatus sha256 P) profile
     (journal_safe decodeState profile) (Up b) \<Longrightarrow>
   state_inv (bk_state b) \<and> journal_safe decodeState profile (bk_world b)"
  using lifecycle_inv [of "Up b"] by (simp add: inv_def)

end

text \<open>A power cycle: each file then holds one of the contents that can survive.\<close>

definition power_cycle :: "fs \<Rightarrow> fs \<Rightarrow> bool" where
  "power_cycle f f' =
     (wf_fs f' \<and> (\<forall>n. survives f n (node_content f' n) \<and> (\<forall>c. survives f' n c \<longrightarrow> c = node_content f' n)))"

text \<open>
  C1: through any sequence of boots, starts and requests, failing or crashing at any system call, a
  serving backend never has two of a network transaction, an accepted job and a reset in progress;
  a pending transaction can be rolled back to the configured network; the configured and the
  proposed network are valid; and so is every journal that can be found after a power loss.
\<close>

theorem device_invariant:
  assumes "\<And>s t js. encodeState s = Inr js \<Longrightarrow> decodeState js = Inr t \<Longrightarrow> t = s"
    and "wf_profile p"
    and "lifecycle (native_env encodeState decodeState readStatus sha256 P) p (journal_safe decodeState p) (Up b)"
  shows "state_inv (bk_state b) \<and> journal_safe decodeState p (bk_world b)"
  by (rule native.device_inv [OF native.intro [OF journal_codec.intro] assms(2,3)]) (rule assms(1))

theorem device_invariant_witness:
  "\<exists>b. lifecycle example_env example_profile (journal_safe plain_decode example_profile) (Up b) \<and>
     state_inv (bk_state b) \<and> journal_safe plain_decode example_profile (bk_world b)"
proof -
  obtain b where b: "lifecycle example_env example_profile (journal_safe plain_decode example_profile) (Up b)"
    using example_lifecycle by blast
  from device_invariant [OF _ wf_example b [unfolded example_env_def]] plain.faithful
  have "state_inv (bk_state b) \<and> journal_safe plain_decode example_profile (bk_world b)" by blast
  with b show ?thesis by blast
qed


lemma power_cycle_exists:
  assumes "wf_fs f"
  shows "\<exists>f'. power_cycle f f'"
proof
  let ?data = "\<lambda>i. case fs_synced f i of None \<Rightarrow> [] | Some t \<Rightarrow> t"
  let ?f = "f\<lparr>fs_names := fs_disk f, fs_data := ?data, fs_synced := (\<lambda>i. Some (?data i))\<rparr>"
  have "survives f n (node_content ?f n)" "survives ?f n c \<Longrightarrow> c = node_content ?f n" for n c
    by (auto simp: survives_def survivor_def node_content_def split: option.splits)
  moreover have "wf_fs ?f" using assms by (simp add: wf_fs_def)
  ultimately show "power_cycle f ?f" by (simp add: power_cycle_def)
qed


end
