(* ===== verification/Backend_Properties.thy ===== *)
theory Backend_Properties
  imports Scenario
begin

text \<open>
  What the operations of the backend guarantee: when a network transaction commits and when it is
  rolled back, that preferences are applied wholly or not at all, which requests are refused, and
  what is reported of a pending transaction.
\<close>

lemmas vc_any = wp_ext_any wp_persist_any wp_event_any

lemma wp_settle_event_any:
  assumes "\<And>w. Q () (b\<lparr>bk_world := w\<rparr>)"
  shows "wp (settle_event E commit reason) Q R b"
  unfolding settle_event_def wp_rules by (rule wp_event_any) (rule assms)

lemma wp_settle_any:
  assumes "\<And>w. \<not> bk_storage_failed b \<Longrightarrow> Q () (b\<lparr>bk_state := settled commit (bk_state b), bk_world := w\<rparr>)"
    and "\<And>e w. R e (b\<lparr>bk_world := w\<rparr>)"
    and "\<And>e w. R e (b\<lparr>bk_state := settled commit (bk_state b), bk_world := w, bk_storage_failed := True\<rparr>)"
  shows "wp (settleNetwork E commit boot reason) Q R b"
  unfolding wp_settleNetwork
  by (auto intro!: vc_any wp_settle_event_any assms)

text \<open>The state a finished transaction leaves.\<close>

definition with_audit :: "string \<Rightarrow> string \<Rightarrow> state \<Rightarrow> state" where
  "with_audit actor rid s = s\<lparr>st_pending := (st_pending s)\<lparr>pd_actor := actor, pd_request_id := rid\<rparr>\<rparr>"

text \<open>
  C20: a commit that is confirmed was either confirmed before, in which case nothing happens, or it
  was prepared, the active settings file has the hash of the candidate settings, and the proposed
  network becomes the configured one under the caller's identity.
\<close>

theorem commit_requires_candidate:
  assumes "finishNetwork E i True actor rid b = (Inr (), b')"
  shows "i = tx_id (bk_state b) \<and>
    (tx_state (bk_state b) = ''committed'' \<and> b' = b \<or>
     tx_state (bk_state b) = ''committing'' \<and>
     (\<exists>w. en_fileHash E (pf_active_settings (bk_profile b)) (bk_world b) =
        (Inr (pd_candidate_hash (st_pending (bk_state b))), w)) \<and>
     bk_state b' = settled True (with_audit actor rid (bk_state b)) \<and>
     conf_network (bk_state b') = tx_network (bk_state b))"
proof -
  have "wp (finishNetwork E i True actor rid) (\<lambda>_ b'. i = tx_id (bk_state b) \<and>
    (tx_state (bk_state b) = ''committed'' \<and> b' = b \<or>
     tx_state (bk_state b) = ''committing'' \<and>
     (\<exists>w. en_fileHash E (pf_active_settings (bk_profile b)) (bk_world b) =
        (Inr (pd_candidate_hash (st_pending (bk_state b))), w)) \<and>
     bk_state b' = settled True (with_audit actor rid (bk_state b)) \<and>
     conf_network (bk_state b') = tx_network (bk_state b))) (\<lambda>_ _. True) b"
    unfolding finishNetwork_def check_finish_def
    by (auto simp: wp_rules with_audit_def is_pending_def settle_target_def intro!: vc_any wp_settle_any)
  from wp_Inr [OF this assms] show ?thesis .
qed


text \<open>
  C21: recovery of a pending transaction, at a timeout, at boot or at start, ends in the proposed
  network exactly when the transaction was prepared and the active settings file already has the
  hash of the candidate settings; in every other case in the previous network.
\<close>

theorem recovery_decision:
  assumes "recoverNetwork E boot b = (Inr (), b')" and "is_pending (bk_state b)"
  shows "\<exists>commit. bk_state b' = settled commit (bk_state b) \<and>
    (commit \<longleftrightarrow> tx_state (bk_state b) = ''committing'' \<and>
       (\<exists>w. en_fileHash E (pf_active_settings (bk_profile b)) (bk_world b) =
          (Inr (pd_candidate_hash (st_pending (bk_state b))), w)))"
proof -
  have "wp (recoverNetwork E boot) (\<lambda>_ b'. \<exists>commit. bk_state b' = settled commit (bk_state b) \<and>
    (commit \<longleftrightarrow> tx_state (bk_state b) = ''committing'' \<and>
       (\<exists>w. en_fileHash E (pf_active_settings (bk_profile b)) (bk_world b) =
          (Inr (pd_candidate_hash (st_pending (bk_state b))), w)))) (\<lambda>_ _. True) b"
    using assms(2) unfolding recoverNetwork_def
    by (auto simp: wp_rules intro!: vc_any wp_settle_any)
  from wp_Inr [OF this assms(1)] show ?thesis .
qed


text \<open>The error with which a backend that is not idle refuses requests.\<close>

definition refusal :: "'w backend \<Rightarrow> exn option" where
  "refusal b =
     (if bk_storage_failed b then Some recovery_error
      else if is_pending (bk_state b) \<or> jb_state (st_job (bk_state b)) = ''accepted'' \<or>
              st_reset_intent (bk_state b)
      then Some (Error busy ''another system transaction is in progress'') else None)"

lemma idle_refuses: "refusal b = Some e \<Longrightarrow> idle b = (Inl e, b)"
  by (auto simp: refusal_def idle_def bind_def gets_def seq_def guard_def ret_def throw_def split: if_splits)

text \<open>
  C23: while a journal write has failed, or a transaction, an accepted job or a reset is in progress,
  every request that would start another one is refused with the corresponding error and without
  any effect, on the state or on the platform.
\<close>

theorem busy_refused:
  assumes "refusal b = Some e"
  shows "apply_preferences E config b = (Inl e, b) \<and> beginNetwork E p actor rid b = (Inl e, b) \<and>
    power E action actor rid b = (Inl e, b) \<and> resetDevice E True actor rid b = (Inl e, b)"
  using idle_refuses [OF assms]
  by (simp add: apply_preferences_def beginNetwork_def power_def resetDevice_def seq_def bind_def
      guard_def ret_def)

text \<open>
  Finishing a network transaction is idempotent: repeating a call that succeeded succeeds again
  and changes nothing, whoever repeats it.
\<close>

theorem finish_idempotent:
  assumes "finishNetwork E i commit actor rid b = (Inr (), b')"
  shows "finishNetwork E i commit actor' rid' b' = (Inr (), b')"
proof -
  have "wp (finishNetwork E i commit actor rid)
      (\<lambda>_ b'. i = tx_id (bk_state b') \<and> tx_state (bk_state b') = (if commit then ''committed'' else ''rolled_back''))
      (\<lambda>_ _. True) b"
    unfolding finishNetwork_def check_finish_def
    by (auto simp: wp_rules is_pending_def settle_target_def intro!: vc_any wp_settle_any)
  from wp_Inr [OF this assms] show ?thesis
    by (simp add: finishNetwork_def bind_def gets_def ret_def)
qed

text \<open>A proposal never touches the configuration.\<close>

definition rollback_only :: "configuration \<Rightarrow> 'w backend \<Rightarrow> bool" where
  "rollback_only c b =
     (st_configuration (bk_state b) = c \<and> tx_state (bk_state b) \<noteq> ''committing'' \<and>
      (is_pending (bk_state b) \<longrightarrow> pd_previous (st_pending (bk_state b)) = pr_network (cf_system c)))"

lemma rollback_settle:
  assumes "rollback_only c b" and "is_pending (bk_state b)"
    and "\<And>b'. rollback_only c b' \<Longrightarrow> Q () b'" and "\<And>e b'. rollback_only c b' \<Longrightarrow> R e b'"
  shows "wp (settleNetwork E False boot reason) Q R b"
proof -
  have "rollback_only c (b\<lparr>bk_state := settled False (bk_state b), bk_world := w\<rparr>)"
    "rollback_only c (b\<lparr>bk_state := settled False (bk_state b), bk_world := w, bk_storage_failed := True\<rparr>)"
    "rollback_only c (b\<lparr>bk_world := w\<rparr>)" for w
    using assms(1,2) by (auto simp: rollback_only_def settle_target_def settled_def is_pending_def set_network_def)
  then show ?thesis using assms(3,4) by (intro wp_settle_any) blast+
qed

lemma tick_rollback_only: "keeps (rollback_only c) (tick E)"
proof -
  have job: "keeps (rollback_only c) (run_job E)"
    unfolding run_job_def dispatch_job_def
    by (rule keepsI)
       (simp only: wp_rules split: if_split | intro vc_any conjI impI | simp add: rollback_only_def is_pending_def)+
  have "keeps (rollback_only c) (recoverNetwork E False)"
    unfolding recoverNetwork_def
    by (rule keepsI) (auto simp: wp_rules intro!: vc_any rollback_settle simp: rollback_only_def)
  then have "keeps (rollback_only c) (expire_pending E)"
    unfolding expire_pending_def
    by (intro keeps_rules) (rule keepsI, auto intro!: vc_any simp: rollback_only_def)
  moreover have "keeps (rollback_only c) (observe_due E)"
    by (rule keepsI) (auto simp: rollback_only_def keeps_def intro!: wp_observe_due [where P = "\<lambda>_. True"])
  ultimately show ?thesis unfolding tick_def using job by (intro keeps_rules)
qed

text \<open>
  Whatever becomes of a network proposal, success, refusal, a failing platform or journal, the
  configuration stays the one of before; only a commit changes it.
\<close>

theorem begin_keeps_configuration:
  "st_configuration (bk_state (snd (beginNetwork E p actor rid b))) = st_configuration (bk_state b)"
proof -
  let ?c = "st_configuration (bk_state b)"
  have report: "keeps (rollback_only ?c) (networkTransaction E)"
  proof -
    have "keeps (rollback_only ?c) (ext (en_clock E))"
      by (rule keepsI) (auto intro!: vc_any simp: rollback_only_def)
    then show ?thesis unfolding networkTransaction_def by (intro keeps_rules tick_rollback_only)
  qed
  have "wp (beginNetwork E p actor rid) (\<lambda>_ b'. st_configuration (bk_state b') = ?c)
      (\<lambda>_ b'. st_configuration (bk_state b') = ?c) b"
    unfolding beginNetwork_def check_proposal_def
    by (simp only: wp_rules case_prod_conv Let_def split: if_split
        | intro vc_any conjI impI keeps_then [OF report] rollback_settle [where c = ?c]
        | simp add: rollback_only_def is_pending_def)+
  then show ?thesis by (simp add: wp_state)
qed

text \<open>Remaining time of a pending transaction: the clock is read twice.\<close>

text \<open>
  While a transaction is pending and the clock does not move between its two readings, the
  reported remaining time is the distance to the deadline, and zero afterwards.
\<close>

theorem remaining_time:
  assumes "networkTransaction E b = (Inr t, b')" and "\<And>w. en_clock E w = (Inr now, w)"
  shows "nt_remaining_ms t = (if is_pending (bk_state b') \<and> now < pd_deadline (st_pending (bk_state b'))
    then pd_deadline (st_pending (bk_state b')) - now else 0) \<and> nt_id t = tx_id (bk_state b')"
proof -
  have clock: "wp (ext (en_clock E)) Q R b = Q now b" for Q R and b :: "'a backend"
    using assms(2) [of "bk_world b"] by (simp add: wp_def ext_def)
  have "wp (networkTransaction E) (\<lambda>t b'. nt_remaining_ms t =
      (if is_pending (bk_state b') \<and> now < pd_deadline (st_pending (bk_state b'))
       then pd_deadline (st_pending (bk_state b')) - now else 0) \<and> nt_id t = tx_id (bk_state b')) (\<lambda>_ _. True) b"
    unfolding networkTransaction_def wp_seq
    by (rule wp_eqI) (simp_all add: wp_rules clock)
  from wp_Inr [OF this assms(1)] show ?thesis .
qed

text \<open>Surroundings for examples: every call succeeds; the clock reads a list.\<close>

definition ticking :: "64 word list env" where
  "ticking =
     \<lparr>en_discover = ret default_configuration,
      en_status = throw (Error unsupported ''status''), en_time = throw (Error unsupported ''time''),
      en_networkLinks = ret [], en_timezones = ret [],
      en_timezoneCatalog = throw (Error unsupported ''zones''), en_temperatures = ret [],
      en_validateConfiguration = (\<lambda>_. ret ()), en_preferences = (\<lambda>_. ret ()),
      en_bootHostname = (\<lambda>_. ret ()), en_network = (\<lambda>_ _. ret ()),
      en_sshBootPolicy = (\<lambda>_. ret ()), en_clockBootPolicy = (\<lambda>_. ret ()), en_power = (\<lambda>_. ret ()),
      en_clock = (\<lambda>ts. case ts of [] \<Rightarrow> (Inr 0, []) | t # rest \<Rightarrow> (Inr t, rest)),
      en_createStateDirectory = (\<lambda>_. ret ()), en_exists = (\<lambda>_. ret False),
      en_readFile = (\<lambda>_. ret []), en_atomicWrite = (\<lambda>_ _. ret ()), en_durableRemove = (\<lambda>_. ret ()),
      en_fileHash = (\<lambda>_. ret []), en_randomId = ret [], en_sink = (\<lambda>_ w. (True, w)),
      en_encodeState = plain_encode, en_decodeState = plain_decode,
      en_readStorageStatus = (\<lambda>_. Some (True, True))\<rparr>"

definition example_backend :: "string \<Rightarrow> 64 word list \<Rightarrow> 64 word list backend" where
  "example_backend tx clock =
     \<lparr>bk_profile = example_profile,
      bk_state = default_state\<lparr>st_initialized := True,
        st_pending := default_pending\<lparr>pd_transaction := default_network_transaction
           \<lparr>nt_id := ''t1'', nt_state := tx\<rparr>, pd_deadline := 100\<rparr>\<rparr>,
      bk_carriers = (\<lambda>_. None), bk_next_network_observation = 1000, bk_storage_failed = False,
      bk_job_deadline = 0, bk_world = clock\<rparr>"

lemmas example_eval = example_backend_def ticking_def default_defs is_pending_def
  bind_def seq_def gets_def modify_def guard_def cond_def ret_def throw_def catch_def of_result_def ext_def


section \<open>Examples\<close>

lemma example_valid: "validate default_configuration = Inr ()"
  by code_simp

lemma wp_ext_ret: "wp (ext (ret x)) Q R b = Q x b"
  by (simp add: wp_def ext_def ret_def)

lemma ticking_settles:
  assumes "\<not> bk_storage_failed b" and "\<And>w. Q () (b\<lparr>bk_state := settled commit (bk_state b), bk_world := w\<rparr>)"
  shows "wp (settleNetwork ticking commit boot reason) Q R b"
proof -
  have "wp (settle_event ticking commit reason) Q R (b\<lparr>bk_state := settled commit (bk_state b)\<rparr>)"
    using assms(2) by (intro wp_settle_event_any) simp
  then show ?thesis
    using assms(1)
    by (simp add: wp_settleNetwork ticking_def wp_ext_ret persist_def wp_rules wp_of_result plain_encode_def)
qed

lemma example_finish: "\<exists>b'. finishNetwork ticking ''t1'' True ''admin'' ''r1'' (example_backend ''committing'' []) = (Inr (), b')"
proof -
  have "en_fileHash ticking p = ret []" for p by (simp add: ticking_def)
  then have "wp (finishNetwork ticking ''t1'' True ''admin'' ''r1'') (\<lambda>_ _. True) (\<lambda>_ _. False) (example_backend ''committing'' [])"
    unfolding finishNetwork_def check_finish_def
    by (auto simp: wp_rules is_pending_def wp_ext_ret example_backend_def default_defs intro!: ticking_settles)
  then show ?thesis by (auto simp: wp_def split: prod.splits sum.splits)
qed

theorem commit_requires_candidate_witness:
  "\<exists>b'. finishNetwork ticking ''t1'' True ''admin'' ''r1'' (example_backend ''committing'' []) = (Inr (), b') \<and>
     conf_network (bk_state b') = tx_network (bk_state (example_backend ''committing'' []))"
proof -
  obtain b' where b': "finishNetwork ticking ''t1'' True ''admin'' ''r1'' (example_backend ''committing'' []) = (Inr (), b')"
    using example_finish by blast
  moreover have "tx_state (bk_state (example_backend ''committing'' [])) \<noteq> ''committed''"
    by (simp add: example_backend_def)
  ultimately show ?thesis using commit_requires_candidate [OF b'] by blast
qed

theorem finish_idempotent_witness:
  "\<exists>b'. finishNetwork ticking ''t1'' True ''admin'' ''r1'' (example_backend ''committing'' []) = (Inr (), b') \<and>
     finishNetwork ticking ''t1'' True ''other'' [] b' = (Inr (), b')"
  using example_finish finish_idempotent by blast

theorem recovery_decision_witness:
  "\<exists>b'. recoverNetwork ticking False (example_backend ''pending'' []) = (Inr (), b') \<and>
     bk_state b' = settled False (bk_state (example_backend ''pending'' []))"
proof -
  have "wp (recoverNetwork ticking False) (\<lambda>_ _. True) (\<lambda>_ _. False) (example_backend ''pending'' [])"
    unfolding recoverNetwork_def
    by (auto simp: wp_rules example_backend_def intro!: ticking_settles)
  then obtain b' where b': "recoverNetwork ticking False (example_backend ''pending'' []) = (Inr (), b')"
    by (auto simp: wp_def split: prod.splits sum.splits)
  have p: "is_pending (bk_state (example_backend ''pending'' []))"
    "tx_state (bk_state (example_backend ''pending'' [])) \<noteq> ''committing''"
    by (simp_all add: example_backend_def is_pending_def)
  from recovery_decision [OF b' p(1)] p(2)
  have "bk_state b' = settled False (bk_state (example_backend ''pending'' []))" by auto
  with b' show ?thesis by blast
qed

theorem busy_refused_witness:
  "refusal (example_backend ''pending'' []) = Some (Error busy ''another system transaction is in progress'') \<and>
   power ticking reboot ''admin'' [] (example_backend ''pending'' []) =
     (Inl (Error busy ''another system transaction is in progress''), example_backend ''pending'' [])"
proof -
  have "refusal (example_backend ''pending'' []) = Some (Error busy ''another system transaction is in progress'')"
    by (simp add: refusal_def example_backend_def is_pending_def)
  with busy_refused [OF this] show ?thesis by blast
qed


theorem remaining_time_witness:
  "\<exists>t b'. networkTransaction (ticking\<lparr>en_clock := ret 40\<rparr>) (example_backend ''pending'' []) = (Inr t, b') \<and>
     nt_remaining_ms t = 60"
proof -
  let ?E = "ticking\<lparr>en_clock := ret 40\<rparr>"
  let ?b = "example_backend ''pending'' []"
  obtain t where t: "networkTransaction ?E ?b = (Inr t, ?b)"
    by (simp add: networkTransaction_def tick_def observe_due_def expire_pending_def run_job_def example_eval)
  have "is_pending (bk_state ?b)" "pd_deadline (st_pending (bk_state ?b)) = 100"
    by (simp_all add: example_backend_def is_pending_def)
  with remaining_time [OF t, of 40] t show ?thesis by (simp add: ret_def)
qed

end
