(* ===== verification/Write_Ahead.thy ===== *)
theory Write_Ahead
  imports Backend_Properties
begin

text \<open>
  The write-ahead discipline of the backend (backend.hpp: all durable changes precede their effects).
  The surroundings are instrumented with the journal and a log of the effects; every call of every
  operation keeps the log covered by the journal.
\<close>

section \<open>Effects and the journal they are covered by\<close>

datatype effect =
    NetworkApplied "network_config list"
  | PowerCalled power_action
  | PathRemoved string

text \<open>
  Surroundings instrumented with the text of the journal as first read or last written, whether a write of
  it has failed in this process, and the effects so far, each with the journal at that moment.
\<close>

record 'w traced =
  tr_world :: 'w
  tr_journal :: "string option"
  tr_broken :: bool
  tr_log :: "(effect \<times> string option \<times> bool) list"

definition lift :: "('w, 'a) io \<Rightarrow> ('w traced, 'a) io" where
  "lift m = (\<lambda>t. case m (tr_world t) of (r, w) \<Rightarrow> (r, t\<lparr>tr_world := w\<rparr>))"

definition logged :: "effect \<Rightarrow> ('w traced, unit) io" where
  "logged e = modify (\<lambda>t. t\<lparr>tr_log := (e, tr_journal t, tr_broken t) # tr_log t\<rparr>)"

definition traced_write :: "string \<Rightarrow> 'w env \<Rightarrow> string \<Rightarrow> string \<Rightarrow> ('w traced, unit) io" where
  "traced_write path E p js =
     seq (catch (lift (en_atomicWrite E p js))
            (\<lambda>e. seq (cond (p = path) (modify (\<lambda>t. t\<lparr>tr_broken := True\<rparr>))) (throw e)))
       (cond (p = path) (modify (\<lambda>t. t\<lparr>tr_journal := Some js\<rparr>)))"

definition traced_read :: "string \<Rightarrow> 'w env \<Rightarrow> string \<Rightarrow> ('w traced, string) io" where
  "traced_read path E p =
     bind (lift (en_readFile E p)) (\<lambda>js.
       seq (cond (p = path) (modify (\<lambda>t. t\<lparr>tr_journal := (case tr_journal t of None \<Rightarrow> Some js | j \<Rightarrow> j)\<rparr>)))
         (ret js))"

definition traced_env :: "string \<Rightarrow> 'w env \<Rightarrow> 'w traced env" where
  "traced_env path E =
     \<lparr>en_discover = lift (en_discover E), en_status = lift (en_status E), en_time = lift (en_time E),
      en_networkLinks = lift (en_networkLinks E), en_timezones = lift (en_timezones E),
      en_timezoneCatalog = lift (en_timezoneCatalog E), en_temperatures = lift (en_temperatures E),
      en_validateConfiguration = (\<lambda>c. lift (en_validateConfiguration E c)),
      en_preferences = (\<lambda>c. lift (en_preferences E c)),
      en_bootHostname = (\<lambda>h. lift (en_bootHostname E h)),
      en_network = (\<lambda>n boot. seq (cond (\<not> boot) (logged (NetworkApplied n))) (lift (en_network E n boot))),
      en_sshBootPolicy = (\<lambda>x. lift (en_sshBootPolicy E x)),
      en_clockBootPolicy = (\<lambda>t. lift (en_clockBootPolicy E t)),
      en_power = (\<lambda>a. seq (logged (PowerCalled a)) (lift (en_power E a))),
      en_clock = lift (en_clock E),
      en_createStateDirectory = (\<lambda>d. lift (en_createStateDirectory E d)),
      en_exists = (\<lambda>p. lift (en_exists E p)),
      en_readFile = traced_read path E,
      en_atomicWrite = traced_write path E,
      en_durableRemove = (\<lambda>p. seq (logged (PathRemoved p)) (lift (en_durableRemove E p))),
      en_fileHash = (\<lambda>p. lift (en_fileHash E p)), en_randomId = lift (en_randomId E),
      en_sink = (\<lambda>fs t. case en_sink E fs (tr_world t) of (ok, w) \<Rightarrow> (ok, t\<lparr>tr_world := w\<rparr>)),
      en_encodeState = en_encodeState E, en_decodeState = en_decodeState E,
      en_readStorageStatus = en_readStorageStatus E\<rparr>"

text \<open>
  What the journal must record before an effect: a network is applied while serving only under a
  pending transaction that names it and the network to go back to; a power call only after a job was
  recorded as dispatched with that action; a path is removed only under a recorded reset intent.
\<close>

definition records :: "'w env \<Rightarrow> string option \<Rightarrow> (state \<Rightarrow> bool) \<Rightarrow> bool" where
  "records E journal P =
     (\<exists>js s. journal = Some js \<and> (en_decodeState E js = Inr s \<or> en_encodeState E s = Inr js) \<and> P s)"

fun covered :: "'w env \<Rightarrow> effect \<times> string option \<times> bool \<Rightarrow> bool" where
  "covered E (NetworkApplied n, journal, broken) =
     (broken \<or> records E journal (\<lambda>s. is_pending s \<and> (n = pd_previous (st_pending s) \<or> n = tx_network s)))"
| "covered E (PowerCalled a, journal, broken) =
     records E journal (\<lambda>s. jb_state (st_job s) = ''dispatched'' \<and>
       a = (if jb_action (st_job s) = ''shutdown'' then shutdown else reboot))"
| "covered E (PathRemoved p, journal, broken) = records E journal st_reset_intent"

lemma records_mono: "records E journal P \<Longrightarrow> (\<And>s. P s \<Longrightarrow> Q s) \<Longrightarrow> records E journal Q"
  by (auto simp: records_def)

definition ghost :: "'w traced \<Rightarrow> string option \<times> bool \<times> (effect \<times> string option \<times> bool) list" where
  "ghost t = (tr_journal t, tr_broken t, tr_log t)"

lemma keeps_lift: "keeps (\<lambda>t. ghost t = g) (lift m)"
  by (auto simp: keeps_def lift_def ghost_def split: prod.split)

lemma ghost_updates [simp]:
  "ghost (t\<lparr>tr_world := w\<rparr>) = ghost t"
  by (simp add: ghost_def)

locale write_ahead =
  fixes E :: "'w env" and profile :: profile
  assumes encodes: "\<exists>js. en_encodeState E s = Inr js"
begin

abbreviation T :: "'w traced env" where
  "T \<equiv> traced_env (journal_path profile) E"

definition same_offer :: "state \<Rightarrow> state \<Rightarrow> bool" where
  "same_offer t s =
     (is_pending s \<and> pd_previous (st_pending s) = pd_previous (st_pending t) \<and> tx_network s = tx_network t)"

definition offered :: "string option \<Rightarrow> bool \<Rightarrow> state \<Rightarrow> bool" where
  "offered journal failed t =
     (is_pending t \<longrightarrow> failed \<or> records E journal (same_offer t))"

fun honest :: "string option \<times> bool \<times> (effect \<times> string option \<times> bool) list \<Rightarrow> bool \<Rightarrow> bool" where
  "honest (journal, broken, log) failed =
     (broken = failed \<and> (\<forall>e\<in>set log. covered E e))"

definition mine :: "'w traced backend \<Rightarrow> bool" where
  "mine b = (bk_profile b = profile)"

lemma mine_updates [simp]:
  "mine (b\<lparr>bk_state := s\<rparr>) = mine b" "mine (b\<lparr>bk_carriers := cs\<rparr>) = mine b"
  "mine (b\<lparr>bk_next_network_observation := n\<rparr>) = mine b" "mine (b\<lparr>bk_world := w\<rparr>) = mine b"
  "mine (b\<lparr>bk_job_deadline := n\<rparr>) = mine b" "mine (b\<lparr>bk_storage_failed := x\<rparr>) = mine b"
  by (simp_all add: mine_def)

definition sound :: "'w traced backend \<Rightarrow> bool" where
  "sound b =
     (mine b \<and> honest (ghost (bk_world b)) (bk_storage_failed b) \<and>
      offered (fst (ghost (bk_world b))) (bk_storage_failed b) (bk_state b))"

lemma quiet_env:
  "keeps (\<lambda>t. ghost t = g) (en_discover T)" "keeps (\<lambda>t. ghost t = g) (en_status T)"
  "keeps (\<lambda>t. ghost t = g) (en_networkLinks T)" "keeps (\<lambda>t. ghost t = g) (en_validateConfiguration T c)"
  "keeps (\<lambda>t. ghost t = g) (en_clock T)" "keeps (\<lambda>t. ghost t = g) (en_fileHash T path)"
  "keeps (\<lambda>t. ghost t = g) (en_randomId T)" "keeps (\<lambda>t. ghost t = g) (en_preferences T c)"
  "keeps (\<lambda>t. ghost t = g) (en_bootHostname T h)" "keeps (\<lambda>t. ghost t = g) (en_sshBootPolicy T x)"
  "keeps (\<lambda>t. ghost t = g) (en_clockBootPolicy T tp)" "keeps (\<lambda>t. ghost t = g) (en_network T n True)"
  "keeps (\<lambda>t. ghost t = g) (en_exists T path)" "keeps (\<lambda>t. ghost t = g) (en_createStateDirectory T path)"
  by (simp_all add: traced_env_def keeps_lift) (simp add: keeps_def seq_def bind_def cond_def ret_def keeps_lift [unfolded keeps_def, simplified])

lemma quiet_sink: "ghost t = g \<Longrightarrow> ghost (snd (en_sink T fs t)) = g"
  by (auto simp: traced_env_def split: prod.split)

lemma wp_quiet:
  assumes "keeps (\<lambda>t. ghost t = ghost (bk_world b)) m"
    and "\<And>x w. ghost w = ghost (bk_world b) \<Longrightarrow> Q x (b\<lparr>bk_world := w\<rparr>)"
    and "\<And>e w. ghost w = ghost (bk_world b) \<Longrightarrow> R e (b\<lparr>bk_world := w\<rparr>)"
  shows "wp (ext m) Q R b"
  using wp_ext_keeps [where P = "\<lambda>w. ghost w = ghost (bk_world b)", OF assms(1)] assms(2,3) by simp

lemma wp_quiet_event:
  assumes "\<And>w. ghost w = ghost (bk_world b) \<Longrightarrow> Q () (b\<lparr>bk_world := w\<rparr>)"
  shows "wp (event T code category message actor action outcome subject prio rid) Q R b"
  by (rule wp_event_keeps [where P = "\<lambda>w. ghost w = ghost (bk_world b)"]) (simp_all add: quiet_sink assms)

text \<open>An effect that the journal covers.\<close>

lemma wp_effect:
  assumes "honest (ghost (bk_world b)) (bk_storage_failed b)"
    and "covered E (e, fst (ghost (bk_world b)), bk_storage_failed b)"
    and "\<And>x w. fst (ghost w) = fst (ghost (bk_world b)) \<Longrightarrow> honest (ghost w) (bk_storage_failed b) \<Longrightarrow>
      Q x (b\<lparr>bk_world := w\<rparr>)"
    and "\<And>ex w. fst (ghost w) = fst (ghost (bk_world b)) \<Longrightarrow> honest (ghost w) (bk_storage_failed b) \<Longrightarrow>
      R ex (b\<lparr>bk_world := w\<rparr>)"
  shows "wp (ext (seq (logged e) (lift m))) Q R b"
proof -
  obtain r w where m: "m (tr_world (bk_world b)) = (r, w)" by fastforce
  let ?t = "(bk_world b)\<lparr>tr_log := (e, tr_journal (bk_world b), tr_broken (bk_world b)) # tr_log (bk_world b), tr_world := w\<rparr>"
  have "fst (ghost ?t) = fst (ghost (bk_world b))" "honest (ghost ?t) (bk_storage_failed b)"
    using assms(1,2) by (auto simp: ghost_def)
  moreover have "seq (logged e) (lift m) (bk_world b) = (r, ?t)"
    using m by (simp add: seq_def bind_def logged_def modify_def lift_def)
  ultimately show ?thesis using assms(3,4) by (auto simp: wp_def ext_def split: sum.splits)
qed

lemma effect_env:
  "en_network T n False = seq (logged (NetworkApplied n)) (lift (en_network E n False))"
  "en_power T a = seq (logged (PowerCalled a)) (lift (en_power E a))"
  "en_durableRemove T p = seq (logged (PathRemoved p)) (lift (en_durableRemove E p))"
  by (simp_all add: traced_env_def cond_def)

text \<open>A journal write that returns makes the journal record the state.\<close>

lemma wp_traced_persist:
  assumes "mine b" and "honest (ghost (bk_world b)) (bk_storage_failed b)"
    and "\<And>w. \<not> bk_storage_failed b \<Longrightarrow> honest (ghost w) False \<Longrightarrow>
      (\<And>P. P (bk_state b) \<Longrightarrow> records E (fst (ghost w)) P) \<Longrightarrow> Q () (b\<lparr>bk_world := w\<rparr>)"
    and "\<And>e w. honest (ghost w) True \<Longrightarrow> R e (b\<lparr>bk_world := w, bk_storage_failed := True\<rparr>)"
  shows "wp (persist T) Q R b"
proof (cases "bk_storage_failed b")
  case True
  then have "b\<lparr>bk_storage_failed := True\<rparr> = b" by (cases b) simp
  with True assms(2) assms(4) [of "bk_world b" recovery_error] show ?thesis
    by (simp add: persist_def wp_rules)
next
  case False
  obtain js where js: "en_encodeState E (bk_state b) = Inr js" using encodes by blast
  obtain r w where w: "en_atomicWrite E (journal_path profile) js (tr_world (bk_world b)) = (r, w)"
    by fastforce
  have ok: "honest (ghost ((bk_world b)\<lparr>tr_world := w, tr_journal := Some js\<rparr>)) False"
    "P (bk_state b) \<Longrightarrow> records E (fst (ghost ((bk_world b)\<lparr>tr_world := w, tr_journal := Some js\<rparr>))) P" for P
    using assms(2) False js by (auto simp: ghost_def records_def)
  have bad: "honest (ghost ((bk_world b)\<lparr>tr_world := w, tr_broken := True\<rparr>)) True"
    using assms(2) by (simp add: ghost_def)
  have enc: "en_encodeState T = en_encodeState E" by (simp add: traced_env_def)
  have wr: "en_atomicWrite T = traced_write (journal_path profile) E" by (simp add: traced_env_def)
  have tw: "traced_write (journal_path profile) E (journal_path profile) js (bk_world b) =
      (case r of Inl e \<Rightarrow> (Inl e, (bk_world b)\<lparr>tr_world := w, tr_broken := True\<rparr>)
       | Inr _ \<Rightarrow> (Inr (), (bk_world b)\<lparr>tr_world := w, tr_journal := Some js\<rparr>))"
    by (simp add: traced_write_def seq_def bind_def catch_def lift_def cond_def modify_def ret_def throw_def w
        split: sum.split)
  from assms(1) have path: "journal_path (bk_profile b) = journal_path profile" by (simp add: mine_def)
  have "wp (ext (traced_write (journal_path profile) E (journal_path profile) js)) Q
      (\<lambda>e. wp (seq (modify (bk_storage_failed_update (\<lambda>_. True))) (throw e)) Q R) b"
  proof (cases r)
    case (Inl e)
    with tw bad assms(4) show ?thesis by (simp add: wp_def ext_def seq_def bind_def modify_def throw_def)
  next
    case (Inr u)
    with tw ok False assms(3) show ?thesis by (simp add: wp_def ext_def)
  qed
  with False js path show ?thesis
    unfolding persist_def enc wr by (simp add: wp_rules wp_of_result)
qed

lemma settle_sound:
  assumes "sound b" and "is_pending (bk_state b)"
  shows "wp (settleNetwork T commit False reason) (\<lambda>_. sound) (\<lambda>_. sound) b"
proof -
  have b: "mine b" "honest (ghost (bk_world b)) (bk_storage_failed b)"
    "bk_storage_failed b \<or> records E (fst (ghost (bk_world b))) (same_offer (bk_state b))"
    using assms by (simp_all add: sound_def offered_def)
  have cov: "covered E (NetworkApplied (settle_target commit (bk_state b)),
      fst (ghost (bk_world b)), bk_storage_failed b)"
    using b(3) records_mono [of E _ "same_offer (bk_state b)"
      "\<lambda>s. is_pending s \<and> (settle_target commit (bk_state b) = pd_previous (st_pending s) \<or>
         settle_target commit (bk_state b) = tx_network s)"]
    by (auto simp: same_offer_def settle_target_def)
  show ?thesis
    unfolding wp_settleNetwork settle_event_def effect_env
    by (rule wp_effect [OF b(2) cov])
       (simp only: wp_rules | intro wp_traced_persist wp_quiet_event
        | simp add: sound_def offered_def b)+
qed


lemmas vc = wp_quiet wp_quiet_event wp_traced_persist

lemma soundD: "sound b \<Longrightarrow> mine b" "sound b \<Longrightarrow> honest (ghost (bk_world b)) (bk_storage_failed b)"
  by (simp_all add: sound_def)

lemma sound_honest:
  "sound b \<Longrightarrow> \<not> bk_storage_failed b \<Longrightarrow> honest (ghost (bk_world b)) False"
  "sound b \<Longrightarrow> bk_storage_failed b \<Longrightarrow> honest (ghost (bk_world b)) True"
  by (simp_all add: sound_def del: honest.simps)

lemma sound_simps [simp]:
  "sound (b\<lparr>bk_carriers := cs\<rparr>) = sound b" "sound (b\<lparr>bk_next_network_observation := n\<rparr>) = sound b"
  "sound (b\<lparr>bk_job_deadline := n\<rparr>) = sound b"
  by (simp_all add: sound_def)

lemma sound_world: "sound b \<Longrightarrow> ghost w = ghost (bk_world b) \<Longrightarrow> sound (b\<lparr>bk_world := w\<rparr>)"
  by (simp add: sound_def)

lemma keeps_quiet: "keeps (\<lambda>t. ghost t = ghost t0) m \<Longrightarrow> sound b \<Longrightarrow> bk_world b = t0 \<Longrightarrow>
    wp (ext m) (\<lambda>_. sound) (\<lambda>_. sound) b"
  by (rule wp_quiet) (auto intro: sound_world)

lemma clock_sound [keeps_rules]: "keeps sound (ext (en_clock T))"
  by (rule keepsI) (auto intro!: keeps_quiet quiet_env)

lemma recoverNetwork_sound: "keeps sound (recoverNetwork T False)"
proof (rule keepsI)
  fix b assume b: "sound b"
  then show "wp (recoverNetwork T False) (\<lambda>_. sound) (\<lambda>_. sound) b"
    unfolding recoverNetwork_def
    by (auto simp: wp_rules quiet_env sound_world intro!: wp_quiet settle_sound)
qed

lemma observe_due_sound: "keeps sound (observe_due T)"
  by (rule keepsI, rule wp_observe_due [where P = "\<lambda>t. ghost t = g" for g])
     (auto simp: quiet_env quiet_sink intro: sound_world)

lemma expire_pending_sound: "keeps sound (expire_pending T)"
  unfolding expire_pending_def by (intro keeps_rules recoverNetwork_sound)


lemma same_offer_refl [simp]: "same_offer t t = is_pending t"
  by (simp add: same_offer_def)

lemma offered_failed [simp]: "offered journal True t"
  by (simp add: offered_def)

lemma offered_idle [simp]: "\<not> is_pending t \<Longrightarrow> offered journal failed t"
  by (simp add: offered_def)

lemma is_pending_job [simp]:
  "is_pending (s\<lparr>st_job := j\<rparr>) = is_pending s" "is_pending (s\<lparr>st_job_actor := a\<rparr>) = is_pending s"
  "is_pending (s\<lparr>st_job_request_id := a\<rparr>) = is_pending s"
  "is_pending (s\<lparr>st_reset_intent := x\<rparr>) = is_pending s"
  "is_pending (s\<lparr>st_configuration := c\<rparr>) = is_pending s"
  "is_pending (s\<lparr>st_initialized := x\<rparr>) = is_pending s"
  by (simp_all add: is_pending_def)

lemma same_offer_job [simp]:
  "same_offer (t\<lparr>st_job := j\<rparr>) = same_offer t" "same_offer t (s\<lparr>st_job := j\<rparr>) = same_offer t s"
  "same_offer (t\<lparr>st_configuration := c\<rparr>) = same_offer t"
  "same_offer t (s\<lparr>st_configuration := c\<rparr>) = same_offer t s"
  "same_offer (t\<lparr>st_initialized := x\<rparr>) = same_offer t"
  "same_offer t (s\<lparr>st_initialized := x\<rparr>) = same_offer t s"
  by (simp_all add: same_offer_def fun_eq_iff)

lemma same_offer_audit [simp]:
  "same_offer (s\<lparr>st_pending := (st_pending s)\<lparr>pd_actor := actor, pd_request_id := rid\<rparr>\<rparr>) = same_offer s"
  by (simp add: same_offer_def fun_eq_iff)

lemma same_offer_prepared [simp]:
  "same_offer (s\<lparr>st_pending := (st_pending s)\<lparr>pd_transaction := (pd_transaction (st_pending s))\<lparr>nt_state := x\<rparr>\<rparr>\<rparr>) = same_offer s"
  by (simp add: same_offer_def fun_eq_iff)

lemma offered_job [simp]: "offered journal failed (s\<lparr>st_job := j\<rparr>) = offered journal failed s"
  by (simp add: offered_def)

lemma dispatch_job_sound: "keeps sound (dispatch_job T)"
proof (rule keepsI)
  fix b assume "sound b"
  then have b: "mine b" "honest (ghost (bk_world b)) (bk_storage_failed b)"
    "offered (fst (ghost (bk_world b))) (bk_storage_failed b) (bk_state b)"
    by (simp_all add: sound_def)
  show "wp (dispatch_job T) (\<lambda>_. sound) (\<lambda>_. sound) b"
    unfolding dispatch_job_def effect_env
    by (simp only: wp_rules
        | intro wp_effect | intro vc conjI impI
        | simp add: b sound_def offered_def quiet_env)+
qed


lemma tick_sound [keeps_rules]: "keeps sound (tick T)"
  unfolding tick_def run_job_def
  by (intro keeps_rules observe_due_sound expire_pending_sound dispatch_job_sound)

lemma networkTransaction_sound [keeps_rules]: "keeps sound (networkTransaction T)"
  unfolding networkTransaction_def by (intro keeps_rules)

lemma status_sound [keeps_rules]: "keeps sound (status T)"
  unfolding status_def by (rule keepsI) (auto simp: wp_rules quiet_env sound_world intro!: vc)

lemma finishNetwork_sound [keeps_rules]: "keeps sound (finishNetwork T i commit actor rid)"
proof (rule keepsI)
  fix b assume b: "sound b"
  let ?b = "\<lambda>w. b\<lparr>bk_world := w, bk_state := (bk_state b)\<lparr>st_pending := (st_pending (bk_state b))\<lparr>pd_actor := actor, pd_request_id := rid\<rparr>\<rparr>\<rparr>"
  have pend: "is_pending (bk_state (?b w)) = is_pending (bk_state b)" for w by (simp add: is_pending_def)
  then have "sound (?b w)" if "ghost w = ghost (bk_world b)" for w
    using b that by (simp add: sound_def offered_def)
  then have settle: "wp (settleNetwork T commit' False ''cancel'') (\<lambda>_. sound) (\<lambda>_. sound) (?b w)"
    if "is_pending (bk_state b)" "ghost w = ghost (bk_world b)" for w commit'
    using that pend by (intro settle_sound) simp_all
  have here: "?b (bk_world b) = b\<lparr>bk_state := (bk_state b)\<lparr>st_pending := (st_pending (bk_state b))\<lparr>pd_actor := actor, pd_request_id := rid\<rparr>\<rparr>\<rparr>"
    by (cases b) simp
  note settle_here = settle [of "bk_world b", unfolded here, OF _ refl]
  show "wp (finishNetwork T i commit actor rid) (\<lambda>_. sound) (\<lambda>_. sound) b"
    unfolding finishNetwork_def check_finish_def
    by (simp only: wp_rules case_prod_conv split: if_split
        | intro vc conjI impI
        | simp add: b quiet_env sound_world settle settle_here)+
qed

lemma apply_preferences_sound [keeps_rules]: "keeps sound (apply_preferences T config)"
proof (rule keepsI)
  fix b assume b: "sound b"
  show "wp (apply_preferences T config) (\<lambda>_. sound) (\<lambda>_. sound) b"
    unfolding apply_preferences_def
    by (simp only: wp_rules case_prod_conv Let_def split: if_split
        | intro vc conjI impI
        | simp add: b quiet_env sound_world soundD [OF b] sound_honest [OF b]
        | simp add: sound_def soundD [OF b] sound_honest [OF b])+
qed

lemma beginNetwork_sound [keeps_rules]: "keeps sound (beginNetwork T p actor rid)"
proof (rule keepsI)
  fix b assume b: "sound b"
  show "wp (beginNetwork T p actor rid) (\<lambda>_. sound) (\<lambda>_. sound) b"
    unfolding beginNetwork_def check_proposal_def effect_env
    by (simp only: wp_rules case_prod_conv Let_def split: if_split
        | intro wp_effect
        | intro vc conjI impI keeps_then [OF networkTransaction_sound] settle_sound [THEN wp_mono]
        | simp add: b quiet_env sound_world soundD [OF b] sound_honest [OF b] is_pending_def
        | simp add: sound_def offered_def soundD [OF b] is_pending_def same_offer_def)+
qed

lemma prepareNetworkCommit_sound [keeps_rules]: "keeps sound (prepareNetworkCommit T i)"
proof (rule keepsI)
  fix b assume "sound b"
  then show "wp (prepareNetworkCommit T i) (\<lambda>_. sound) (\<lambda>_. sound) b"
    unfolding prepareNetworkCommit_def wp_seq
    by (intro keeps_then [OF tick_sound])
       (simp only: wp_rules case_prod_conv split: if_split
          | intro vc conjI impI
          | simp add: quiet_env sound_world
          | simp add: sound_def offered_def is_pending_def)+
qed

lemma power_sound [keeps_rules]: "keeps sound (power T action actor rid)"
proof (rule keepsI)
  fix b assume b: "sound b"
  show "wp (power T action actor rid) (\<lambda>_. sound) (\<lambda>_. sound) b"
  unfolding power_def job_accepted_def
  by (simp only: wp_rules split: if_split
        | intro vc conjI impI
        | simp add: b quiet_env sound_world soundD [OF b] sound_honest [OF b]
        | simp add: sound_def soundD [OF b])+
qed

lemma records_None [simp]: "\<not> records E None P"
  by (simp add: records_def)

text \<open>Reading a file can only add what the journal records.\<close>

lemma wp_read:
  assumes "\<And>x w. snd (ghost w) = snd (ghost (bk_world b)) \<Longrightarrow>
      fst (ghost (bk_world b)) = None \<or> fst (ghost w) = fst (ghost (bk_world b)) \<Longrightarrow> Q x (b\<lparr>bk_world := w\<rparr>)"
    and "\<And>e w. snd (ghost w) = snd (ghost (bk_world b)) \<Longrightarrow>
      fst (ghost (bk_world b)) = None \<or> fst (ghost w) = fst (ghost (bk_world b)) \<Longrightarrow> R e (b\<lparr>bk_world := w\<rparr>)"
  shows "wp (storageStatus T path) Q R b"
proof -
  obtain r w where "en_readFile E path (tr_world (bk_world b)) = (r, w)" by fastforce
  moreover have "en_readFile T = traced_read (journal_path profile) E" by (simp add: traced_env_def)
  ultimately show ?thesis
    using assms unfolding storageStatus_def wp_bind
    by (auto simp: wp_def ext_def traced_read_def bind_def lift_def seq_def cond_def modify_def ret_def throw_def
        ghost_def split: sum.split option.split)
qed

lemma sound_read:
  assumes "sound b" and "snd (ghost w) = snd (ghost (bk_world b))"
    and "fst (ghost (bk_world b)) = None \<or> fst (ghost w) = fst (ghost (bk_world b))"
  shows "sound (b\<lparr>bk_world := w\<rparr>)"
  using assms by (cases "ghost w"; cases "ghost (bk_world b)") (auto simp: sound_def offered_def)

lemma resetDevice_sound [keeps_rules]: "keeps sound (resetDevice T confirmed actor rid)"
proof (rule keepsI)
  fix b assume b: "sound b"
  have rest: "wp (job_accepted T) (\<lambda>_. sound) (\<lambda>_. sound) b'" if "sound b'" for b'
    unfolding job_accepted_def
    by (simp only: wp_rules | intro vc | simp add: that quiet_env sound_world)+
  have honest: "honest (ghost w) False" if "snd (ghost w) = snd (ghost (bk_world b))" "\<not> bk_storage_failed b" for w
    using that sound_honest(1) [OF b] by (cases "ghost w"; cases "ghost (bk_world b)") simp
  show "wp (resetDevice T confirmed actor rid) (\<lambda>_. sound) (\<lambda>_. sound) b"
    unfolding resetDevice_def
    by (simp only: wp_rules case_prod_conv split_paired_all split: if_split
        | intro wp_read | intro vc conjI impI rest
        | simp add: b quiet_env sound_world sound_read soundD [OF b] sound_honest [OF b] honest
        | simp add: sound_def soundD [OF b])+
qed

lemma backend_step_sound: "backend_step T b b' \<Longrightarrow> sound b \<Longrightarrow> sound b'"
  by (elim backend_stepE) (auto intro: keepsD keeps_rules)

text \<open>Boot and start.\<close>

lemma settle_boot_sound:
  assumes b: "sound b"
  shows "wp (settleNetwork T commit True reason) (\<lambda>_. sound) (\<lambda>_. sound) b"
  unfolding wp_settleNetwork settle_event_def
  by (simp only: wp_rules | intro vc | simp add: quiet_env soundD [OF b] sound_world [OF b]
      | simp add: sound_def soundD [OF b])+

lemma recover_boot_sound: "keeps sound (recoverNetwork T True)"
proof (rule keepsI)
  fix b assume b: "sound b"
  then show "wp (recoverNetwork T True) (\<lambda>_. sound) (\<lambda>_. sound) b"
    unfolding recoverNetwork_def
    by (auto simp: wp_rules quiet_env sound_world intro!: wp_quiet settle_boot_sound)
qed

lemma boot_policies_sound [keeps_rules]: "keeps sound (boot_policies T)"
  unfolding boot_policies_def
  by (rule keepsI) (simp only: wp_rules | intro vc | simp add: quiet_env sound_world)+

lemma boot_hostname_sound [keeps_rules]: "keeps sound (boot_hostname T p)"
proof (rule keepsI)
  fix b assume b: "sound b"
  have "sound (b\<lparr>bk_state := bk_state b\<lparr>st_configuration := c\<rparr>, bk_world := w\<rparr>)"
    if "ghost w = ghost (bk_world b)" for c w
    using b that by (simp add: sound_def offered_def)
  note conf = this
  show "wp (boot_hostname T p) (\<lambda>_. sound) (\<lambda>_. sound) b"
    unfolding boot_hostname_def 
    by (cases "pf_boot_preferences p")
       (simp_all only: option.case wp_rules, simp add: b,
        (intro vc | simp add: b conf quiet_env soundD [OF b] | simp add: sound_def offered_def soundD [OF b])+)
qed

definition loaded :: "'w traced backend \<Rightarrow> bool" where
  "loaded b =
     (sound b \<and> (st_reset_intent (bk_state b) \<longrightarrow>
        records E (fst (ghost (bk_world b))) st_reset_intent))"

lemma wp_removals:
  assumes "mine b" and "honest (ghost (bk_world b)) (bk_storage_failed b)"
    and "records E (fst (ghost (bk_world b))) st_reset_intent"
    and "\<And>w. fst (ghost w) = fst (ghost (bk_world b)) \<Longrightarrow> honest (ghost w) (bk_storage_failed b) \<Longrightarrow> Q () (b\<lparr>bk_world := w\<rparr>)"
    and "\<And>e w. fst (ghost w) = fst (ghost (bk_world b)) \<Longrightarrow> honest (ghost w) (bk_storage_failed b) \<Longrightarrow> R e (b\<lparr>bk_world := w\<rparr>)"
  shows "wp (for_io (\<lambda>path. ext (en_durableRemove T path)) ps) Q R b"
  using assms
proof (induction ps arbitrary: b)
  case Nil
  from Nil(4) [OF refl Nil(2)] show ?case by (simp add: wp_rules)
next
  case (Cons p ps)
  have "wp (for_io (\<lambda>path. ext (en_durableRemove T path)) ps) Q R (b\<lparr>bk_world := w\<rparr>)"
    if "fst (ghost w) = fst (ghost (bk_world b))" "honest (ghost w) (bk_storage_failed b)" for w
    using that Cons.prems by (intro Cons.IH) simp_all
  with Cons.prems show ?case
    unfolding for_io.simps wp_seq effect_env by (intro wp_effect) simp_all
qed

lemma finish_reset_sound:
  assumes b: "loaded b" and intent: "st_reset_intent (bk_state b)"
  shows "wp (finish_reset T p) (\<lambda>_. sound) (\<lambda>_. sound) b"
proof -
  have s: "sound b" and r: "records E (fst (ghost (bk_world b))) st_reset_intent"
    using assms by (simp_all add: loaded_def)
  then have some: "fst (ghost (bk_world b)) \<noteq> None" by (auto simp: records_def)
  have world: "sound (b\<lparr>bk_world := w\<rparr>)"
    if "fst (ghost w) = fst (ghost (bk_world b))" "honest (ghost w) (bk_storage_failed b)" for w
    using s that by (simp add: sound_def)
  have idle: "\<not> is_pending (s\<lparr>st_pending := default_pending\<rparr>)" for s
    by (simp add: is_pending_def default_pending_def default_network_transaction_def)
  have same: "ghost w = ghost (bk_world b)" if "snd (ghost w) = snd (ghost (bk_world b))"
    "fst (ghost (bk_world b)) = None \<or> fst (ghost w) = fst (ghost (bk_world b))" for w
    using that some by (simp add: prod_eq_iff)
  have rest: "wp (seq (boot_policies T)
      (seq (upd_state (\<lambda>s. s\<lparr>st_reset_intent := False\<rparr>))
      (seq (upd_job (\<lambda>j. j\<lparr>jb_state := ''completed''\<rparr>))
      (seq (persist T)
      (bind (gets bk_state) (\<lambda>s.
        event T ''device_reset_completed'' ''administration'' ''Device reset completed''
          (st_job_actor s) ''device_reset'' ''completed'' ''device'' info (st_job_request_id s)))))))
      (\<lambda>_. sound) (\<lambda>_. sound) b'" if "sound b'" "\<not> is_pending (bk_state b')" for b'
    unfolding boot_policies_def
    by (simp only: wp_rules | intro vc
        | simp add: that quiet_env sound_world soundD [OF that(1)]
        | simp add: sound_def that soundD [OF that(1)])+
  have reset: "sound (b\<lparr>bk_world := w, bk_state := bk_state b\<lparr>st_configuration := c, st_initialized := True, st_pending := default_pending\<rparr>\<rparr>)"
    if "fst (ghost w) = fst (ghost (bk_world b))" "honest (ghost w) (bk_storage_failed b)" for c w
    using s that idle [of "bk_state b\<lparr>st_configuration := c, st_initialized := True\<rparr>"] by (simp add: sound_def)
  have status: "wp (cond x (bind (storageStatus T path) (\<lambda>(_, reset_prepared). guard reset_prepared e)))
      (\<lambda>_ b'. \<exists>w. b' = b\<lparr>bk_world := w\<rparr> \<and> ghost w = ghost (bk_world b)) (\<lambda>_. sound) b" for x path e
  proof (cases x)
    case False
    then show ?thesis by (auto simp: wp_rules intro: exI [of _ "bk_world b"])
  next
    case True
    show ?thesis
      unfolding wp_cond wp_bind if_P [OF True]
      by (intro wp_read; frule (1) same) (auto simp: wp_rules sound_world [OF s])
  qed
  have removals: "wp (for_io (\<lambda>path. ext (en_durableRemove T path)) ps)
      (\<lambda>_ b'. \<exists>w. b' = b\<lparr>bk_world := w\<rparr> \<and> fst (ghost w) = fst (ghost (bk_world b)) \<and>
        honest (ghost w) (bk_storage_failed b)) (\<lambda>_. sound) (b\<lparr>bk_world := w\<rparr>)"
    if "ghost w = ghost (bk_world b)" for w ps
    by (rule wp_removals) (use that r s world in \<open>auto simp: soundD\<close>)
  show ?thesis
    unfolding finish_reset_def
    apply (subst wp_seq, rule status [THEN wp_mono])
    apply (elim exE conjE, simp only:, subst wp_seq, rule removals [THEN wp_mono], assumption)
    apply (elim exE conjE, simp only:, subst wp_seq, subst wp_modify, rule rest)
    by (simp_all add: reset idle)
qed

lemma bootstrap_sound:
  assumes "loaded b"
  shows "wp (bootstrap T) (\<lambda>_. sound) (\<lambda>_. sound) b"
proof -
  from assms have b: "sound b" by (simp add: loaded_def)
  have hostname: "wp (boot_hostname T p) (\<lambda>_. sound) (\<lambda>_. sound) b'" if "sound b'" for b' p
    using boot_hostname_sound that by (simp add: keeps_wp)
  have first: "wp (seq (upd_state (\<lambda>s. s\<lparr>st_configuration := c\<rparr>))
      (seq (boot_policies T) (seq (upd_state (\<lambda>s. s\<lparr>st_initialized := True\<rparr>)) (persist T))))
      (\<lambda>_. sound) (\<lambda>_. sound) b" for c
    unfolding boot_policies_def
    by (simp only: wp_rules | intro vc
        | simp add: quiet_env soundD [OF b]
        | use b in \<open>simp add: sound_def offered_def\<close>)+
  have serve: "wp (seq (recoverNetwork T True) (boot_policies T)) (\<lambda>_. sound) (\<lambda>_. sound) b"
    using b keeps_seq [OF recover_boot_sound boot_policies_sound] by (simp add: keeps_wp)
  have clock: "wp (ext (en_clockBootPolicy T t)) (\<lambda>_. sound) (\<lambda>_. sound) b" for t
    using b by (auto intro!: keeps_quiet quiet_env)
  show ?thesis
    unfolding bootstrap_def
    apply (subst wp_bind, subst wp_gets, simp only: case_prod_conv, subst wp_seq, rule wp_mono)
    apply (use finish_reset_sound [OF assms] first serve clock in \<open>auto split: option.split\<close>)[1]
    by (simp_all add: hostname)
qed

lemma start_job_sound [keeps_rules]: "keeps sound (start_job T)"
proof (rule keepsI)
  fix b assume b: "sound b"
  show "wp (start_job T) (\<lambda>_. sound) (\<lambda>_. sound) b"
    unfolding start_job_def
    by (simp only: wp_rules split: if_split | intro vc conjI impI
        | simp add: b quiet_env soundD [OF b]
        | simp add: sound_def offered_def soundD [OF b])+
qed

lemma start_sound: "keeps sound (start T)"
proof (rule keepsI)
  fix b assume b: "sound b"
  have rest: "wp (seq (recoverNetwork T False) (start_job T)) (\<lambda>_. sound) (\<lambda>_. sound) b'" if "sound b'" for b'
    using that keeps_seq [OF recoverNetwork_sound start_job_sound] by (simp add: keeps_wp)
  have first: "wp (cond x (bind (ext (en_discover T)) (\<lambda>c.
               seq (upd_state (\<lambda>s. s\<lparr>st_configuration := c\<rparr>))
               (seq (of_result (validate c))
               (seq (upd_state (\<lambda>s. s\<lparr>st_initialized := True\<rparr>)) (persist T))))))
     (\<lambda>_. sound) (\<lambda>_. sound) b" for x
    by (simp only: wp_rules split: if_split | intro vc conjI impI
        | simp add: b quiet_env soundD [OF b]
        | use b in \<open>simp add: sound_def offered_def\<close>)+
  show "wp (start T) (\<lambda>_. sound) (\<lambda>_. sound) b"
  proof (cases "st_reset_intent (bk_state b)")
    case True
    then show ?thesis
      unfolding start_def by (auto simp: wp_rules quiet_env b sound_world intro!: vc)
  next
    case False
    then show ?thesis
      unfolding start_def wp_bind wp_gets wp_if if_not_P [OF False]
      by (subst wp_seq, intro first [THEN wp_mono]) (simp_all add: rest)
  qed
qed

lemma make_backend_loaded:
  assumes "make_backend T profile t = (Inr b, t')" and "ghost t = (None, False, log)"
    and "\<forall>e\<in>set log. covered E e"
  shows "loaded b"
proof -
  have fresh: "\<not> is_pending default_state"
    "\<not> st_reset_intent default_state"
    by (simp_all add: is_pending_def default_defs)
  have fill: "is_pending (fill_ptp profile s) = is_pending s" "same_offer (fill_ptp profile s) = same_offer s"
    "st_reset_intent (fill_ptp profile s) = st_reset_intent s" for s
    by (simp_all add: fill_ptp_def Let_def)
  let ?P = "\<lambda>s t. snd (ghost t) = (False, log) \<and>
      (is_pending s \<longrightarrow> records E (fst (ghost t)) (same_offer s)) \<and>
      (st_reset_intent s \<longrightarrow> records E (fst (ghost t)) st_reset_intent)"
  have read: "wp (en_readFile T (journal_path profile)) (\<lambda>js. wp (of_result (en_decodeState T js)) ?P (\<lambda>_ _. True))
      (\<lambda>_ _. True) t1" if "ghost t1 = (None, False, log)" for t1
  proof -
    obtain r w where "en_readFile E (journal_path profile) (tr_world t1) = (r, w)" by fastforce
    moreover have "en_readFile T = traced_read (journal_path profile) E" "en_decodeState T = en_decodeState E"
      by (simp_all add: traced_env_def)
    ultimately show ?thesis
      using that by (auto simp: wp_def of_result_def traced_read_def bind_def lift_def seq_def cond_def modify_def
          ret_def ghost_def records_def split: sum.split)
  qed
  have "wp (load_state T profile) ?P (\<lambda>_ _. True) t"
    unfolding load_state_def wp_rules
    by (intro keeps_then [where I = "\<lambda>t. ghost t = (None, False, log)"] quiet_env assms(2))
       (simp_all add: read fresh)
  then have "wp (make_backend T profile) (\<lambda>b _. loaded b) (\<lambda>_ _. True) t"
    unfolding make_backend_def wp_bind
    by (rule wp_mono) (use assms(3) in \<open>auto simp: wp_def loaded_def sound_def mine_def offered_def fill prod_eq_iff ghost_def\<close>)
  with assms(1) show ?thesis by (simp add: wp_run)
qed

end

text \<open>
  A run of the daemon process: it constructs a backend, then boots the device or starts and serves
  requests, in any order and with any outcome.
\<close>

inductive process :: "'w env \<Rightarrow> profile \<Rightarrow> 'w \<Rightarrow> 'w backend \<Rightarrow> bool" for E p w where
  process_booted: "make_backend E p w = (Inr b, w') \<Longrightarrow> process E p w (snd (bootstrap E b))"
| process_started: "make_backend E p w = (Inr b, w') \<Longrightarrow> process E p w (snd (start E b))"
| process_served: "process E p w b \<Longrightarrow> backend_step E b b' \<Longrightarrow> process E p w b'"

context write_ahead
begin

lemma process_sound:
  assumes "process T profile t b" and "ghost t = (None, False, [])"
  shows "sound b"
  using assms
proof (induction rule: process.induct)
  case (process_booted b w')
  then have "loaded b" using make_backend_loaded [OF process_booted(1)] by simp
  from bootstrap_sound [OF this] show ?case by (simp add: wp_state)
next
  case (process_started b w')
  then have "sound b" using make_backend_loaded [OF process_started(1)] by (simp add: loaded_def)
  then show ?case using start_sound by (rule keepsD [rotated])
next
  case (process_served b b')
  then show ?case using backend_step_sound by blast
qed

lemma effects_covered:
  assumes "process T profile t b" and "ghost t = (None, False, [])" and "e \<in> set (tr_log (bk_world b))"
  shows "covered E e"
  using process_sound [OF assms(1,2)] assms(3) by (simp add: sound_def ghost_def)

end

section \<open>The write-ahead discipline\<close>


definition reset_state :: state where
  "reset_state = default_state\<lparr>st_reset_intent := True\<rparr>"

definition reset_journal :: string where
  "reset_journal = (case plain_encode reset_state of Inr js \<Rightarrow> js | Inl _ \<Rightarrow> [])"

definition resetting :: "64 word list env" where
  "resetting = ticking\<lparr>en_exists := (\<lambda>_. ret True), en_readFile := (\<lambda>_. ret reset_journal),
     en_durableRemove := (\<lambda>_. throw UnknownException)\<rparr>"

interpretation resetting: write_ahead resetting profile for profile
  by unfold_locales (simp add: resetting_def ticking_def plain_encode_def)

definition reset_profile :: profile where
  "reset_profile = example_profile\<lparr>pf_reset_paths := [''/data/app'']\<rparr>"

definition reset_backend :: "64 word list traced backend" where
  "reset_backend =
     \<lparr>bk_profile = reset_profile, bk_state = reset_state, bk_carriers = (\<lambda>_. None),
      bk_next_network_observation = 0, bk_storage_failed = False, bk_job_deadline = 0,
      bk_world = \<lparr>tr_world = [], tr_journal = Some reset_journal, tr_broken = False, tr_log = []\<rparr>\<rparr>"

lemma reset_decodes: "plain_decode reset_journal = Inr reset_state"
  unfolding reset_journal_def by (rule plain_roundtrip) (simp add: plain_encode_def)

lemma reset_constructs:
  "\<exists>t'. make_backend (traced_env (journal_path reset_profile) resetting) reset_profile
     \<lparr>tr_world = [], tr_journal = None, tr_broken = False, tr_log = []\<rparr> = (Inr reset_backend, t')"
  unfolding resetting_def
  by (simp add: make_backend_def load_state_def traced_env_def lift_def example_eval traced_read_def reset_decodes
      reset_backend_def fill_ptp_def reset_state_def reset_profile_def example_profile_def default_profile_def)

lemma reset_removes:
  "tr_log (bk_world (snd (bootstrap (traced_env (journal_path reset_profile) resetting) reset_backend))) =
     [(PathRemoved ''/data/app'', Some reset_journal, False)]"
  unfolding resetting_def
  by (simp add: bootstrap_def finish_reset_def traced_env_def lift_def logged_def example_eval
      reset_backend_def reset_state_def reset_profile_def example_profile_def default_profile_def)


end
