(* ===== verification/Daemon.thy ===== *)
theory Daemon
  imports Access_Policy Protocol Write_Ahead
begin

text \<open>
  The daemon process (main.cpp): the handler of every bus call with its peer check, dispatch, audit
  identity and error replies, the start of the service, and the worker that ticks the backend and
  processes the bus. The bus, the account database, the JSON library and the call sites' source
  locations are parameters.
\<close>

section \<open>Messages and the logger\<close>

record bus_message =
  bm_member :: "string option"
  bm_credentials :: bool
  bm_euid :: "32 word option"
  bm_body :: "string option"

record surroundings =
  sr_codec :: codec
  sr_account :: "string \<Rightarrow> 32 word option"
  sr_location :: "string \<Rightarrow> source_location"

definition logger :: log_base where
  "logger = \<lparr>lb_component = ''system'', lb_module = ''lifecycle'', lb_audience = developer\<rparr>"

definition logger_write :: "'w env \<Rightarrow> surroundings \<Rightarrow> priority \<Rightarrow> string \<Rightarrow> string \<Rightarrow> field list \<Rightarrow>
    ('w backend, unit) io" where
  "logger_write E S p message event_name extra = (\<lambda>b.
     case en_sink E (developer_record logger p message event_name extra (sr_location S event_name)) (bk_world b) of
       (_, w) \<Rightarrow> (Inr (), b\<lparr>bk_world := w\<rparr>))"

section \<open>Read-only operations of the backend\<close>

definition backend_time :: "'w env \<Rightarrow> ('w backend, time_status) io" where
  "backend_time E = ext (en_time E)"

definition backend_timezones :: "'w env \<Rightarrow> ('w backend, string list) io" where
  "backend_timezones E = ext (en_timezones E)"

definition backend_timezoneCatalog :: "'w env \<Rightarrow> ('w backend, timezone_catalog) io" where
  "backend_timezoneCatalog E = ext (en_timezoneCatalog E)"

definition backend_temperatures :: "'w env \<Rightarrow> ('w backend, temperature list) io" where
  "backend_temperatures E = ext (en_temperatures E)"

section \<open>Dispatch\<close>

definition decode_as :: "'a glaze \<Rightarrow> string \<Rightarrow> ('s, 'a) io" where
  "decode_as g json = of_result (decode g max_message_size json)"

definition encode_as :: "'a glaze \<Rightarrow> 'a \<Rightarrow> ('s, string) io" where
  "encode_as g v = of_result (encode g v)"

text \<open>The audit identity of a call, by the peer and the account the operation belongs to.\<close>

definition audit_of :: "surroundings \<Rightarrow> profile \<Rightarrow> 32 word \<Rightarrow> audit_context \<Rightarrow> bool \<Rightarrow> audit_context" where
  "audit_of S profile uid v settings_peer =
     trustedAuditContext v uid
       (sr_account S (if settings_peer then pf_settings_user profile else pf_control_user profile))"

text \<open>The chain of operations; the result is the \<open>json\<close> of the reply, empty where none is set.\<close>

definition dispatch :: "'w env \<Rightarrow> surroundings \<Rightarrow> profile \<Rightarrow> 32 word \<Rightarrow> string \<Rightarrow> string \<Rightarrow>
    ('w backend, string) io" where
  "dispatch E S profile uid name json =
     (let C = sr_codec S; context = audit_of S profile uid in
      if name = ''GetStatus''
      then seq (decode_as (cd_empty C) json) (bind (status E) (encode_as (cd_status C)))
      else if name = ''GetTime''
      then seq (decode_as (cd_empty C) json) (bind (backend_time E) (encode_as (cd_time C)))
      else if name = ''ListTimezones''
      then seq (decode_as (cd_empty C) json) (bind (backend_timezones E) (encode_as (cd_names C)))
      else if name = ''GetTimezoneCatalog''
      then seq (decode_as (cd_empty C) json) (bind (backend_timezoneCatalog E) (encode_as (cd_catalog C)))
      else if name = ''GetTemperatures''
      then seq (decode_as (cd_empty C) json) (bind (backend_temperatures E) (encode_as (cd_temperatures C)))
      else if name = ''ApplyPreferences''
      then bind (decode_as (cd_configuration C) json) (\<lambda>c. seq (apply_preferences E c) (ret ''''))
      else if name = ''BeginNetwork''
      then bind (decode_as (cd_proposal C) json) (\<lambda>proposal.
             bind (beginNetwork E proposal (ac_actor (context (np_audit_context proposal) True))
                     (ac_request_id (context (np_audit_context proposal) True)))
               (encode_as (cd_transaction C)))
      else if name = ''GetNetworkTransaction''
      then seq (decode_as (cd_empty C) json) (bind (networkTransaction E) (encode_as (cd_transaction C)))
      else if name = ''PrepareNetworkCommit''
      then bind (decode_as (cd_id C) json) (\<lambda>v. seq (prepareNetworkCommit E (iq_id v)) (ret ''''))
      else if name = ''FinishNetwork''
      then bind (decode_as (cd_finish C) json) (\<lambda>v.
             seq (finishNetwork E (fq_id v) (fq_commit v) (ac_actor (context (fq_audit_context v) True))
                    (ac_request_id (context (fq_audit_context v) True))) (ret ''''))
      else if name = ''Power''
      then bind (decode_as (cd_power C) json) (\<lambda>request.
             bind (power E (pq_action request) (ac_actor (context (pq_audit_context request) False))
                     (ac_request_id (context (pq_audit_context request) False)))
               (encode_as (cd_job C)))
      else if name = ''ResetDevice''
      then bind (decode_as (cd_reset C) json) (\<lambda>request.
             bind (resetDevice E (rq_confirmed request) (ac_actor (context (rq_audit_context request) False))
                     (ac_request_id (context (rq_audit_context request) False)))
               (encode_as (cd_job C)))
      else if name = ''GetJob''
      then seq (decode_as (cd_empty C) json) (bind job_status (encode_as (cd_job C)))
      else throw (Error unsupported ''unknown system operation''))"

text \<open>The body of the handler: who calls, may they, what do they send, and the record of it.\<close>

definition handle :: "'w env \<Rightarrow> surroundings \<Rightarrow> bus_message \<Rightarrow> ('w backend, string) io" where
  "handle E S m =
     seq (guard (bm_credentials m) (Error permission_denied ''peer identity unavailable''))
     (case bm_euid m of
        None \<Rightarrow> throw (Error permission_denied ''peer UID unavailable'')
      | Some uid \<Rightarrow>
          (let name = (case bm_member m of None \<Rightarrow> '''' | Some n \<Rightarrow> n) in
           bind (gets bk_profile) (\<lambda>profile.
           seq (guard (allowed name uid (sr_account S (pf_settings_user profile))
                         (sr_account S (pf_control_user profile)))
                  (Error permission_denied ''operation is not allowed for this service identity''))
           (case bm_body m of
              None \<Rightarrow> throw (Error invalid_argument ''missing request'')
            | Some json \<Rightarrow>
                bind (dispatch E S profile uid name json) (\<lambda>r.
                seq (cond (settingsOperation name \<or> controlOperation name)
                       (logger_write E S notice ''system operation accepted'' ''system_operation''
                          [\<lparr>fd_name = ''MNC_OPERATION'', fd_value = name\<rparr>,
                           \<lparr>fd_name = ''MNC_PEER_UID'', fd_value = to_string (unat uid)\<rparr>]))
                  (ret r))))))"

fun error_reply :: "exn \<Rightarrow> reply" where
  "error_reply (Error c message) = \<lparr>re_code = c, re_message = message, re_json = ''''\<rparr>"
| "error_reply (StdException what) = \<lparr>re_code = internal_error, re_message = what, re_json = ''''\<rparr>"
| "error_reply UnknownException =
     \<lparr>re_code = internal_error, re_message = ''system operation failed'', re_json = ''''\<rparr>"

text \<open>\<open>Daemon::request\<close>: the text of the reply, or \<open>None\<close> for \<open>-ENOMEM\<close>.\<close>

definition request :: "'w env \<Rightarrow> surroundings \<Rightarrow> bus_message \<Rightarrow> ('w backend, string option) io" where
  "request E S m =
     bind (catch (bind (handle E S m) (\<lambda>json. ret \<lparr>re_code = none, re_message = '''', re_json = json\<rparr>))
             (\<lambda>e. ret (error_reply e))) (\<lambda>reply.
     seq (cond (re_code reply \<noteq> none)
            (logger_write E S warning (re_message reply) ''system_operation_rejected'' []))
       (ret (case encode (cd_reply (sr_codec S)) reply of Inl _ \<Rightarrow> None | Inr js \<Rightarrow> Some js)))"

section \<open>The service\<close>

text \<open>\<open>Daemon::on_start\<close>; the outcomes of opening the bus and registering on it are arguments.\<close>

definition on_start :: "'w env \<Rightarrow> bool \<Rightarrow> bool \<Rightarrow> ('w backend, unit) io" where
  "on_start E bus_open registered =
     seq (start E)
     (seq (guard bus_open (Error unavailable ''cannot open system bus''))
          (guard registered (Error unavailable ''cannot register system manager'')))"

text \<open>What one call of \<open>sd_bus_process\<close> finds.\<close>

datatype bus_event = Disconnected | Quiet | Incoming bus_message

text \<open>The loop of the worker, over what it finds on the bus until a stop is requested.\<close>

fun worker_loop :: "'w env \<Rightarrow> surroundings \<Rightarrow> bus_event list \<Rightarrow> ('w backend, unit) io" where
  "worker_loop E S [] = ret ()"
| "worker_loop E S (found # events) =
     seq (tick E)
     (seq (case found of
             Disconnected \<Rightarrow> throw (Error unavailable ''system bus disconnected'')
           | Quiet \<Rightarrow> ret ()
           | Incoming m \<Rightarrow> bind (request E S m) (\<lambda>_. ret ()))
          (worker_loop E S events))"

text \<open>
  The worker's thread: the result is \<open>failed_\<close>. An object that is no \<open>std::exception\<close> passes its
  handler and ends the process.
\<close>

definition worker :: "'w env \<Rightarrow> surroundings \<Rightarrow> bus_event list \<Rightarrow> ('w backend, bool) io" where
  "worker E S events =
     catch (seq (worker_loop E S events) (ret False))
       (\<lambda>e. case e of
          UnknownException \<Rightarrow> throw e
        | _ \<Rightarrow> seq (logger_write E S error (exn_what e) ''system_worker_failed'' []) (ret True))"

section \<open>What a request can change\<close>

text \<open>The operations a peer of each account can reach.\<close>

inductive settings_step :: "'w env \<Rightarrow> 'w backend \<Rightarrow> 'w backend \<Rightarrow> bool" for E where
  by_apply: "settings_step E b (snd (apply_preferences E config b))"
| by_begin: "settings_step E b (snd (beginNetwork E p actor rid b))"
| by_prepare: "settings_step E b (snd (prepareNetworkCommit E i b))"
| by_finish: "settings_step E b (snd (finishNetwork E i commit actor rid b))"

inductive control_step :: "'w env \<Rightarrow> 'w backend \<Rightarrow> 'w backend \<Rightarrow> bool" for E where
  by_power: "control_step E b (snd (power E action actor rid b))"
| by_reset: "control_step E b (snd (resetDevice E confirmed actor rid b))"

inductive public_step :: "'w env \<Rightarrow> 'w backend \<Rightarrow> 'w backend \<Rightarrow> bool" for E where
  by_none: "public_step E b b"
| by_status: "public_step E b (snd (status E b))"
| by_time: "public_step E b (snd (backend_time E b))"
| by_timezones: "public_step E b (snd (backend_timezones E b))"
| by_catalog: "public_step E b (snd (backend_timezoneCatalog E b))"
| by_temperatures: "public_step E b (snd (backend_temperatures E b))"
| by_transaction: "public_step E b (snd (networkTransaction E b))"

lemma settings_backend_step: "settings_step E b b' \<Longrightarrow> backend_step E b b'"
  by (cases rule: settings_step.cases) (auto intro: backend_step.intros)

lemma control_backend_step: "control_step E b b' \<Longrightarrow> backend_step E b b'"
  by (cases rule: control_step.cases) (auto intro: backend_step.intros)

text \<open>Running an operation between a pure decoding and a pure encoding.\<close>

lemma snd_bind_pure: "snd (bind m (\<lambda>x. of_result (f x)) b) = snd (m b)" "snd (bind m (\<lambda>x. ret (g x)) b) = snd (m b)"
  by (auto simp: bind_def of_result_def ret_def split: prod.split sum.split)

lemma snd_seq_ret: "snd (seq m (ret x) b) = snd (m b)"
  by (auto simp: seq_def bind_def ret_def split: prod.split sum.split)

lemma of_result_bind: "bind (of_result r) k b = (case r of Inl e \<Rightarrow> (Inl e, b) | Inr x \<Rightarrow> k x b)"
  by (simp add: bind_def of_result_def split: sum.split)

lemma of_result_seq: "seq (of_result r) k b = (case r of Inl e \<Rightarrow> (Inl e, b) | Inr x \<Rightarrow> k b)"
  by (simp add: seq_def of_result_bind)

text \<open>Every operation the dispatcher runs is one the caller's class of operations contains.\<close>

lemma dispatch_steps:
  "settingsOperation name \<and> settings_step E b (snd (dispatch E S profile uid name json b)) \<or>
   controlOperation name \<and> control_step E b (snd (dispatch E S profile uid name json b)) \<or>
   public_step E b (snd (dispatch E S profile uid name json b))"
  unfolding dispatch_def Let_def decode_as_def encode_as_def
  by (simp add: of_result_bind of_result_seq snd_bind_pure snd_seq_ret throw_def settingsOperation_def
      controlOperation_def job_status_def gets_def settings_step.intros control_step.intros public_step.intros
      split: sum.split)

text \<open>Log writes change nothing but the surroundings, through the sink.\<close>

definition logs :: "'w env \<Rightarrow> 'w backend \<Rightarrow> 'w backend \<Rightarrow> bool" where
  "logs E b b' =
     (\<exists>w. (\<lambda>w w'. \<exists>entry. w' = snd (en_sink E entry w))\<^sup>*\<^sup>* (bk_world b) w \<and> b' = b\<lparr>bk_world := w\<rparr>)"

lemma logs_refl: "logs E b b"
  by (auto simp: logs_def intro: exI [of _ "bk_world b"])

lemma logger_write_runs:
  "logger_write E S p message ev extra b = (Inr (), snd (logger_write E S p message ev extra b))"
  by (simp add: logger_write_def split: prod.split)

lemma logs_write: "logs E b b' \<Longrightarrow> logs E b (snd (logger_write E S p message ev extra b'))"
proof -
  let ?r = "developer_record logger p message ev extra (sr_location S ev)"
  assume "logs E b b'"
  then obtain w where w: "(\<lambda>w w'. \<exists>entry. w' = snd (en_sink E entry w))\<^sup>*\<^sup>* (bk_world b) w"
    and b': "b' = b\<lparr>bk_world := w\<rparr>" by (auto simp: logs_def)
  have "snd (logger_write E S p message ev extra b') = b\<lparr>bk_world := snd (en_sink E ?r w)\<rparr>"
    by (simp add: logger_write_def b' split: prod.split)
  moreover have "(\<lambda>w w'. \<exists>entry. w' = snd (en_sink E entry w))\<^sup>*\<^sup>* (bk_world b) (snd (en_sink E ?r w))"
    using w by (rule rtranclp.rtrancl_into_rtrancl) blast
  ultimately show ?thesis by (auto simp: logs_def)
qed

lemma cond_log:
  "cond x (logger_write E S p message ev extra) b =
     (Inr (), if x then snd (logger_write E S p message ev extra b) else b)"
  by (cases x) (simp_all add: cond_def ret_def logger_write_runs [symmetric])

lemma handle_steps:
  "\<exists>b1. logs E b1 (snd (handle E S m b)) \<and>
     (public_step E b b1 \<or>
      (\<exists>uid. bm_credentials m \<and> bm_euid m = Some uid \<and>
        (settings_step E b b1 \<and> (uid = 0 \<or> sr_account S (pf_settings_user (bk_profile b)) = Some uid) \<or>
         control_step E b b1 \<and> (uid = 0 \<or> sr_account S (pf_control_user (bk_profile b)) = Some uid))))"
proof (cases "\<exists>uid json. bm_credentials m \<and> bm_euid m = Some uid \<and> bm_body m = Some json \<and>
    allowed (case bm_member m of None \<Rightarrow> '''' | Some n \<Rightarrow> n) uid (sr_account S (pf_settings_user (bk_profile b)))
      (sr_account S (pf_control_user (bk_profile b)))")
  case False
  then have "snd (handle E S m b) = b"
    by (auto simp: handle_def Let_def seq_def bind_def guard_def gets_def ret_def throw_def split: option.split)
  then show ?thesis using logs_refl public_step.by_none by metis
next
  case True
  then obtain uid json where m: "bm_credentials m" "bm_euid m = Some uid" "bm_body m = Some json"
    and ok: "allowed (case bm_member m of None \<Rightarrow> '''' | Some n \<Rightarrow> n) uid
      (sr_account S (pf_settings_user (bk_profile b))) (sr_account S (pf_control_user (bk_profile b)))" by blast
  let ?name = "case bm_member m of None \<Rightarrow> '''' | Some n \<Rightarrow> n"
  let ?b1 = "snd (dispatch E S (bk_profile b) uid ?name json b)"
  have "logs E ?b1 (snd (handle E S m b))"
    using m ok logs_refl [of E ?b1]
    by (cases "dispatch E S (bk_profile b) uid ?name json b")
       (auto simp: handle_def Let_def seq_def bind_def guard_def gets_def ret_def cond_log intro: logs_write
         split: sum.split)
  moreover have "settingsOperation ?name \<Longrightarrow> uid = 0 \<or> sr_account S (pf_settings_user (bk_profile b)) = Some uid"
    "controlOperation ?name \<Longrightarrow> uid = 0 \<or> sr_account S (pf_control_user (bk_profile b)) = Some uid"
    using ok by (auto simp: allowed_def settingsOperation_def controlOperation_def split: if_splits)
  ultimately show ?thesis
    using dispatch_steps [of ?name E b S "bk_profile b" uid json] m by blast
qed

text \<open>
  C7: a bus request changes the backend by at most one of its operations, apart from log records: an
  operation that changes settings only if the peer is root or the account of the settings authority,
  one that controls power only if it is root or the control account, and otherwise only one that
  everyone may call.
\<close>

theorem request_authorised:
  "\<exists>b1. logs E b1 (snd (request E S m b)) \<and>
     (public_step E b b1 \<or>
      (\<exists>uid. bm_credentials m \<and> bm_euid m = Some uid \<and>
        (settings_step E b b1 \<and> (uid = 0 \<or> sr_account S (pf_settings_user (bk_profile b)) = Some uid) \<or>
         control_step E b b1 \<and> (uid = 0 \<or> sr_account S (pf_control_user (bk_profile b)) = Some uid))))"
proof -
  have "logs E b1 (snd (request E S m b))" if "logs E b1 (snd (handle E S m b))" for b1
    using that
    by (cases "handle E S m b")
       (auto simp: request_def seq_def bind_def catch_def ret_def cond_log intro: logs_write split: sum.split)
  then show ?thesis using handle_steps by blast
qed

text \<open>Why a request is refused before its operation is looked at.\<close>

definition refused_message :: "surroundings \<Rightarrow> profile \<Rightarrow> bus_message \<Rightarrow> string option" where
  "refused_message S profile m =
     (if \<not> bm_credentials m then Some ''peer identity unavailable''
      else case bm_euid m of None \<Rightarrow> Some ''peer UID unavailable''
        | Some uid \<Rightarrow>
            if allowed (case bm_member m of None \<Rightarrow> '''' | Some n \<Rightarrow> n) uid
                 (sr_account S (pf_settings_user profile)) (sr_account S (pf_control_user profile))
            then None else Some ''operation is not allowed for this service identity'')"

lemma handle_refused:
  "refused_message S (bk_profile b) m = Some message \<Longrightarrow>
     handle E S m b = (Inl (Error permission_denied message), b)"
  by (auto simp: refused_message_def handle_def Let_def seq_def bind_def guard_def gets_def ret_def throw_def
      split: if_splits option.splits)

text \<open>
  C9: a request of a peer without an identity, or whose identity may not call the operation, is
  answered with \<open>permission_denied\<close>, and nothing happens but the log record of the refusal: no
  operation is run, the body is not read and the platform is not called.
\<close>

theorem unauthorised_refused:
  assumes "refused_message S (bk_profile b) m = Some message"
  shows "request E S m b =
    (Inr (case encode (cd_reply (sr_codec S)) \<lparr>re_code = permission_denied, re_message = message, re_json = ''''\<rparr> of
            Inl _ \<Rightarrow> None | Inr js \<Rightarrow> Some js),
     b\<lparr>bk_world := snd (en_sink E (developer_record logger warning message ''system_operation_rejected'' []
        (sr_location S ''system_operation_rejected'')) (bk_world b))\<rparr>)"
  using handle_refused [OF assms, of E]
  by (simp add: request_def seq_def bind_def catch_def ret_def cond_def logger_write_def split: prod.split)

section \<open>The daemon is a device\<close>

text \<open>
  A platform whose queries, too, leave the journal as it is. On such a platform the worker only takes
  steps of the life of the device.
\<close>

locale served_platform = stable_storage E profile G
  for E :: "'w env" and profile :: profile and G :: "'w \<Rightarrow> bool" +
  assumes queries: "keeps G (en_time E)" "keeps G (en_timezones E)" "keeps G (en_timezoneCatalog E)"
      "keeps G (en_temperatures E)"
begin

abbreviation serving :: "'w backend \<Rightarrow> bool" where
  "serving b \<equiv> lifecycle E profile G (Up b)"

lemma serving_step: "(\<And>b. backend_step E b (snd (m b))) \<Longrightarrow> keeps serving m"
  by (auto simp: keeps_def intro: lifecycle.served)

lemma serving_ops [keeps_rules]:
  "keeps serving (status E)" "keeps serving (apply_preferences E config)"
  "keeps serving (beginNetwork E p actor rid)" "keeps serving (networkTransaction E)"
  "keeps serving (prepareNetworkCommit E i)" "keeps serving (finishNetwork E i commit actor rid)"
  "keeps serving (power E action actor rid)" "keeps serving (resetDevice E confirmed actor rid)"
  "keeps serving (tick E)"
  by (rule serving_step, rule backend_step.intros)+

lemma serving_world:
  assumes "wf_profile profile" and "serving b" and "G (bk_world b) \<Longrightarrow> G w"
  shows "serving (b\<lparr>bk_world := w\<rparr>)"
  using assms lifecycle_inv [OF assms(2,1)] by (auto simp: inv_def intro: lifecycle.surroundings)

lemma serving_ext:
  assumes "wf_profile profile" and "keeps G m"
  shows "keeps serving (ext m)"
  unfolding keeps_def ext_def
  using serving_world [OF assms(1)] keepsD [OF assms(2)] by (auto split: prod.split) (metis snd_conv)

lemma serving_log:
  assumes "wf_profile profile"
  shows "keeps serving (logger_write E S p message ev extra)"
  unfolding keeps_def logger_write_def
  using serving_world [OF assms] reads(11) by (auto split: prod.split) (metis snd_conv)

lemma serving_loop:
  assumes "wf_profile profile"
  shows "keeps serving (worker_loop E S events)"
proof -
  have reads: "keeps serving (backend_time E)" "keeps serving (backend_timezones E)"
    "keeps serving (backend_timezoneCatalog E)" "keeps serving (backend_temperatures E)"
    unfolding backend_time_def backend_timezones_def backend_timezoneCatalog_def backend_temperatures_def
    by (rule serving_ext [OF assms], rule queries)+
  note log = serving_log [OF assms]
  have "keeps serving (dispatch E S p uid name json)" for p uid name json
    unfolding dispatch_def Let_def decode_as_def encode_as_def job_status_def
    by (intro keeps_rules reads)
  then have "keeps serving (handle E S m)" for m
    unfolding handle_def Let_def
    by (auto intro!: keeps_rules log split: option.split)
  then have request: "keeps serving (request E S m)" for m
    unfolding request_def by (intro keeps_rules log)
  show ?thesis
    by (induction events) (auto intro!: keeps_rules request split: bus_event.split)
qed

lemma serving_worker:
  assumes "wf_profile profile"
  shows "keeps serving (worker E S events)"
  unfolding worker_def
  by (auto intro!: keeps_rules serving_loop serving_log assms split: exn.split)

end

context native
begin

sublocale served: served_platform "native_env encodeState decodeState readStatus sha256 P" profile "journal_safe decodeState profile"
  by unfold_locales (simp_all add: native_env_def keeps_on_platform)

lemmas worker_serves = served.serving_worker

end

text \<open>
  The daemon implements the life of the device: whatever arrives on the bus, in any order, its
  worker runs through steps of it only, so that a serving daemon keeps all its guarantees.
\<close>

theorem daemon_refines_lifecycle:
  assumes "\<And>s t js. encodeState s = Inr js \<Longrightarrow> decodeState js = Inr t \<Longrightarrow> t = s"
    and "wf_profile p"
    and "lifecycle (native_env encodeState decodeState readStatus sha256 P) p (journal_safe decodeState p) (Up b)"
  shows "lifecycle (native_env encodeState decodeState readStatus sha256 P) p (journal_safe decodeState p)
    (Up (snd (worker (native_env encodeState decodeState readStatus sha256 P) S events b)))"
  using keepsD [OF native.worker_serves [OF native.intro [OF journal_codec.intro] assms(2)] assms(3)] assms(1)
  by blast

section \<open>Examples\<close>

definition no_glaze :: "'a glaze" where
  "no_glaze = \<lparr>gz_read = (\<lambda>_. Inl ''unreadable''), gz_write = (\<lambda>_. None)\<rparr>"

definition example_codec :: codec where
  "example_codec =
     \<lparr>cd_empty = no_glaze, cd_configuration = plain_glaze put_configuration get_configuration,
      cd_proposal = no_glaze, cd_id = no_glaze, cd_finish = plain_glaze put_finish get_finish,
      cd_power = no_glaze, cd_reset = no_glaze, cd_status = no_glaze, cd_time = no_glaze,
      cd_names = no_glaze, cd_catalog = no_glaze, cd_temperatures = no_glaze, cd_transaction = no_glaze,
      cd_job = no_glaze, cd_reply = plain_glaze put_reply get_reply\<rparr>"

definition example_surroundings :: surroundings where
  "example_surroundings =
     \<lparr>sr_codec = example_codec,
      sr_account = (\<lambda>name. if name = ''settings'' then Some 101 else if name = ''control'' then Some 102 else None),
      sr_location = (\<lambda>_. \<lparr>sl_file_name = ''main.cpp'', sl_line = 1, sl_function_name = ''request''\<rparr>)\<rparr>"

definition example_message :: "string \<Rightarrow> 32 word \<Rightarrow> string \<Rightarrow> bus_message" where
  "example_message name uid json =
     \<lparr>bm_member = Some name, bm_credentials = True, bm_euid = Some uid, bm_body = Some json\<rparr>"

theorem unauthorised_refused_witness:
  "\<exists>b :: unit world backend. bk_profile b = example_profile \<and>
     bk_state (snd (request example_env example_surroundings (example_message ''Power'' 101 ''{}'') b)) = bk_state b"
proof -
  let ?b = "\<lparr>bk_profile = example_profile, bk_state = default_state, bk_carriers = (\<lambda>_. None),
     bk_next_network_observation = 0, bk_storage_failed = False, bk_job_deadline = 0,
     bk_world = example_world\<rparr> :: unit world backend"
  have "refused_message example_surroundings (bk_profile ?b) (example_message ''Power'' 101 ''{}'') =
      Some ''operation is not allowed for this service identity''"
    by (simp add: refused_message_def example_message_def example_surroundings_def example_profile_def allowed_def
        settingsOperation_def controlOperation_def)
  from unauthorised_refused [OF this, of example_env] show ?thesis by (intro exI [of _ ?b]) simp
qed

theorem daemon_refines_lifecycle_witness:
  "\<exists>b. lifecycle example_env example_profile (journal_safe plain_decode example_profile) (Up b) \<and>
     lifecycle example_env example_profile (journal_safe plain_decode example_profile)
       (Up (snd (worker example_env example_surroundings
          [Quiet, Incoming (example_message ''Power'' 102 ''{}''), Disconnected] b)))"
proof -
  obtain b where b: "lifecycle example_env example_profile (journal_safe plain_decode example_profile) (Up b)"
    using example_lifecycle by blast
  from daemon_refines_lifecycle [OF _ wf_example b [unfolded example_env_def]] plain.faithful
  have "lifecycle example_env example_profile (journal_safe plain_decode example_profile)
       (Up (snd (worker example_env example_surroundings
          [Quiet, Incoming (example_message ''Power'' 102 ''{}''), Disconnected] b)))"
    unfolding example_env_def by blast
  with b show ?thesis by blast
qed

end
