(* ===== verification/Client.thy ===== *)
theory Client
  imports Daemon
begin

text \<open>
  The client of the system manager (client.hpp, client.cpp): one bus call per request, every failure
  a value of \<open>Result\<close>. The bus is a parameter; joined to the daemon of theory Daemon it makes a
  remote call the local operation.
\<close>

section \<open>Results and the bus\<close>

record system_error =
  se_code :: error_code
  se_message :: string

type_synonym 'a sresult = "system_error + 'a"

text \<open>A failed call carries the negative errno and, where the bus sets it, the error's message.\<close>

datatype call_result = Failed int "string option" | Response "string option"

record 's bus =
  bs_open :: "('s, bool) io"
  bs_set_timeout :: "64 word \<Rightarrow> ('s, bool) io"
  bs_call :: "string \<Rightarrow> string \<Rightarrow> ('s, call_result) io"

definition EACCES :: int where "EACCES = 13"

definition ETIMEDOUT :: int where "ETIMEDOUT = 110"

definition reply_limit :: nat where
  "reply_limit = 512 * 1024"

text \<open>The constructor's check of the timeout, a signed count of milliseconds.\<close>

definition make_client :: "int \<Rightarrow> int result" where
  "make_client time_limit =
     (if time_limit \<le> 0 \<or> time_limit > 60000
      then Inl (StdException ''system manager timeout must be in (0, 60s]'') else Inr time_limit)"

text \<open>\<open>request\<close> of client.cpp, in the build with libsystemd.\<close>

definition client_request :: "'s bus \<Rightarrow> codec \<Rightarrow> string \<Rightarrow> string \<Rightarrow> int \<Rightarrow> ('s, reply sresult) io" where
  "client_request B C method_name json time_limit =
     bind (bs_open B) (\<lambda>opened.
     if \<not> opened then ret (Inl \<lparr>se_code = unavailable, se_message = ''system bus unavailable''\<rparr>)
     else bind (bs_set_timeout B (of_int time_limit * 1000)) (\<lambda>set.
     if \<not> set
     then ret (Inl \<lparr>se_code = internal_error, se_message = ''cannot set system manager request timeout''\<rparr>)
     else bind (bs_call B method_name json) (\<lambda>r.
       case r of
         Failed code message \<Rightarrow>
           ret (Inl \<lparr>se_code = (if code = - EACCES then permission_denied
                                 else if code = - ETIMEDOUT then timeout else unavailable),
                     se_message = (case message of Some m \<Rightarrow> m | None \<Rightarrow> ''system manager unavailable'')\<rparr>)
       | Response None \<Rightarrow> ret (Inl \<lparr>se_code = internal_error, se_message = ''invalid manager reply''\<rparr>)
       | Response (Some js) \<Rightarrow>
           ret (case decode (cd_reply C) reply_limit js of
                  Inr v \<Rightarrow> Inr v
                | Inl (Error c m) \<Rightarrow> Inl \<lparr>se_code = c, se_message = m\<rparr>
                | Inl _ \<Rightarrow> Inl \<lparr>se_code = internal_error, se_message = ''''\<rparr>))))"

text \<open>The handlers of \<open>call\<close>: an object that is no \<open>std::exception\<close> passes.\<close>

fun call_error :: "exn \<Rightarrow> ('s, 'a sresult) io" where
  "call_error (Error c m) = ret (Inl \<lparr>se_code = c, se_message = m\<rparr>)"
| "call_error (StdException w) = ret (Inl \<lparr>se_code = internal_error, se_message = w\<rparr>)"
| "call_error UnknownException = throw UnknownException"

text \<open>\<open>call<T>\<close>, and its instance for \<open>void\<close>, which does not look at the reply's value.\<close>

definition call :: "'s bus \<Rightarrow> codec \<Rightarrow> int \<Rightarrow> 'q glaze \<Rightarrow> 'a glaze \<Rightarrow> string \<Rightarrow> 'q \<Rightarrow> ('s, 'a sresult) io" where
  "call B C time_limit gq ga method_name v =
     catch
       (bind (of_result (encode gq v)) (\<lambda>json.
        bind (client_request B C method_name json time_limit) (\<lambda>reply.
        case reply of
          Inl e \<Rightarrow> ret (Inl e)
        | Inr r \<Rightarrow>
            if re_code r \<noteq> none then ret (Inl \<lparr>se_code = re_code r, se_message = re_message r\<rparr>)
            else bind (of_result (decode ga reply_limit (re_json r))) (\<lambda>x. ret (Inr x)))))
       call_error"

definition call_void :: "'s bus \<Rightarrow> codec \<Rightarrow> int \<Rightarrow> 'q glaze \<Rightarrow> string \<Rightarrow> 'q \<Rightarrow> ('s, unit sresult) io" where
  "call_void B C time_limit gq method_name v =
     catch
       (bind (of_result (encode gq v)) (\<lambda>json.
        bind (client_request B C method_name json time_limit) (\<lambda>reply.
        case reply of
          Inl e \<Rightarrow> ret (Inl e)
        | Inr r \<Rightarrow>
            if re_code r \<noteq> none then ret (Inl \<lparr>se_code = re_code r, se_message = re_message r\<rparr>)
            else ret (Inr ()))))
       call_error"

section \<open>The operations\<close>

definition client_status :: "'s bus \<Rightarrow> codec \<Rightarrow> int \<Rightarrow> ('s, system_status sresult) io" where
  "client_status B C t = call B C t (cd_empty C) (cd_status C) ''GetStatus'' ()"

definition client_time :: "'s bus \<Rightarrow> codec \<Rightarrow> int \<Rightarrow> ('s, time_status sresult) io" where
  "client_time B C t = call B C t (cd_empty C) (cd_time C) ''GetTime'' ()"

definition client_timezones :: "'s bus \<Rightarrow> codec \<Rightarrow> int \<Rightarrow> ('s, string list sresult) io" where
  "client_timezones B C t = call B C t (cd_empty C) (cd_names C) ''ListTimezones'' ()"

definition client_timezoneCatalog :: "'s bus \<Rightarrow> codec \<Rightarrow> int \<Rightarrow> ('s, timezone_catalog sresult) io" where
  "client_timezoneCatalog B C t = call B C t (cd_empty C) (cd_catalog C) ''GetTimezoneCatalog'' ()"

definition client_temperatures :: "'s bus \<Rightarrow> codec \<Rightarrow> int \<Rightarrow> ('s, temperature list sresult) io" where
  "client_temperatures B C t = call B C t (cd_empty C) (cd_temperatures C) ''GetTemperatures'' ()"

definition client_apply :: "'s bus \<Rightarrow> codec \<Rightarrow> int \<Rightarrow> configuration \<Rightarrow> ('s, unit sresult) io" where
  "client_apply B C t c = call_void B C t (cd_configuration C) ''ApplyPreferences'' c"

definition client_beginNetwork :: "'s bus \<Rightarrow> codec \<Rightarrow> int \<Rightarrow> network_proposal \<Rightarrow>
    ('s, network_transaction sresult) io" where
  "client_beginNetwork B C t p = call B C t (cd_proposal C) (cd_transaction C) ''BeginNetwork'' p"

definition client_networkTransaction :: "'s bus \<Rightarrow> codec \<Rightarrow> int \<Rightarrow> ('s, network_transaction sresult) io" where
  "client_networkTransaction B C t =
     call B C t (cd_empty C) (cd_transaction C) ''GetNetworkTransaction'' ()"

definition client_prepareNetworkCommit :: "'s bus \<Rightarrow> codec \<Rightarrow> int \<Rightarrow> string \<Rightarrow> ('s, unit sresult) io" where
  "client_prepareNetworkCommit B C t i =
     call_void B C t (cd_id C) ''PrepareNetworkCommit'' \<lparr>iq_id = i\<rparr>"

definition client_finishNetwork :: "'s bus \<Rightarrow> codec \<Rightarrow> int \<Rightarrow> string \<Rightarrow> bool \<Rightarrow> audit_context \<Rightarrow>
    ('s, unit sresult) io" where
  "client_finishNetwork B C t i commit context =
     call_void B C t (cd_finish C) ''FinishNetwork''
       \<lparr>fq_id = i, fq_commit = commit, fq_audit_context = context\<rparr>"

definition client_finishNetwork_anonymous :: "'s bus \<Rightarrow> codec \<Rightarrow> int \<Rightarrow> string \<Rightarrow> bool \<Rightarrow>
    ('s, unit sresult) io" where
  "client_finishNetwork_anonymous B C t i commit =
     call_void B C t (cd_finish C) ''FinishNetwork''
       \<lparr>fq_id = i, fq_commit = commit, fq_audit_context = empty_audit\<rparr>"

definition client_power :: "'s bus \<Rightarrow> codec \<Rightarrow> int \<Rightarrow> power_action \<Rightarrow> audit_context \<Rightarrow>
    ('s, job sresult) io" where
  "client_power B C t action context =
     call B C t (cd_power C) (cd_job C) ''Power'' \<lparr>pq_action = action, pq_audit_context = context\<rparr>"

definition client_resetDevice :: "'s bus \<Rightarrow> codec \<Rightarrow> int \<Rightarrow> bool \<Rightarrow> audit_context \<Rightarrow> ('s, job sresult) io" where
  "client_resetDevice B C t confirmed context =
     call B C t (cd_reset C) (cd_job C) ''ResetDevice''
       \<lparr>rq_confirmed = confirmed, rq_audit_context = context\<rparr>"

definition client_power_anonymous :: "'s bus \<Rightarrow> codec \<Rightarrow> int \<Rightarrow> power_action \<Rightarrow> ('s, job sresult) io" where
  "client_power_anonymous B C t action = client_power B C t action empty_audit"

definition client_resetDevice_anonymous :: "'s bus \<Rightarrow> codec \<Rightarrow> int \<Rightarrow> bool \<Rightarrow> ('s, job sresult) io" where
  "client_resetDevice_anonymous B C t confirmed = client_resetDevice B C t confirmed empty_audit"

definition client_job :: "'s bus \<Rightarrow> codec \<Rightarrow> int \<Rightarrow> ('s, job sresult) io" where
  "client_job B C t = call B C t (cd_empty C) (cd_job C) ''GetJob'' ()"

section \<open>A remote call is the local operation\<close>

text \<open>A bus that delivers calls to the daemon, with the peer's user id, and its replies back.\<close>

definition daemon_bus :: "'w env \<Rightarrow> surroundings \<Rightarrow> 32 word \<Rightarrow> 'w backend bus" where
  "daemon_bus E S uid =
     \<lparr>bs_open = ret True, bs_set_timeout = (\<lambda>_. ret True),
      bs_call = (\<lambda>method_name json.
        bind (request E S \<lparr>bm_member = Some method_name, bm_credentials = True, bm_euid = Some uid,
                           bm_body = Some json\<rparr>) (\<lambda>r.
        ret (case r of None \<Rightarrow> Failed (-12) None | Some js \<Rightarrow> Response (Some js))))\<rparr>"

definition reply_of :: "string result \<Rightarrow> reply" where
  "reply_of r = (case r of Inl e \<Rightarrow> error_reply e | Inr json \<Rightarrow> \<lparr>re_code = none, re_message = '''', re_json = json\<rparr>)"

lemma request_of_dispatch:
  assumes "bm_credentials m" and "bm_euid m = Some uid" and "bm_member m = Some name"
    and "bm_body m = Some json"
    and "allowed name uid (sr_account S (pf_settings_user (bk_profile b))) (sr_account S (pf_control_user (bk_profile b)))"
    and "dispatch E S (bk_profile b) uid name json b = (r, b1)"
  shows "\<exists>b'. request E S m b = (Inr (case encode (cd_reply (sr_codec S)) (reply_of r) of Inl _ \<Rightarrow> None | Inr js \<Rightarrow> Some js), b') \<and>
    logs E b1 b'"
  using assms logs_refl [of E b1]
  by (cases r)
     (auto simp: request_def handle_def Let_def seq_def bind_def guard_def gets_def ret_def catch_def cond_log
       reply_of_def intro: logs_write)

lemma call_void_answered:
  assumes "encode gq v = Inr json" and "bs_open B b = (Inr True, b)" and "\<And>n. bs_set_timeout B n b = (Inr True, b)"
    and "bs_call B name json b = (Inr (Response (Some js)), b')"
    and "decode (cd_reply C) reply_limit js = Inr reply"
  shows "call_void B C t gq name v b =
    (Inr (if re_code reply \<noteq> none then Inl \<lparr>se_code = re_code reply, se_message = re_message reply\<rparr> else Inr ()), b')"
  using assms by (simp add: call_void_def client_request_def bind_def of_result_def catch_def ret_def)

text \<open>
  C8: over a working bus, with a JSON library that reads what it writes, the client's
  \<open>finishNetwork\<close> is the backend's: for a peer that may call it and messages within the limits, the
  operation runs once, with the identity the daemon trusts, and its return or its error code and
  message arrive at the caller.
\<close>

theorem remote_finish:
  assumes "lossless (cd_finish (sr_codec S))" and "lossless (cd_reply (sr_codec S))"
    and "uid = 0 \<or> sr_account S (pf_settings_user (bk_profile b)) = Some uid"
    and "encode (cd_finish (sr_codec S)) \<lparr>fq_id = i, fq_commit = commit, fq_audit_context = context\<rparr> = Inr json"
    and "length json \<le> max_message_size"
    and "finishNetwork E i commit (ac_actor (audit_of S (bk_profile b) uid context True))
      (ac_request_id (audit_of S (bk_profile b) uid context True)) b = (r, b1)"
    and "\<And>message. r \<noteq> Inl (Error none message)"
    and "encode (cd_reply (sr_codec S)) (reply_of (map_sum id (\<lambda>_. '''') r)) = Inr js"
    and "length js \<le> reply_limit"
  shows "\<exists>b'. client_finishNetwork (daemon_bus E S uid) (sr_codec S) t i commit context b =
      (Inr (case r of Inl e \<Rightarrow> Inl \<lparr>se_code = re_code (error_reply e), se_message = re_message (error_reply e)\<rparr>
            | Inr _ \<Rightarrow> Inr ()), b') \<and> logs E b1 b'"
proof -
  let ?m = "\<lparr>bm_member = Some ''FinishNetwork'', bm_credentials = True, bm_euid = Some uid, bm_body = Some json\<rparr>"
  have "decode (cd_finish (sr_codec S)) max_message_size json =
      Inr \<lparr>fq_id = i, fq_commit = commit, fq_audit_context = context\<rparr>"
    using lossless.decode_encode [OF assms(1,4,5)] .
  then have "dispatch E S (bk_profile b) uid ''FinishNetwork'' json b = (map_sum id (\<lambda>_. '''') r, b1)"
    using assms(6) by (cases r) (simp_all add: dispatch_def Let_def decode_as_def bind_def of_result_def seq_def ret_def)
  moreover have "allowed ''FinishNetwork'' uid (sr_account S (pf_settings_user (bk_profile b)))
      (sr_account S (pf_control_user (bk_profile b)))"
    using assms(3) by (auto simp: allowed_def settingsOperation_def)
  ultimately obtain b' where b': "request E S ?m b = (Inr (Some js), b')" and logs: "logs E b1 b'"
    using request_of_dispatch [of ?m uid "''FinishNetwork''" json S b E "map_sum id (\<lambda>_. '''') r" b1] assms(8) by auto
  have "decode (cd_reply (sr_codec S)) reply_limit js = Inr (reply_of (map_sum id (\<lambda>_. '''') r))"
    using lossless.decode_encode [OF assms(2,8,9)] .
  note answered = call_void_answered [OF assms(4) _ _ _ this, of "daemon_bus E S uid" b "''FinishNetwork''" b' t]
  have "re_code (error_reply e) \<noteq> none" if "r = Inl e" for e
    using assms(7) that by (cases e) auto
  with answered b' logs show ?thesis
    unfolding client_finishNetwork_def
    by (cases r) (auto simp: daemon_bus_def ret_def bind_def reply_of_def)
qed

lemma example_finish_json:
  "encode (plain_glaze put_finish get_finish)
     \<lparr>fq_id = ''t1'', fq_commit = True, fq_audit_context = \<lparr>ac_actor = ''admin'', ac_request_id = ''r1''\<rparr>\<rparr> =
   Inr ''11.t1t11111.admin11.r1''"
  by (simp add: encode_def plain_glaze_def put_finish_def put_str_def put_bool_def put_len_def numeral_eq_Suc)

theorem remote_finish_witness:
  "\<exists>b'. client_finishNetwork (daemon_bus ticking example_surroundings 101) example_codec 1000 ''t1'' True
       \<lparr>ac_actor = ''admin'', ac_request_id = ''r1''\<rparr> (example_backend ''committing'' []) = (Inr (Inr ()), b')"
proof -
  let ?b = "example_backend ''committing'' []" and ?S = example_surroundings
  let ?c = "\<lparr>ac_actor = ''admin'', ac_request_id = ''r1''\<rparr>"
  have S: "sr_codec ?S = example_codec" "cd_finish example_codec = plain_glaze put_finish get_finish"
    "cd_reply example_codec = plain_glaze put_reply get_reply"
    by (simp_all add: example_surroundings_def example_codec_def)
  have "pf_settings_user (bk_profile ?b) = ''settings''" by (simp add: example_backend_def example_profile_def)
  then have user: "sr_account ?S (pf_settings_user (bk_profile ?b)) = Some 101"
    by (simp add: example_surroundings_def)
  then have audit: "audit_of ?S (bk_profile ?b) 101 ?c True = ?c"
    by (simp add: audit_of_def trustedAuditContext_def safe_identity_def)
  obtain b1 where b1: "finishNetwork ticking ''t1'' True ''admin'' ''r1'' ?b = (Inr (), b1)"
    using example_finish by blast
  have reply: "encode (plain_glaze put_reply get_reply) (reply_of (map_sum id (\<lambda>_. '''') (Inr () :: unit result))) =
      Inr ''1.0..''"
    by (simp add: reply_of_def) code_simp
  show ?thesis
    using remote_finish [of ?S 101 ?b "''t1''" True ?c "''11.t1t11111.admin11.r1''" ticking "Inr ()" b1 "''1.0..''" 1000]
      user audit b1 reply example_finish_json finish.lossless_axioms reply.lossless_axioms
    by (auto simp: S max_message_size_def reply_limit_def)
qed

end
