(* ===== verification/Service.thy ===== *)
theory Service
  imports Logging
begin

text \<open>
  The lifecycle of a long-running process (service.hpp, service.cpp): start, the loop over signals,
  reload requests and health, and the orderly shutdown. The hooks a derived class overrides, the
  signals and the requests of other threads are parameters; what the process tells systemd and the
  journal, and the hooks it runs, are recorded in a trace.
\<close>

section \<open>The object and what it does\<close>

record health =
  hl_healthy :: bool
  hl_summary :: string

datatype trace_event = Notify string | Log priority string string | Started | Reloaded | Stopped

record 'w service =
  sv_name :: string
  sv_stop_requested :: bool
  sv_reload_requested :: bool
  sv_trace :: "trace_event list"
  sv_world :: 'w

record 'w hooks =
  hk_on_start :: "('w, unit) io"
  hk_on_reload :: "('w, unit) io"
  hk_on_stop :: "'w \<Rightarrow> 'w"
  hk_health :: "('w, health) io"

datatype signal = SIGINT | SIGTERM | SIGHUP

text \<open>
  \<open>sigtimedwait\<close> delivers a signal, runs out or is interrupted (\<open>EAGAIN\<close>, \<open>EINTR\<close>), or fails with a
  message. In one turn of the loop other threads may also have asked to stop or to reload.
\<close>

datatype wait = Signal signal | Elapsed | WaitFailed string

record turn =
  tn_stop :: bool
  tn_wait :: wait
  tn_reload :: bool

definition record_event :: "trace_event \<Rightarrow> ('w service, unit) io" where
  "record_event x = modify (\<lambda>s. s\<lparr>sv_trace := sv_trace s @ [x]\<rparr>)"

definition on_world :: "('w, 'a) io \<Rightarrow> ('w service, 'a) io" where
  "on_world m = (\<lambda>s. case m (sv_world s) of (r, w) \<Rightarrow> (r, s\<lparr>sv_world := w\<rparr>))"

definition request_stop :: "('w service, unit) io" where
  "request_stop = modify (\<lambda>s. s\<lparr>sv_stop_requested := True\<rparr>)"

definition request_reload :: "('w service, unit) io" where
  "request_reload = modify (\<lambda>s. s\<lparr>sv_reload_requested := True\<rparr>)"

section \<open>Telling systemd\<close>

text \<open>The size of \<open>sockaddr_un::sun_path\<close> and the offset of it.\<close>

definition sun_path_size :: nat where "sun_path_size = 108"

definition sun_path_offset :: nat where "sun_path_offset = 2"

text \<open>
  The address in \<open>NOTIFY_SOCKET\<close> and its length: a leading @ stands for the abstract name space, whose
  names begin with NUL and are not terminated.
\<close>

definition notify_address :: "string \<Rightarrow> (string \<times> nat) option" where
  "notify_address socket_name =
     (if length socket_name \<ge> sun_path_size then None
      else let abstract = (hd socket_name = CHR ''@'')
           in Some (if abstract then CHR 0x00 # tl socket_name else socket_name,
                    sun_path_offset + length socket_name + (if abstract then 0 else 1)))"

text \<open>\<open>Service::notify\<close>; whether a socket opens and how much of the datagram is sent are arguments.\<close>

definition notify :: "string option \<Rightarrow> bool \<Rightarrow> (string \<times> nat \<Rightarrow> string \<Rightarrow> int) \<Rightarrow> string \<Rightarrow> bool" where
  "notify socket_name opened sendto state =
     (case socket_name of
        None \<Rightarrow> True
      | Some name \<Rightarrow>
          if name = [] then True
          else case notify_address name of
                 None \<Rightarrow> False
               | Some address \<Rightarrow> if \<not> opened then False else sendto address state = int (length state))"

section \<open>The loop\<close>

definition newline :: char where "newline = CHR 0x0A"

definition reload_step :: "'w hooks \<Rightarrow> ('w service, unit) io" where
  "reload_step H =
     bind (gets sv_reload_requested) (\<lambda>requested.
     seq (modify (\<lambda>s. s\<lparr>sv_reload_requested := False\<rparr>))
     (cond requested
        (seq (on_world (hk_on_reload H))
        (seq (record_event Reloaded)
        (bind (gets sv_name) (\<lambda>name. record_event (Log notice (name @ '' reloaded'') ''service_reloaded'')))))))"

text \<open>One turn after the test of the condition: \<open>True\<close> if the service is unhealthy.\<close>

definition turn_step :: "'w hooks \<Rightarrow> turn \<Rightarrow> ('w service, bool) io" where
  "turn_step H t =
     seq (case tn_wait t of
            WaitFailed message \<Rightarrow> throw (StdException (''sigtimedwait failed: '' @ message))
          | Signal SIGHUP \<Rightarrow> request_reload
          | Signal _ \<Rightarrow> request_stop
          | Elapsed \<Rightarrow> ret ())
     (seq (cond (tn_reload t) request_reload)
     (seq (reload_step H)
     (bind (on_world (hk_health H)) (\<lambda>current.
      if \<not> hl_healthy current then seq request_stop (ret True)
      else seq (record_event (Notify (''WATCHDOG=1'' @ newline # ''STATUS='' @ hl_summary current))) (ret False)))))"

text \<open>
  The loop over the turns that happen; \<open>None\<close> when they end with the service still running. The result
  is the exit code so far.
\<close>

fun serve :: "'w hooks \<Rightarrow> turn list \<Rightarrow> int \<Rightarrow> 'w service \<Rightarrow> (int result \<times> 'w service) option" where
  "serve H [] code s = (if sv_stop_requested s then Some (Inr code, s) else None)"
| "serve H (t # turns) code s =
     (if sv_stop_requested s then Some (Inr code, s)
      else if tn_stop t then Some (Inr code, s\<lparr>sv_stop_requested := True\<rparr>)
      else case turn_step H t s of
             (Inl e, s') \<Rightarrow> Some (Inl e, s')
           | (Inr unhealthy, s') \<Rightarrow> serve H turns (if unhealthy then 1 else code) s')"

definition start_up :: "'w hooks \<Rightarrow> ('w service, unit) io" where
  "start_up H =
     bind (on_world (hk_health H)) (\<lambda>initial.
     seq (record_event (Notify (''READY=1'' @ newline # ''STATUS='' @ hl_summary initial)))
     (bind (gets sv_name) (\<lambda>name. record_event (Log notice (name @ '' is ready'') ''service_ready''))))"

definition failure_log :: "string \<Rightarrow> exn \<Rightarrow> trace_event" where
  "failure_log name e =
     Log critical
       (case e of Error c message \<Rightarrow> name @ '' failed: '' @ message
        | StdException what \<Rightarrow> name @ '' failed: '' @ what
        | UnknownException \<Rightarrow> name @ '' failed with an unknown exception'') ''service_failed''"

text \<open>The end of \<open>execute\<close>: announce, run \<open>on_stop\<close> if the start had succeeded, record.\<close>

definition shut_down :: "'w hooks \<Rightarrow> bool \<Rightarrow> 'w service \<Rightarrow> 'w service" where
  "shut_down H started s =
     s\<lparr>sv_trace := sv_trace s @
          [Notify (''STOPPING=1'' @ newline # ''STATUS='' @ sv_name s @ '' is stopping'')] @
          (if started then [Stopped] else []) @
          [Log notice (sv_name s @ '' stopped'') ''service_stopped''],
       sv_world := (if started then hk_on_stop H (sv_world s) else sv_world s)\<rparr>"

definition fail_with :: "exn \<Rightarrow> 'w service \<Rightarrow> 'w service" where
  "fail_with e s = s\<lparr>sv_trace := sv_trace s @ [failure_log (sv_name s) e]\<rparr>"

text \<open>\<open>Service::execute\<close>: the exit code, or \<open>None\<close> while it still runs after the turns.\<close>

definition execute :: "'w hooks \<Rightarrow> bool \<Rightarrow> turn list \<Rightarrow> 'w service \<Rightarrow> (int \<times> 'w service) option" where
  "execute H signals_blocked turns s =
     (if \<not> signals_blocked
      then Some (1, s\<lparr>sv_trace := sv_trace s @
             [Log critical ''failed to block lifecycle signals'' ''signal_setup_failed'']\<rparr>)
      else case seq (on_world (hk_on_start H)) (record_event Started) s of
        (Inl e, s1) \<Rightarrow> Some (1, shut_down H False (fail_with e s1))
      | (Inr _, s1) \<Rightarrow>
          (case start_up H s1 of
             (Inl e, s2) \<Rightarrow> Some (1, shut_down H True (fail_with e s2))
           | (Inr _, s2) \<Rightarrow>
               (case serve H turns 0 s2 of
                  None \<Rightarrow> None
                | Some (Inl e, s3) \<Rightarrow> Some (1, shut_down H True (fail_with e s3))
                | Some (Inr code, s3) \<Rightarrow> Some (code, shut_down H True s3))))"

section \<open>Orderly shutdown\<close>

text \<open>The records made while serving.\<close>

definition serving_event :: "trace_event \<Rightarrow> bool" where
  "serving_event x \<longleftrightarrow> x \<noteq> Started \<and> x \<noteq> Stopped"

definition extends :: "'w service \<Rightarrow> 'w service \<Rightarrow> bool" where
  "extends s s' \<longleftrightarrow> sv_name s' = sv_name s \<and>
     (\<exists>mid. sv_trace s' = sv_trace s @ mid \<and> (\<forall>x\<in>set mid. serving_event x))"

lemma extends_refl [simp]: "extends s s"
  by (simp add: extends_def)

lemma extends_trans: "extends s s' \<Longrightarrow> extends s' s'' \<Longrightarrow> extends s s''"
  by (fastforce simp: extends_def)

lemma extends_flags [simp]:
  "extends s0 (s\<lparr>sv_stop_requested := x\<rparr>) = extends s0 s" "extends s0 (s\<lparr>sv_reload_requested := x\<rparr>) = extends s0 s"
  "extends s0 (s\<lparr>sv_world := w\<rparr>) = extends s0 s"
  by (simp_all add: extends_def)

lemma keeps_extends_flags [keeps_rules]:
  "keeps (extends s0) request_stop" "keeps (extends s0) request_reload" "keeps (extends s0) (on_world m)"
  "keeps (extends s0) (modify (\<lambda>s. s\<lparr>sv_reload_requested := x\<rparr>))"
  by (auto simp: keeps_def request_stop_def request_reload_def on_world_def modify_def split: prod.split)

lemma keeps_extends_record [keeps_rules]: "serving_event x \<Longrightarrow> keeps (extends s0) (record_event x)"
  by (auto simp: keeps_def record_event_def modify_def extends_def)

lemma serving_events [simp]: "serving_event (Notify x)" "serving_event (Log p m e)" "serving_event Reloaded"
  by (simp_all add: serving_event_def)

lemma turn_step_extends: "keeps (extends s0) (turn_step H t)"
  unfolding turn_step_def reload_step_def
  by (auto intro!: keeps_rules split: wait.split signal.split)

lemma start_up_extends: "keeps (extends s0) (start_up H)"
  unfolding start_up_def by (intro keeps_rules) simp_all

lemma serve_extends:
  "serve H turns code s = Some (r, s') \<Longrightarrow> extends s s' \<and> (\<forall>c. r = Inr c \<longrightarrow> c = code \<or> c = 1)"
proof (induction turns arbitrary: code s)
  case Nil
  then show ?case by (auto split: if_splits)
next
  case (Cons t turns)
  obtain r1 s1 where step: "turn_step H t s = (r1, s1)" by fastforce
  have s1: "extends s s1" using keeps_run [OF turn_step_extends step, of s] by simp
  show ?case
  proof (cases "sv_stop_requested s \<or> tn_stop t")
    case True
    with Cons.prems show ?thesis by (auto split: if_splits)
  next
    case False
    with Cons.prems step s1 Cons.IH [of _ s1] extends_trans [OF s1] show ?thesis
      by (cases r1) (auto split: if_splits)
  qed
qed

text \<open>
  C13: shutdown is orderly and happens exactly once. Every execution that ends, normally or by any
  exception, ends with the announcement to systemd and the stop record; \<open>on_stop\<close> has run once, at
  that point, if and only if \<open>on_start\<close> had returned; and a start that fails ends with exit code 1.
\<close>

theorem execute_orderly:
  assumes "execute H True turns s = Some (code, s')"
  shows "\<exists>mid. (\<forall>x\<in>set mid. serving_event x) \<and> code \<in> {0, 1} \<and>
    (sv_trace s' = sv_trace s @ Started # mid @
         [Notify (''STOPPING=1'' @ newline # ''STATUS='' @ sv_name s @ '' is stopping''), Stopped,
          Log notice (sv_name s @ '' stopped'') ''service_stopped''] \<or>
     code = 1 \<and> sv_trace s' = sv_trace s @ mid @
         [Notify (''STOPPING=1'' @ newline # ''STATUS='' @ sv_name s @ '' is stopping''),
          Log notice (sv_name s @ '' stopped'') ''service_stopped''])"
proof -
  obtain r w where start: "hk_on_start H (sv_world s) = (r, w)" by fastforce
  show ?thesis
  proof (cases r)
    case (Inl e)
    with assms start show ?thesis
      by (auto simp: execute_def on_world_def seq_def bind_def shut_down_def fail_with_def failure_log_def)
  next
    case (Inr u)
    let ?s1 = "s\<lparr>sv_world := w, sv_trace := sv_trace s @ [Started]\<rparr>"
    have started: "seq (on_world (hk_on_start H)) (record_event Started) s = (Inr (), ?s1)"
      using start Inr by (simp add: on_world_def seq_def bind_def record_event_def modify_def)
    have "\<exists>s3. extends ?s1 s3 \<and> code \<in> {0, 1} \<and> s' = shut_down H True s3"
    proof -
      obtain r2 s2 where up: "start_up H ?s1 = (r2, s2)" by fastforce
      have s2: "extends ?s1 s2" using keeps_run [OF start_up_extends up] by simp
      have failed: "extends ?s1 (fail_with e s)" if "extends ?s1 s" for e s
        using that by (auto simp: extends_def fail_with_def failure_log_def)
      show ?thesis
      proof (cases r2)
        case (Inl e)
        with assms started up have "code = 1" "s' = shut_down H True (fail_with e s2)" by (simp_all add: execute_def)
        with failed [OF s2] show ?thesis by blast
      next
        case (Inr u2)
        with assms started up obtain r3 s3 where loop: "serve H turns 0 s2 = Some (r3, s3)"
          by (auto simp: execute_def split: option.splits)
        note s3 = serve_extends [OF loop]
        have s3': "extends ?s1 s3" using s3 extends_trans [OF s2] by blast
        show ?thesis
        proof (cases r3)
          case (Inl e)
          with assms started up loop \<open>r2 = Inr u2\<close> have "code = 1" "s' = shut_down H True (fail_with e s3)"
            by (simp_all add: execute_def)
          with failed [OF s3'] show ?thesis by blast
        next
          case (Inr c)
          with assms started up loop \<open>r2 = Inr u2\<close> have "c = code" "s' = shut_down H True s3" by (simp_all add: execute_def)
          with s3' s3 Inr show ?thesis by auto
        qed
      qed
    qed
    then show ?thesis by (auto simp: extends_def shut_down_def)
  qed
qed

section \<open>A stop is obeyed\<close>

definition stopping :: "turn \<Rightarrow> bool" where
  "stopping t \<longleftrightarrow> tn_stop t \<or> tn_wait t = Signal SIGINT \<or> tn_wait t = Signal SIGTERM"

lemma turn_step_stops:
  assumes "tn_wait t = Signal SIGINT \<or> tn_wait t = Signal SIGTERM" and "turn_step H t s = (Inr x, s')"
  shows "sv_stop_requested s'"
proof -
  have stop: "keeps sv_stop_requested (record_event x)" "keeps sv_stop_requested request_stop"
    "keeps sv_stop_requested request_reload" "keeps sv_stop_requested (on_world m)"
    "keeps sv_stop_requested (modify (\<lambda>s. s\<lparr>sv_reload_requested := y\<rparr>))" for x m y
    by (auto simp: keeps_def record_event_def request_stop_def request_reload_def on_world_def modify_def
        split: prod.split)
  let ?rest = "seq (cond (tn_reload t) request_reload)
     (seq (reload_step H)
     (bind (on_world (hk_health H)) (\<lambda>current.
      if \<not> hl_healthy current then seq request_stop (ret True)
      else seq (record_event (Notify (''WATCHDOG=1'' @ newline # ''STATUS='' @ hl_summary current))) (ret False))))"
  have rest: "keeps sv_stop_requested ?rest"
    unfolding reload_step_def by (intro keeps_rules stop)
  have "turn_step H t s = ?rest (s\<lparr>sv_stop_requested := True\<rparr>)"
    using assms(1) by (auto simp: turn_step_def seq_def [of request_stop] bind_def [of request_stop] request_stop_def [THEN fun_cong] modify_def)
  with assms(2) keepsD [OF rest, of "s\<lparr>sv_stop_requested := True\<rparr>"] show ?thesis by simp
qed

lemma serve_stops: "\<exists>t\<in>set turns. stopping t \<Longrightarrow> serve H turns code s \<noteq> None"
proof (induction turns arbitrary: code s)
  case (Cons t turns)
  obtain r s1 where step: "turn_step H t s = (r, s1)" by fastforce
  have now: "serve H turns c s1 \<noteq> None" if "sv_stop_requested s1" for c
    using that by (cases turns) auto
  have "serve H turns c s1 \<noteq> None" if "r = Inr x" "\<not> tn_stop t" for c x
  proof (cases "stopping t")
    case True
    with that step turn_step_stops [of t H s x s1] have "sv_stop_requested s1" by (auto simp: stopping_def)
    then show ?thesis by (rule now)
  next
    case False
    with Cons.prems have "\<exists>t\<in>set turns. stopping t" by auto
    then show ?thesis by (rule Cons.IH)
  qed
  with step show ?case by (cases r) auto
qed simp

text \<open>
  C14: a service obeys: as soon as another thread has asked it to stop or SIGINT or SIGTERM is delivered
  its execution ends, whether its hooks succeed or throw.
\<close>

theorem execute_stops:
  assumes "\<exists>t\<in>set turns. stopping t"
  shows "\<exists>code s'. execute H True turns s = Some (code, s')"
proof -
  obtain r1 s1 where started: "seq (on_world (hk_on_start H)) (record_event Started) s = (r1, s1)" by fastforce
  obtain r2 s2 where up: "start_up H s1 = (r2, s2)" by fastforce
  obtain r3 s3 where "serve H turns 0 s2 = Some (r3, s3)" using serve_stops [OF assms, of H 0 s2] by auto
  with started up show ?thesis by (simp add: execute_def split: sum.split)
qed

text \<open>Hooks for examples: everything succeeds, healthy until the third look.\<close>

definition example_hooks :: "nat hooks" where
  "example_hooks =
     \<lparr>hk_on_start = ret (), hk_on_reload = ret (), hk_on_stop = (\<lambda>w. w),
      hk_health = (\<lambda>w. (Inr \<lparr>hl_healthy = w < 2, hl_summary = ''ok''\<rparr>, Suc w))\<rparr>"

definition example_service_object :: "nat service" where
  "example_service_object =
     \<lparr>sv_name = ''svc'', sv_stop_requested = False, sv_reload_requested = False, sv_trace = [], sv_world = 0\<rparr>"

definition idle_turn :: turn where
  "idle_turn = \<lparr>tn_stop = False, tn_wait = Elapsed, tn_reload = False\<rparr>"

lemmas service_eval = execute_def example_hooks_def example_service_object_def idle_turn_def start_up_def turn_step_def
  reload_step_def shut_down_def on_world_def record_event_def request_stop_def request_reload_def
  seq_def bind_def gets_def modify_def cond_def ret_def

text \<open>A service that turns unhealthy ends with exit code 1.\<close>

lemma example_unhealthy:
  "map_option fst (execute example_hooks True [idle_turn, idle_turn, idle_turn] example_service_object) = Some 1"
  by (simp add: service_eval)

theorem execute_orderly_witness:
  "\<exists>s'. execute example_hooks True [idle_turn\<lparr>tn_wait := Signal SIGTERM\<rparr>] example_service_object = Some (0, s') \<and>
     Stopped \<in> set (sv_trace s')"
proof -
  obtain s' where run: "execute example_hooks True [idle_turn\<lparr>tn_wait := Signal SIGTERM\<rparr>] example_service_object = Some (0, s')"
    by (simp add: service_eval)
  from execute_orderly [OF run] have "Stopped \<in> set (sv_trace s')" by auto
  with run show ?thesis by blast
qed

theorem execute_stops_witness:
  "\<exists>code s'. execute example_hooks True [idle_turn, idle_turn\<lparr>tn_stop := True\<rparr>] example_service_object = Some (code, s')"
  by (rule execute_stops) (simp add: stopping_def idle_turn_def)

end
