(* ===== verification/Service_Manager.thy ===== *)
theory Service_Manager
  imports Prelude
begin

text \<open>
  The registry and dependency-order coordinator of managed services (service\_manager.hpp,
  service\_manager.cpp), and the unit controller that speaks to systemd. The controller is an
  interface of the source; systemd's answers on the bus are a parameter.
\<close>

section \<open>Data\<close>

datatype service_action = act_start | act_stop | act_restart | act_reload

datatype priority_tier = tier_critical | tier_high | tier_normal | tier_background

fun service_priority_nice :: "priority_tier \<Rightarrow> int" where
  "service_priority_nice tier_critical = -10"
| "service_priority_nice tier_high = -5"
| "service_priority_nice tier_normal = 0"
| "service_priority_nice tier_background = 5"

fun service_priority_name :: "priority_tier \<Rightarrow> string" where
  "service_priority_name tier_critical = ''critical''"
| "service_priority_name tier_high = ''high''"
| "service_priority_name tier_normal = ''normal''"
| "service_priority_name tier_background = ''background''"

record managed_service =
  ms_name :: string
  ms_unit :: string
  ms_after :: "string list"
  ms_auto_start :: bool
  ms_priority_tier :: priority_tier

record managed_status =
  mt_name :: string
  mt_unit :: string
  mt_active_state :: string
  mt_sub_state :: string
  mt_restart_count :: "32 word"
  mt_permanently_failed :: bool
  mt_required_active :: bool
  mt_priority_tier :: priority_tier
  mt_expected_nice :: int
  mt_effective_nice :: int
  mt_priority_matches :: bool

record 'w controller =
  ct_inspect :: "managed_service \<Rightarrow> ('w, managed_status) io"
  ct_control :: "managed_service \<Rightarrow> service_action \<Rightarrow> ('w, unit) io"

section \<open>The systemd controller\<close>

text \<open>
  The calls on the bus: a failed call is \<open>None\<close>; a reply without a path is \<open>Some None\<close>; a failed
  method call carries the error's message where there is one.
\<close>

record 'w systemd =
  sd_get_unit :: "string \<Rightarrow> ('w, string option option) io"
  sd_string_property :: "string \<Rightarrow> string \<Rightarrow> ('w, string option) io"
  sd_restarts :: "string \<Rightarrow> ('w, 32 word option) io"
  sd_nice :: "string \<Rightarrow> ('w, int option) io"
  sd_method :: "string \<Rightarrow> string \<Rightarrow> ('w, string option option) io"

definition new_status :: "managed_service \<Rightarrow> string \<Rightarrow> string \<Rightarrow> managed_status" where
  "new_status service active sub =
     \<lparr>mt_name = ms_name service, mt_unit = ms_unit service, mt_active_state = active, mt_sub_state = sub,
      mt_restart_count = 0, mt_permanently_failed = False, mt_required_active = True,
      mt_priority_tier = tier_normal, mt_expected_nice = 0, mt_effective_nice = 0,
      mt_priority_matches = False\<rparr>"

definition systemd_inspect :: "'w systemd \<Rightarrow> managed_service \<Rightarrow> ('w, managed_status) io" where
  "systemd_inspect D service =
     bind (sd_get_unit D (ms_unit service)) (\<lambda>unit_reply.
     case unit_reply of
       None \<Rightarrow>
         ret ((new_status service ''inactive'' ''not-found'')
           \<lparr>mt_priority_tier := ms_priority_tier service,
            mt_expected_nice := service_priority_nice (ms_priority_tier service)\<rparr>)
     | Some None \<Rightarrow> throw (StdException ''systemd returned an invalid unit path'')
     | Some (Some path) \<Rightarrow>
         bind (sd_string_property D path ''ActiveState'') (\<lambda>active.
         bind (sd_string_property D path ''SubState'') (\<lambda>sub.
         bind (sd_restarts D path) (\<lambda>restarts_reply.
         bind (sd_nice D path) (\<lambda>nice_reply.
         let active_state = (case active of Some a \<Rightarrow> a | None \<Rightarrow> ''unknown'');
             sub_state = (case sub of Some a \<Rightarrow> a | None \<Rightarrow> ''unknown'');
             restarts = (case restarts_reply of Some n \<Rightarrow> n | None \<Rightarrow> 0);
             nice = (case nice_reply of Some n \<Rightarrow> n | None \<Rightarrow> 0);
             expected = service_priority_nice (ms_priority_tier service)
         in ret ((new_status service active_state sub_state)
              \<lparr>mt_restart_count := restarts,
               mt_permanently_failed := active_state = ''failed'' \<and> 3 \<le> restarts,
               mt_priority_tier := ms_priority_tier service, mt_expected_nice := expected,
               mt_effective_nice := nice,
               mt_priority_matches := nice_reply \<noteq> None \<and> nice = expected\<rparr>))))))"

fun systemd_method :: "service_action \<Rightarrow> string" where
  "systemd_method act_start = ''StartUnit''"
| "systemd_method act_stop = ''StopUnit''"
| "systemd_method act_restart = ''RestartUnit''"
| "systemd_method act_reload = ''ReloadUnit''"

definition systemd_control :: "'w systemd \<Rightarrow> managed_service \<Rightarrow> service_action \<Rightarrow> ('w, unit) io" where
  "systemd_control D service action =
     bind (sd_method D (systemd_method action) (ms_unit service)) (\<lambda>failure.
     case failure of
       None \<Rightarrow> ret ()
     | Some message \<Rightarrow>
         throw (StdException (case message of Some m \<Rightarrow> m | None \<Rightarrow> ''systemd control failed'')))"

definition systemd_controller :: "'w systemd \<Rightarrow> 'w controller" where
  "systemd_controller D = \<lparr>ct_inspect = systemd_inspect D, ct_control = systemd_control D\<rparr>"

text \<open>The controller of a build without libsystemd.\<close>

definition unavailable_controller :: "'w controller" where
  "unavailable_controller =
     \<lparr>ct_inspect = (\<lambda>service.
        ret ((new_status service ''unavailable'' ''libsystemd-missing'')
          \<lparr>mt_permanently_failed := True, mt_priority_tier := ms_priority_tier service,
           mt_expected_nice := service_priority_nice (ms_priority_tier service)\<rparr>)),
      ct_control = (\<lambda>_ _. throw (StdException ''systemd sd-bus support is unavailable''))\<rparr>"

section \<open>The manager\<close>

text \<open>The registered services are the manager's state; the lock makes every operation atomic.\<close>

definition register_service :: "managed_service \<Rightarrow> (managed_service list, unit) io" where
  "register_service service =
     bind (gets id) (\<lambda>services.
     if \<exists>candidate\<in>set services. ms_name candidate = ms_name service \<or> ms_unit candidate = ms_unit service
     then throw (StdException ''duplicate managed service'')
     else modify (\<lambda>services. services @ [service]))"

definition find_service :: "managed_service list \<Rightarrow> string \<Rightarrow> managed_service result" where
  "find_service services name =
     (case find (\<lambda>s. ms_name s = name) services of
        None \<Rightarrow> Inl (StdException (''unknown service: '' @ name))
      | Some s \<Rightarrow> Inr s)"

text \<open>A loop of calls that may not return: the first exception ends it, a call that does not return too.\<close>

fun each :: "('a \<Rightarrow> 's \<Rightarrow> (unit result \<times> 's) option) \<Rightarrow> 'a list \<Rightarrow> 's \<Rightarrow> (unit result \<times> 's) option" where
  "each f [] s = Some (Inr (), s)"
| "each f (x # xs) s =
     (case f x s of None \<Rightarrow> None
      | Some (Inl e, s') \<Rightarrow> Some (Inl e, s')
      | Some (Inr _, s') \<Rightarrow> each f xs s')"

text \<open>Starting one unit, once its dependencies are: what is active already is adopted.\<close>

definition visit :: "'w controller \<Rightarrow> managed_service \<Rightarrow> ('w, unit) io" where
  "visit C service =
     bind (ct_inspect C service) (\<lambda>st.
     cond (mt_active_state st \<noteq> ''active'') (ct_control C service act_start))"

text \<open>
  \<open>start_one\<close> recurses along the dependencies without a bound; the depth of the recursion is the first
  argument, and \<open>None\<close> a run that needs a deeper one. The state is the list of started names and the
  surroundings.
\<close>

fun start_one :: "'w controller \<Rightarrow> managed_service list \<Rightarrow> nat \<Rightarrow> managed_service \<Rightarrow> string list \<times> 'w \<Rightarrow>
    (unit result \<times> (string list \<times> 'w)) option" where
  "start_one C services 0 service st = None"
| "start_one C services (Suc n) service (started, w) =
     (if ms_name service \<in> set started then Some (Inr (), (started, w))
      else
        case each (\<lambda>dependency st. case find_service services dependency of
                     Inl e \<Rightarrow> Some (Inl e, st)
                   | Inr found \<Rightarrow> start_one C services n found st) (ms_after service) (started, w) of
          None \<Rightarrow> None
        | Some (Inl e, st) \<Rightarrow> Some (Inl e, st)
        | Some (Inr _, (started', w')) \<Rightarrow>
            (case visit C service w' of
               (Inl e, w'') \<Rightarrow> Some (Inl e, (started', w''))
             | (Inr _, w'') \<Rightarrow> Some (Inr (), (started' @ [ms_name service], w''))))"

definition start_registered :: "'w controller \<Rightarrow> managed_service list \<Rightarrow> nat \<Rightarrow> 'w \<Rightarrow>
    (unit result \<times> (string list \<times> 'w)) option" where
  "start_registered C services n w =
     each (\<lambda>service st. if ms_auto_start service then start_one C services n service st
                        else Some (Inr (), st)) services ([], w)"

definition with_policy :: "managed_service \<Rightarrow> managed_status \<Rightarrow> managed_status" where
  "with_policy service st =
     st\<lparr>mt_required_active := ms_auto_start service, mt_priority_tier := ms_priority_tier service,
        mt_expected_nice := service_priority_nice (ms_priority_tier service)\<rparr>"

fun statuses :: "'w controller \<Rightarrow> managed_service list \<Rightarrow> ('w, managed_status list) io" where
  "statuses C [] = ret []"
| "statuses C (service # services) =
     bind (ct_inspect C service) (\<lambda>st.
     bind (statuses C services) (\<lambda>rest. ret (with_policy service st # rest)))"

definition service_status :: "'w controller \<Rightarrow> managed_service list \<Rightarrow> string \<Rightarrow> ('w, managed_status) io" where
  "service_status C services name =
     bind (of_result (find_service services name)) (\<lambda>service.
     bind (ct_inspect C service) (\<lambda>st. ret (with_policy service st)))"

definition service_control :: "'w controller \<Rightarrow> managed_service list \<Rightarrow> string \<Rightarrow> service_action \<Rightarrow>
    ('w, managed_status) io" where
  "service_control C services name action =
     bind (of_result (find_service services name)) (\<lambda>service.
     seq (ct_control C service action)
     (bind (ct_inspect C service) (\<lambda>st. ret (with_policy service st))))"

section \<open>The registry\<close>

definition unique :: "managed_service list \<Rightarrow> bool" where
  "unique services \<longleftrightarrow> distinct (map ms_name services) \<and> distinct (map ms_unit services)"

lemma find_service_name: "find_service services name = Inr s \<Longrightarrow> s \<in> set services \<and> ms_name s = name"
  by (auto simp: find_service_def find_Some_iff split: option.splits)

lemma find_service_unique: "unique services \<Longrightarrow> s \<in> set services \<Longrightarrow> find_service services (ms_name s) = Inr s"
  by (auto simp: find_service_def unique_def find_None_iff find_Some_iff split: option.splits)
     (metis distinct_map inj_onD nth_mem)

section \<open>Order of activation\<close>

text \<open>
  A list of names in which everything comes once and after what it depends on; and what starting the
  services one by one in such an order does.
\<close>

definition ordered :: "managed_service list \<Rightarrow> string list \<Rightarrow> bool" where
  "ordered services names \<longleftrightarrow>
     (\<forall>xs x ys. names = xs @ x # ys \<longrightarrow>
        x \<notin> set xs \<and> (\<exists>s. find_service services x = Inr s \<and> set (ms_after s) \<subseteq> set xs))"

definition replay :: "'w controller \<Rightarrow> managed_service list \<Rightarrow> string list \<Rightarrow> ('w, unit) io" where
  "replay C services = for_io (\<lambda>name. bind (of_result (find_service services name)) (visit C))"

lemma ordered_Nil [simp]: "ordered services []"
  by (simp add: ordered_def)

lemma ordered_snoc:
  assumes "ordered services names" and "x \<notin> set names"
    and "find_service services x = Inr s" and "set (ms_after s) \<subseteq> set names"
  shows "ordered services (names @ [x])"
  unfolding ordered_def
proof (intro allI impI)
  fix xs y ys assume split: "names @ [x] = xs @ y # ys"
  show "y \<notin> set xs \<and> (\<exists>s. find_service services y = Inr s \<and> set (ms_after s) \<subseteq> set xs)"
  proof (cases ys rule: rev_cases)
    case Nil
    with split assms(2-4) show ?thesis by auto
  next
    case (snoc zs z)
    with split have "names = xs @ y # zs" by auto
    with assms(1) show ?thesis unfolding ordered_def by blast
  qed
qed

lemma ordered_distinct: "ordered services names \<Longrightarrow> distinct names"
proof (induction names rule: rev_induct)
  case (snoc x xs)
  then have "x \<notin> set xs" unfolding ordered_def by blast
  moreover have "ordered services xs"
    using snoc.prems unfolding ordered_def by (metis append.assoc append_Cons)
  ultimately show ?case using snoc.IH by simp
qed simp

lemma replay_append:
  "replay C services xs w = (Inr (), w') \<Longrightarrow> replay C services (xs @ ys) w = replay C services ys w'"
proof (induction xs arbitrary: w)
  case Nil
  then show ?case by (simp add: replay_def ret_def)
next
  case (Cons x xs)
  then show ?case by (auto simp: replay_def seq_def bind_def split: prod.splits sum.splits)
qed

lemma replay_one:
  "find_service services x = Inr s \<Longrightarrow> visit C s w = (Inr (), w') \<Longrightarrow> replay C services [x] w = (Inr (), w')"
  by (simp add: replay_def seq_def bind_def of_result_def ret_def)

text \<open>What a run of the coordinator keeps, whether it returns or throws.\<close>

fun progress :: "'w controller \<Rightarrow> managed_service list \<Rightarrow> string list \<times> 'w \<Rightarrow>
    unit result \<times> (string list \<times> 'w) \<Rightarrow> bool" where
  "progress C services (started, w) (r, (started', w')) \<longleftrightarrow>
     (\<exists>new. started' = started @ new \<and> ordered services started' \<and>
        (r = Inr () \<longrightarrow> replay C services new w = (Inr (), w')))"

lemma progress_stay: "ordered services started \<Longrightarrow> progress C services (started, w) (Inr (), (started, w))"
  "ordered services started \<Longrightarrow> progress C services (started, w) (Inl e, (started, w'))"
  by (auto simp: replay_def ret_def)

lemma progress_trans:
  assumes "progress C services st (Inr (), st1)" and "progress C services st1 r"
  shows "progress C services st r"
proof -
  obtain started w started1 w1 ok started2 w2
    where eq: "st = (started, w)" "st1 = (started1, w1)" "r = (ok, started2, w2)" by (metis prod.exhaust)
  with assms obtain new1 new2 where "started1 = started @ new1" "replay C services new1 w = (Inr (), w1)"
    "started2 = started1 @ new2" "ordered services started2" "ok = Inr () \<Longrightarrow> replay C services new2 w1 = (Inr (), w2)"
    by auto
  with replay_append [of C services new1 w w1 new2] show ?thesis
    by (auto simp: eq intro: exI [of _ "new1 @ new2"])
qed

lemma progress_mono: "progress C services st r \<Longrightarrow> set (fst st) \<subseteq> set (fst (snd r))"
  "progress C services st r \<Longrightarrow> ordered services (fst (snd r))"
  by (cases st; cases r; auto)+

text \<open>
  The calls in progress: each waits for the next of its dependencies, those before it being started
  already, and none of them is started itself. If the next to start is one of them, the recursion
  never ends.
\<close>

fun waiting :: "managed_service list \<Rightarrow> managed_service \<Rightarrow> string list \<Rightarrow> bool" where
  "waiting [] s started \<longleftrightarrow> True"
| "waiting (f # fs) s started \<longleftrightarrow>
     ms_name f \<notin> set started \<and>
     (\<exists>pre suf. ms_after f = pre @ ms_name (hd (fs @ [s])) # suf \<and> set pre \<subseteq> set started) \<and>
     waiting fs s started"

lemma waiting_suffix: "waiting (xs @ ys) s started \<Longrightarrow> waiting ys s started"
  by (induction xs) auto

lemma waiting_frames: "waiting fs s started \<Longrightarrow> f \<in> set fs \<Longrightarrow> ms_name f \<notin> set started"
  by (induction fs) auto

lemma waiting_next:
  "waiting fs s started \<Longrightarrow> f \<in> set fs \<Longrightarrow>
     \<exists>h\<in>insert s (set fs). \<exists>pre suf. ms_after f = pre @ ms_name h # suf \<and> set pre \<subseteq> set started"
proof (induction fs)
  case (Cons g gs)
  show ?case
  proof (cases "f = g")
    case True
    have "hd (gs @ [s]) \<in> insert s (set gs)" by (cases gs) auto
    then have "hd (gs @ [s]) \<in> insert s (set (g # gs))" by auto
    moreover from True Cons.prems(1) have
      "\<exists>pre suf. ms_after f = pre @ ms_name (hd (gs @ [s])) # suf \<and> set pre \<subseteq> set started" by simp
    ultimately show ?thesis by (rule bexI [rotated])
  next
    case False
    with Cons show ?thesis by auto
  qed
qed simp

lemma waiting_push:
  "waiting fs s started \<Longrightarrow> ms_name s \<notin> set started \<Longrightarrow> ms_after s = pre @ ms_name t # suf \<Longrightarrow>
     set pre \<subseteq> set started \<Longrightarrow> waiting (fs @ [s]) t started"
proof (induction fs)
  case (Cons f fs)
  have "hd ((fs @ [s]) @ [t]) = hd (fs @ [s])" by (cases fs) auto
  with Cons show ?case by auto
qed auto

lemma waiting_more:
  assumes "waiting fs s started" and "set started \<subseteq> set started'"
    and "\<And>f. f \<in> set fs \<Longrightarrow> ms_name f \<notin> set started'"
  shows "waiting fs s started'"
  using assms by (induction fs) fastforce+

lemma each_started:
  "(\<And>x. x \<in> set xs \<Longrightarrow> f x st = None \<or> f x st = Some (Inr (), st)) \<Longrightarrow> f y st = None \<Longrightarrow>
     each f (xs @ y # ys) st = None"
  by (induction xs) fastforce+

lemma ordered_registered: "ordered services names \<Longrightarrow> x \<in> set names \<Longrightarrow> \<exists>s. find_service services x = Inr s"
  unfolding ordered_def by (metis in_set_conv_decomp)

lemma start_one_started:
  "ms_name s \<in> set started \<Longrightarrow>
     start_one C services n s (started, w) = None \<or> start_one C services n s (started, w) = Some (Inr (), (started, w))"
  by (cases n) simp_all

lemma cycle_stuck:
  assumes "unique services" and "ordered services started" and "set (f # fs) \<subseteq> set services" and "waiting (f # fs) f started"
    and "g \<in> set (f # fs)"
  shows "start_one C services n g (started, w) = None"
  using assms(5)
proof (induction n arbitrary: g)
  case (Suc n)
  let ?f = "\<lambda>dependency st. case find_service services dependency of
      Inl e \<Rightarrow> Some (Inl e, st) | Inr found \<Rightarrow> start_one C services n found st"
  obtain h pre suf where h: "h \<in> set (f # fs)" "ms_after g = pre @ ms_name h # suf" "set pre \<subseteq> set started"
    using waiting_next [OF assms(4) Suc.prems] by auto
  have "?f (ms_name h) (started, w) = None"
    using Suc.IH [OF h(1)] find_service_unique [OF assms(1), of h] h(1) assms(3) by auto
  moreover have "?f d (started, w) = None \<or> ?f d (started, w) = Some (Inr (), (started, w))" if "d \<in> set pre" for d
    using that h(3) ordered_registered [OF assms(2), of d] find_service_name start_one_started by fastforce
  ultimately have "each ?f (ms_after g) (started, w) = None" unfolding h(2) by (intro each_started) auto
  moreover have "ms_name g \<notin> set started" using waiting_frames [OF assms(4) Suc.prems] .
  ultimately show ?case by simp
qed simp

text \<open>What is started while calls wait: everything in order, and none of the waiting services.\<close>

definition keeps_waiting :: "managed_service list \<Rightarrow> unit result \<times> (string list \<times> 'w) \<Rightarrow> bool" where
  "keeps_waiting fs r \<longleftrightarrow> (\<forall>f\<in>set fs. ms_name f \<notin> set (fst (snd r)))"

abbreviation dependency_call :: "managed_service list \<Rightarrow>
    (managed_service \<Rightarrow> 's \<Rightarrow> (unit result \<times> 's) option) \<Rightarrow> string \<Rightarrow> 's \<Rightarrow> (unit result \<times> 's) option" where
  "dependency_call services call_start \<equiv> (\<lambda>dependency st. case find_service services dependency of
     Inl e \<Rightarrow> Some (Inl e, st) | Inr found \<Rightarrow> call_start found st)"

lemma each_progress:
  assumes start: "\<And>d found st r. find_service services d = Inr found \<Longrightarrow> ordered services (fst st) \<Longrightarrow>
      waiting (fs @ [service]) found (fst st) \<Longrightarrow> call_start found st = Some r \<Longrightarrow>
      progress C services st r \<and> (fst r = Inr () \<longrightarrow> d \<in> set (fst (snd r))) \<and> keeps_waiting (fs @ [service]) r"
    and "each (dependency_call services call_start) suf st = Some r" and "ms_after service = pre @ suf"
    and "set pre \<subseteq> set (fst st)" and "ordered services (fst st)" and "waiting fs service (fst st)"
    and "ms_name service \<notin> set (fst st)"
  shows "progress C services st r \<and> (fst r = Inr () \<longrightarrow> set suf \<subseteq> set (fst (snd r))) \<and>
    keeps_waiting (fs @ [service]) r"
  using assms(2-)
proof (induction suf arbitrary: pre st)
  case Nil
  then show ?case by (cases st) (auto simp: replay_def ret_def keeps_waiting_def dest: waiting_frames)
next
  case (Cons d suf)
  show ?case
  proof (cases "find_service services d")
    case (Inl e)
    with Cons.prems show ?thesis by (cases st) (auto simp: keeps_waiting_def dest: waiting_frames)
  next
    case (Inr found)
    note name = find_service_name [OF Inr]
    from Cons.prems(1) Inr obtain r2 where r2: "call_start found st = Some r2" by (auto split: option.splits)
    have "waiting (fs @ [service]) found (fst st)"
      by (rule waiting_push [OF Cons.prems(5,6), of pre found suf]) (use Cons.prems name in auto)
    note first = start [OF Inr Cons.prems(4) this r2]
    obtain ok st2 where r2eq: "r2 = (ok, st2)" by (cases r2)
    show ?thesis
    proof (cases ok)
      case (Inl e)
      with Cons.prems(1) Inr r2 r2eq have "r = r2" by simp
      with first Inl show ?thesis by (simp add: r2eq)
    next
      case ok: (Inr u)
      from Cons.prems(1) Inr r2 r2eq ok have rest: "each (dependency_call services call_start) suf st2 = Some r" by simp
      have more: "set (fst st) \<subseteq> set (fst st2)" "ordered services (fst st2)"
        using progress_mono [of C services st r2] first by (simp_all add: r2eq)
      have "progress C services st2 r \<and> (fst r = Inr () \<longrightarrow> set suf \<subseteq> set (fst (snd r))) \<and> keeps_waiting (fs @ [service]) r"
      proof (rule Cons.IH [OF rest, of "pre @ [d]"])
        show "waiting fs service (fst st2)"
          by (rule waiting_more [OF Cons.prems(5) more(1)]) (use first in \<open>auto simp: keeps_waiting_def r2eq\<close>)
      qed (use Cons.prems more first ok in \<open>auto simp: keeps_waiting_def r2eq\<close>)
      with first ok progress_trans [of C services st st2 r] progress_mono(1) [of C services st2 r] show ?thesis
        by (auto simp: r2eq)
    qed
  qed
qed

lemma visit_progress:
  assumes "progress C services st (ok, (started1, w1))"
  shows "ok = Inr () \<Longrightarrow> find_service services (ms_name service) = Inr service \<Longrightarrow>
      ms_name service \<notin> set started1 \<Longrightarrow> set (ms_after service) \<subseteq> set started1 \<Longrightarrow>
      visit C service w1 = (Inr (), w2) \<Longrightarrow> progress C services st (Inr (), (started1 @ [ms_name service], w2))"
    and "progress C services st (Inl e, (started1, w3))"
proof -
  obtain started w where st: "st = (started, w)" by (cases st)
  from assms obtain new where new: "started1 = started @ new" "ordered services started1"
    "ok = Inr () \<Longrightarrow> replay C services new w = (Inr (), w1)" by (auto simp: st)
  then show "progress C services st (Inl e, (started1, w3))" by (simp add: st)
  assume "ok = Inr ()" and found: "find_service services (ms_name service) = Inr service"
    and fresh: "ms_name service \<notin> set started1" "set (ms_after service) \<subseteq> set started1"
    and v: "visit C service w1 = (Inr (), w2)"
  then have "replay C services (new @ [ms_name service]) w = (Inr (), w2)"
    using replay_append [OF new(3)] replay_one [OF found v] by simp
  with ordered_snoc [OF new(2) fresh(1) found fresh(2)] new(1)
  show "progress C services st (Inr (), (started1 @ [ms_name service], w2))"
    by (auto simp: st intro: exI [of _ "new @ [ms_name service]"])
qed

lemma start_one_progress:
  assumes "unique services" and "service \<in> set services" and "set fs \<subseteq> set services"
    and "ordered services (fst st)" and "waiting fs service (fst st)"
    and "start_one C services n service st = Some r"
  shows "progress C services st r \<and> (fst r = Inr () \<longrightarrow> ms_name service \<in> set (fst (snd r))) \<and> keeps_waiting fs r"
  using assms(2-)
proof (induction n arbitrary: service fs st r)
  case 0
  then show ?case by (cases st) simp
next
  case (Suc n)
  obtain started w where st: "st = (started, w)" by (cases st)
  note found = find_service_unique [OF assms(1) Suc.prems(1)]
  show ?case
  proof (cases "ms_name service \<in> set started")
    case True
    with Suc.prems show ?thesis
      by (auto simp: st replay_def ret_def keeps_waiting_def dest: waiting_frames)
  next
    case False
    have fresh: "service \<notin> set fs"
    proof
      assume "service \<in> set fs"
      then obtain xs ys where fs: "fs = xs @ service # ys" by (auto simp: in_set_conv_decomp)
      have "start_one C services (Suc n) service (started, w) = None"
        by (rule cycle_stuck [OF assms(1), where f = service and fs = ys])
           (use Suc.prems waiting_suffix [of xs "service # ys"] in \<open>auto simp: fs st\<close>)
      with Suc.prems(5) show False by (simp add: st)
    qed
    have names: "ms_name f \<noteq> ms_name service" if "f \<in> set fs" for f
      using that fresh found Suc.prems(2) find_service_unique [OF assms(1), of f] by auto
    from Suc.prems(5) False obtain r1
      where r1: "each (dependency_call services (start_one C services n)) (ms_after service) st = Some r1"
      by (auto simp: st split: option.splits)
    have call: "progress C services st' r' \<and> (fst r' = Inr () \<longrightarrow> d \<in> set (fst (snd r'))) \<and> keeps_waiting (fs @ [service]) r'"
      if "find_service services d = Inr found" "ordered services (fst st')" "waiting (fs @ [service]) found (fst st')"
        "start_one C services n found st' = Some r'" for d found st' r'
      using Suc.IH [of found "fs @ [service]" st' r'] find_service_name [OF that(1)] that Suc.prems(1,2) by simp
    have deps: "progress C services st r1 \<and> (fst r1 = Inr () \<longrightarrow> set (ms_after service) \<subseteq> set (fst (snd r1))) \<and>
        keeps_waiting (fs @ [service]) r1"
      by (rule each_progress [OF call r1, where pre = "[]"]) (use Suc.prems False in \<open>simp_all add: st\<close>)
    obtain ok started1 w1 where r1eq: "r1 = (ok, started1, w1)" by (metis prod.exhaust)
    show ?thesis
    proof (cases "\<exists>u2 w2. ok = Inr () \<and> visit C service w1 = (Inr u2, w2)")
      case True
      then obtain w2 where ok: "ok = Inr ()" and v: "visit C service w1 = (Inr (), w2)" by auto
      with Suc.prems(5) False r1 have "r = (Inr (), started1 @ [ms_name service], w2)" by (simp add: st r1eq)
      with deps ok v names visit_progress(1) [OF _ _ found _ _ v, of st] show ?thesis
        by (auto simp: r1eq keeps_waiting_def)
    next
      case stop: False
      with Suc.prems(5) False r1 obtain e w2 where "r = (Inl e, started1, w2)"
        by (auto simp: st r1eq split: sum.splits prod.splits)
      with deps visit_progress(2) [of C services st ok started1 w1] show ?thesis
        by (auto simp: r1eq keeps_waiting_def)
    qed
  qed
qed

lemma start_registered_run:
  assumes "unique services" and "start_registered C services n w = Some (Inr (), (started, w'))"
  shows "ordered services started \<and> distinct started \<and>
    (\<forall>s\<in>set services. ms_auto_start s \<longrightarrow> ms_name s \<in> set started) \<and>
    replay C services started w = (Inr (), w')"
proof -
  let ?f = "\<lambda>service st. if ms_auto_start service then start_one C services n service st else Some (Inr (), st)"
  have "progress C services st (Inr (), st') \<and> (\<forall>s\<in>set xs. ms_auto_start s \<longrightarrow> ms_name s \<in> set (fst st'))"
    if "each ?f xs st = Some (Inr (), st')" "ordered services (fst st)" "set xs \<subseteq> set services" for xs st st'
    using that
  proof (induction xs arbitrary: st)
    case Nil
    then show ?case by (cases st) (auto simp: replay_def ret_def)
  next
    case (Cons x xs)
    from Cons.prems(1) obtain st1 where st1: "?f x st = Some (Inr (), st1)" and rest: "each ?f xs st1 = Some (Inr (), st')"
      by (auto split: option.splits sum.splits)
    have first: "progress C services st (Inr (), st1) \<and> (ms_auto_start x \<longrightarrow> ms_name x \<in> set (fst st1))"
    proof (cases "ms_auto_start x")
      case True
      with st1 have "start_one C services n x st = Some (Inr (), st1)" by simp
      from start_one_progress [OF assms(1) _ _ Cons.prems(2) _ this, of "[]"] Cons.prems(3) show ?thesis by simp
    next
      case False
      with st1 Cons.prems(2) progress_stay(1) [of services "fst st" C "snd st"] show ?thesis by simp
    qed
    have "ordered services (fst st1)" using progress_mono(2) [OF conjunct1 [OF first]] by simp
    with Cons.IH [OF rest] Cons.prems(3) have IH: "progress C services st1 (Inr (), st')"
      "\<forall>s\<in>set xs. ms_auto_start s \<longrightarrow> ms_name s \<in> set (fst st')" by auto
    have "set (fst st1) \<subseteq> set (fst st')" using progress_mono(1) [OF IH(1)] by simp
    with first IH progress_trans [OF conjunct1 [OF first] IH(1)] show ?case by auto
  qed
  from this [of services "([], w)" "(started, w')"] assms(2) show ?thesis
    by (auto simp: start_registered_def dest: ordered_distinct)
qed


section \<open>Termination\<close>

definition depends :: "managed_service list \<Rightarrow> (string \<times> string) set" where
  "depends services = {(d, ms_name s) | d s. s \<in> set services \<and> d \<in> set (ms_after s)}"

lemma finite_depends: "finite (depends services)"
proof -
  have "depends services = (\<Union>s\<in>set services. (\<lambda>d. (d, ms_name s)) ` set (ms_after s))"
    by (auto simp: depends_def)
  then show ?thesis by simp
qed

lemma each_returns:
  "(\<And>x st. x \<in> set xs \<Longrightarrow> f x st \<noteq> None) \<Longrightarrow> each f xs st \<noteq> None"
proof (induction xs arbitrary: st)
  case (Cons x xs)
  obtain ok st' where "f x st = Some (ok, st')" using Cons.prems [of x st] by auto
  with Cons.IH [of st'] Cons.prems show ?case by (cases ok) auto
qed simp

lemma each_deeper:
  assumes "\<And>x st r. x \<in> set xs \<Longrightarrow> f x st = Some r \<Longrightarrow> g x st = Some r" and "each f xs st = Some r"
  shows "each g xs st = Some r"
  using assms
proof (induction xs arbitrary: st)
  case (Cons x xs)
  from Cons.prems(2) obtain ok st' where fx: "f x st = Some (ok, st')" by (auto split: option.splits)
  with Cons show ?case by (cases ok) auto
qed simp

lemma start_one_deeper: "start_one C services n s st = Some r \<Longrightarrow> start_one C services (Suc n) s st = Some r"
proof (induction n arbitrary: s st r)
  case (Suc n)
  obtain started w where st: "st = (started, w)" by (cases st)
  have deeper: "each (dependency_call services (start_one C services (Suc n))) xs st1 = Some r1"
    if "each (dependency_call services (start_one C services n)) xs st1 = Some r1" for xs st1 r1
    by (rule each_deeper [OF _ that]) (auto split: sum.splits intro: Suc.IH)
  show ?case
  proof (cases "ms_name s \<in> set started")
    case True
    with Suc.prems show ?thesis by (simp add: st)
  next
    case False
    with Suc.prems obtain r1
      where r1: "each (dependency_call services (start_one C services n)) (ms_after s) (started, w) = Some r1"
      by (auto simp: st split: option.splits)
    with Suc.prems False deeper [OF r1] show ?thesis by (simp add: st)
  qed
qed simp

lemma start_one_None:
  "start_one C services (Suc n) s st = None \<Longrightarrow>
     each (dependency_call services (start_one C services n)) (ms_after s) st = None"
  by (cases st) (auto split: if_splits option.splits sum.splits prod.splits)

lemma start_one_returns:
  assumes "wf (depends services)" and "s \<in> set services"
  shows "\<exists>n. \<forall>m\<ge>n. \<forall>st. start_one C services m s st \<noteq> None"
proof -
  have "\<forall>s\<in>set services. ms_name s = x \<longrightarrow> (\<exists>n. \<forall>m\<ge>n. \<forall>st. start_one C services m s st \<noteq> None)" for x
    using assms(1)
  proof (induction x rule: wf_induct_rule)
    case (less x)
    show ?case
    proof (intro ballI impI)
      fix s assume s: "s \<in> set services" "ms_name s = x"
      have "\<exists>n. \<forall>m\<ge>n. \<forall>st. dependency_call services (start_one C services m) d st \<noteq> None" if "d \<in> set (ms_after s)" for d
      proof (cases "find_service services d")
        case (Inr found)
        moreover have "(d, x) \<in> depends services" using that s by (auto simp: depends_def)
        ultimately show ?thesis using less [of d] find_service_name [OF Inr] by auto
      qed auto
      then obtain need where need: "\<And>d m st. d \<in> set (ms_after s) \<Longrightarrow> need d \<le> m \<Longrightarrow>
          dependency_call services (start_one C services m) d st \<noteq> None" by metis
      let ?n = "Max (insert 0 (need ` set (ms_after s)))"
      have "start_one C services m s st \<noteq> None" if m: "m \<ge> Suc ?n" for m st
      proof -
        obtain k where k: "m = Suc k" "?n \<le> k" using m by (cases m) auto
        then have "need d \<le> k" if "d \<in> set (ms_after s)" for d
          using Max_ge [of "insert 0 (need ` set (ms_after s))" "need d"] that by simp
        with need have "each (dependency_call services (start_one C services k)) (ms_after s) st1 \<noteq> None" for st1
          by (intro each_returns) blast
        then show ?thesis unfolding k(1) using start_one_None by blast
      qed
      then show "\<exists>n. \<forall>m\<ge>n. \<forall>st. start_one C services m s st \<noteq> None" by blast
    qed
  qed
  with assms(2) show ?thesis by blast
qed

text \<open>
  C12: if no service depends on itself, directly or through others, the start of all registered
  services returns, normally or with the exception of an unknown dependency or of the controller,
  and with the same result for every bound on the recursion that is deep enough.
\<close>

theorem start_registered_returns:
  assumes "acyclic (depends services)"
  shows "\<exists>n r. \<forall>m\<ge>n. start_registered C services m w = Some r"
proof -
  let ?f = "\<lambda>m service st. if ms_auto_start service then start_one C services m service st else Some (Inr (), st)"
  have "wf (depends services)" using assms finite_depends by (simp add: wf_iff_acyclic_if_finite)
  then have "\<forall>s\<in>set services. \<exists>n. \<forall>m\<ge>n. \<forall>st. start_one C services m s st \<noteq> None"
    using start_one_returns by blast
  then obtain need where need: "\<And>s m st. s \<in> set services \<Longrightarrow> need s \<le> m \<Longrightarrow> start_one C services m s st \<noteq> None"
    unfolding bchoice_iff by blast
  let ?n = "Max (insert 0 (need ` set services))"
  have "need s \<le> ?n" if "s \<in> set services" for s using that by simp
  with need have "each (?f ?n) services ([], w) \<noteq> None" by (intro each_returns) auto
  then obtain r where r: "start_registered C services ?n w = Some r" by (auto simp: start_registered_def)
  have "start_registered C services m w = Some r" if "m \<ge> ?n" for m
    using that
  proof (induction m rule: nat_induct_at_least)
    case (Suc m)
    show ?case unfolding start_registered_def
      by (rule each_deeper [OF _ Suc.IH [unfolded start_registered_def]])
         (auto dest: start_one_deeper split: if_splits)
  qed (rule r)
  then show ?thesis by blast
qed

lemma ordered_dependency:
  assumes "unique services" and "ordered services (xs @ y # ys)" and "(x, y) \<in> depends services"
  shows "x \<in> set xs"
proof -
  from assms(3) obtain t where t: "t \<in> set services" "ms_name t = y" "x \<in> set (ms_after t)" by (auto simp: depends_def)
  obtain t' where "find_service services y = Inr t'" "set (ms_after t') \<subseteq> set xs"
    using assms(2) unfolding ordered_def by blast
  with find_service_unique [OF assms(1) t(1)] t show ?thesis by auto
qed

lemma ordered_before:
  assumes "unique services" and "ordered services started" and "(x, y) \<in> (depends services)\<^sup>+" and "y \<in> set started"
  shows "\<exists>xs ys. started = xs @ y # ys \<and> x \<in> set xs"
  using assms(3)
proof (induction rule: converse_trancl_induct)
  case (base x)
  from assms(4) obtain xs ys where "started = xs @ y # ys" by (auto simp: in_set_conv_decomp)
  with base assms(1,2) ordered_dependency [of services xs y ys x] show ?case by blast
next
  case (step x z)
  then obtain xs ys as bs where started: "started = xs @ y # ys" and xs: "xs = as @ z # bs"
    by (auto simp: in_set_conv_decomp)
  with step(1) assms(1,2) ordered_dependency [of services as z "bs @ y # ys" x] have "x \<in> set as" by simp
  with xs have "x \<in> set xs" by simp
  with started show ?case by blast
qed

text \<open>
  C15: dependencies that form a cycle are not detected. An automatic service that depends on itself,
  directly or through others, is never reported started: no run returns normally, however deep its
  recursion may go.
\<close>

theorem cyclic_never_started:
  assumes "unique services" and "s \<in> set services" and "ms_auto_start s"
    and "(ms_name s, ms_name s) \<in> (depends services)\<^sup>+"
  shows "start_registered C services n w \<noteq> Some (Inr (), st)"
proof
  assume "start_registered C services n w = Some (Inr (), st)"
  then obtain started where ord: "ordered services started" and "distinct started" and s: "ms_name s \<in> set started"
    using start_registered_run [OF assms(1), of C n w "fst st" "snd st"] assms(2,3) by auto
  from ordered_before [OF assms(1) ord assms(4) s] \<open>distinct started\<close> show False by auto
qed

section \<open>Registration and control\<close>

text \<open>
  The names and units of the registered services stay unique: a service that repeats a name or a
  unit is refused without a change, any other is added at the end.
\<close>

theorem register_keeps_unique:
  assumes "unique services" and "register_service service services = (r, services')"
  shows "unique services' \<and>
    (r = Inr () \<and> services' = services @ [service] \<or>
     r = Inl (StdException ''duplicate managed service'') \<and> services' = services \<and>
       (\<exists>c\<in>set services. ms_name c = ms_name service \<or> ms_unit c = ms_unit service))"
  using assms
  by (auto simp: register_service_def bind_def gets_def throw_def modify_def unique_def image_iff split: if_splits)
     metis+

text \<open>Services for examples, and a controller whose surroundings are the units started, all inactive at first.\<close>

definition example_service :: "string \<Rightarrow> string list \<Rightarrow> bool \<Rightarrow> managed_service" where
  "example_service name after auto_start =
     \<lparr>ms_name = name, ms_unit = name @ ''.service'', ms_after = after, ms_auto_start = auto_start,
      ms_priority_tier = tier_normal\<rparr>"

definition recorder :: "string list controller" where
  "recorder =
     \<lparr>ct_inspect = (\<lambda>s w. (Inr (new_status s (if ms_unit s \<in> set w then ''active'' else ''inactive'') ''''), w)),
      ct_control = (\<lambda>s a w. (Inr (), w @ [ms_unit s]))\<rparr>"

text \<open>
  Two services that wait for each other make the start recurse without end, whatever the
  controller answers.
\<close>

theorem mutual_dependency_diverges:
  "start_registered C [example_service ''a'' [''b''] True, example_service ''b'' [''a''] True] n w = None"
proof -
  let ?a = "example_service ''a'' [''b''] True" and ?b = "example_service ''b'' [''a''] True"
  have "unique [?a, ?b]" by (simp add: unique_def example_service_def)
  moreover have "waiting [?a, ?b] ?a []" by (simp add: example_service_def)
  ultimately have "start_one C [?a, ?b] n ?a ([], w) = None"
    by (intro cycle_stuck [where f = ?a and fs = "[?b]"]) simp_all
  then show ?thesis by (simp add: start_registered_def) (simp add: example_service_def)
qed

text \<open>
  A service that is not to be started automatically is started nevertheless when an automatic
  one names it as a dependency.
\<close>

theorem optional_dependency_started:
  "start_registered recorder [example_service ''optional'' [] False, example_service ''app'' [''optional''] True] 2 [] =
     Some (Inr (), ([''optional'', ''app''], [''optional.service'', ''app.service'']))"
  by (simp add: start_registered_def example_service_def recorder_def find_service_def visit_def new_status_def bind_def
      cond_def numeral_2_eq_2)


theorem start_registered_returns_witness:
  "\<exists>n r. \<forall>m\<ge>n. start_registered recorder [example_service ''app'' [''db''] True, example_service ''db'' [] True] m [] = Some r"
proof (rule start_registered_returns)
  have "depends [example_service ''app'' [''db''] True, example_service ''db'' [] True] \<subseteq> {(''db'', ''app'')}"
    by (auto simp: depends_def example_service_def)
  moreover have "acyclic {(''db'', ''app'')}" by (simp add: acyclic_insert) (simp add: acyclic_def)
  ultimately show "acyclic (depends [example_service ''app'' [''db''] True, example_service ''db'' [] True])"
    by (rule acyclic_subset [rotated])
qed

theorem cyclic_never_started_witness:
  "start_registered recorder [example_service ''a'' [''a''] True] 9 [] \<noteq> Some (Inr (), ([''a''], []))"
proof (rule cyclic_never_started)
  let ?s = "[example_service ''a'' [''a''] True]"
  show "unique ?s" by (simp add: unique_def)
  show "example_service ''a'' [''a''] True \<in> set ?s" by simp
  show "ms_auto_start (example_service ''a'' [''a''] True)" by (simp add: example_service_def)
  have "(''a'', ''a'') \<in> depends ?s" by (auto simp: depends_def example_service_def)
  then show "(ms_name (example_service ''a'' [''a''] True), ms_name (example_service ''a'' [''a''] True)) \<in> (depends ?s)\<^sup>+"
    by (simp add: example_service_def)
qed

theorem register_keeps_unique_witness:
  "register_service (example_service ''a'' [] True) [example_service ''a'' [] False] =
     (Inl (StdException ''duplicate managed service''), [example_service ''a'' [] False]) \<and>
   unique [example_service ''a'' [] False]"
proof -
  have run: "register_service (example_service ''a'' [] True) [example_service ''a'' [] False] =
     (Inl (StdException ''duplicate managed service''), [example_service ''a'' [] False])"
    by (simp add: register_service_def bind_def gets_def throw_def example_service_def)
  from register_keeps_unique [OF _ run] run show ?thesis by (simp add: unique_def)
qed

end
