(* ===== verification/Network_Config.thy ===== *)
theory Network_Config
  imports Validation
begin

text \<open>
  The file systemd-networkd reads for an interface (network\_config.cpp). A validated configuration is
  rendered to a fixed list of lines; no value of it can leave its line.
\<close>

definition nl :: char where "nl = CHR 0x0A"

section \<open>Rendering\<close>

definition render_section :: "network_config \<Rightarrow> bool \<Rightarrow> nat \<Rightarrow> string \<Rightarrow> string" where
  "render_section c hasPreferred metric name =
     nl # ''['' @ name @ '']'' @ nl # ''UseDNS='' @ (if nc_dns_servers c = [] then ''yes'' else ''no'') @ [nl] @
     (if name = ''DHCPv4'' then ''UseDomains=yes'' @ [nl] else []) @
     (if hasPreferred \<and> name \<noteq> ''DHCPv6'' then ''RouteMetric='' @ to_string metric @ [nl] else [])"

definition renderNetwork :: "network_config \<Rightarrow> bool \<Rightarrow> string result" where
  "renderNetwork c hasPreferred =
     rseq (validateNetwork [c])
     (let metric = (if nc_preferred_default c then 100 else 600) in
      Inr (''# Generated by MNC System Manager'' @ nl # ''[Match]'' @ nl # ''Name='' @ nc_interface c @
        nl # nl # ''[Network]'' @ nl # ''DHCP='' @ (if nc_mode c = dhcp then ''yes'' else ''no'') @
        nl # ''IPv6AcceptRA=yes'' @ [nl] @
        (if nc_mode c = static_ipv4
         then ''Address='' @ nc_address c @ ''/'' @ to_string (unat (nc_prefix_length c)) @ [nl] else []) @
        concat (map (\<lambda>dns. ''DNS='' @ dns @ [nl]) (nc_dns_servers c)) @
        (if nc_mode c = static_ipv4 \<and> nc_gateway c \<noteq> []
         then nl # ''[Route]'' @ nl # ''Gateway='' @ nc_gateway c @ [nl] @
              (if hasPreferred then ''Metric='' @ to_string metric @ [nl] else [])
         else []) @
        concat (map (render_section c hasPreferred metric) [''DHCPv4'', ''DHCPv6'', ''IPv6AcceptRA''])))"

section \<open>The lines of the file\<close>

definition section_lines :: "network_config \<Rightarrow> bool \<Rightarrow> nat \<Rightarrow> string \<Rightarrow> string list" where
  "section_lines c hasPreferred metric name =
     [[], ''['' @ name @ '']'', ''UseDNS='' @ (if nc_dns_servers c = [] then ''yes'' else ''no'')] @
     (if name = ''DHCPv4'' then [''UseDomains=yes''] else []) @
     (if hasPreferred \<and> name \<noteq> ''DHCPv6'' then [''RouteMetric='' @ to_string metric] else [])"

definition network_lines :: "network_config \<Rightarrow> bool \<Rightarrow> string list" where
  "network_lines c hasPreferred =
     (let metric = (if nc_preferred_default c then 100 else 600) in
      [''# Generated by MNC System Manager'', ''[Match]'', ''Name='' @ nc_interface c, [], ''[Network]'',
       ''DHCP='' @ (if nc_mode c = dhcp then ''yes'' else ''no''), ''IPv6AcceptRA=yes''] @
      (if nc_mode c = static_ipv4
       then [''Address='' @ nc_address c @ ''/'' @ to_string (unat (nc_prefix_length c))] else []) @
      map (\<lambda>dns. ''DNS='' @ dns) (nc_dns_servers c) @
      (if nc_mode c = static_ipv4 \<and> nc_gateway c \<noteq> []
       then [[], ''[Route]'', ''Gateway='' @ nc_gateway c] @
            (if hasPreferred then [''Metric='' @ to_string metric] else [])
       else []) @
      concat (map (section_lines c hasPreferred metric) [''DHCPv4'', ''DHCPv6'', ''IPv6AcceptRA'']))"

definition unlines :: "string list \<Rightarrow> string" where
  "unlines ls = concat (map (\<lambda>l. l @ [nl]) ls)"

lemma unlines_simps [simp]:
  "unlines [] = []" "unlines (l # ls) = l @ nl # unlines ls" "unlines (xs @ ys) = unlines xs @ unlines ys"
  by (simp_all add: unlines_def)

lemma split_unlines: "\<forall>l\<in>set ls. nl \<notin> set l \<Longrightarrow> split_on nl (unlines ls) = ls @ [[]]"
  by (induction ls) auto

lemma unlines_section: "unlines (section_lines c hp metric name) = render_section c hp metric name"
  by (simp add: section_lines_def render_section_def)

lemma unlines_network:
  "renderNetwork c hp = rseq (validateNetwork [c]) (Inr (unlines (network_lines c hp)))"
proof -
  have "unlines (map (\<lambda>dns. ''DNS='' @ dns) ds) = concat (map (\<lambda>dns. ''DNS='' @ dns @ [nl]) ds)" for ds
    by (induction ds) simp_all
  then show ?thesis
    by (simp add: renderNetwork_def network_lines_def Let_def unlines_section)
qed

lemma numeral_characters: "nl \<notin> set (to_string n)"
  using to_string_digits [of nl n] by (auto simp: nl_def isdigit_def)

lemma ipv4_characters: "ipv4 s = Inr a \<Longrightarrow> nl \<notin> set s"
  by (auto simp: ipv4_dotted numeral_characters) (simp add: nl_def)

lemma name_characters: "validInterfaceName s \<Longrightarrow> nl \<notin> set s"
  by (auto simp: validInterfaceName_def list_all_iff name_char_def nl_def char_class)

lemma network_lines_single:
  assumes "wf_interface c" and "l \<in> set (network_lines c hp)"
  shows "nl \<notin> set l"
proof -
  have "nl \<notin> set (nc_interface c)" "\<forall>dns\<in>set (nc_dns_servers c). nl \<notin> set dns"
    using assms(1) name_characters ipv4_characters by (auto simp: wf_interface_def)
  moreover have "nl \<notin> set (nc_address c)" "nl \<notin> set (nc_gateway c)"
    using assms(1) ipv4_characters
    by (auto simp: wf_interface_def wf_static_def split: network_mode.splits if_splits)
  ultimately show ?thesis
    using assms(2) numeral_characters
    by (auto simp: network_lines_def section_lines_def Let_def nl_def split: if_splits)
qed

text \<open>
  C30: the file rendered for a configuration has exactly the lines of the template, each value on its
  own line and nothing else: no accepted name or address adds a line, a key or a section to it. A
  configuration that is not valid is refused.
\<close>

theorem renderNetwork_lines:
  "(case renderNetwork c hp of
      Inr contents \<Rightarrow> wf_network [c] \<and> split_on nl contents = network_lines c hp @ [[]]
    | Inl e \<Rightarrow> \<not> wf_network [c] \<and> (\<exists>message. e = Error invalid_argument message))"
proof (cases "validateNetwork [c]")
  case (Inl e)
  moreover have "argument_error (validateNetwork [c])" by blast
  ultimately show ?thesis
    using validateNetwork_Inr [of "[c]"] by (auto simp: unlines_network rseq_def argument_error_def)
next
  case (Inr u)
  then have wf: "wf_network [c]" using validateNetwork_Inr [of "[c]"] by simp
  then have "wf_interface c" by (simp add: wf_network_def)
  from network_lines_single [OF this] split_unlines have
    "split_on nl (unlines (network_lines c hp)) = network_lines c hp @ [[]]" by blast
  with Inr wf show ?thesis by (simp add: unlines_network rseq_def)
qed

end
