(* ===== verification/Profile.thy ===== *)
theory Profile
  imports Device Protocol
begin

text \<open>
  Loading the product profile and the boot preferences (storage.cpp): only trusted files are read,
  and the policy in them is checked before anything relies on it. \<open>lstat\<close>, the file's contents and
  the JSON library are parameters; paths are normalised as \<open>std::filesystem\<close> does it.
\<close>

unbundle bit_operations_syntax

section \<open>Paths\<close>

text \<open>
  A path is whether it has a root directory, its names, and whether a separator follows the last name.
\<close>

type_synonym path = "bool \<times> string list \<times> bool"

definition path_of :: "string \<Rightarrow> path" where
  "path_of s =
     (let names = filter (\<lambda>n. n \<noteq> []) (split_on (CHR ''/'') s)
      in (s \<noteq> [] \<and> hd s = CHR ''/'', names, s \<noteq> [] \<and> last s = CHR ''/'' \<and> names \<noteq> []))"

text \<open>The filename and the parent of a path, as iterating over its elements gives them.\<close>

definition filename :: "path \<Rightarrow> string" where
  "filename p = (case p of (absolute, names, trailing) \<Rightarrow> if trailing \<or> names = [] then [] else last names)"

definition parent :: "path \<Rightarrow> path" where
  "parent p = (case p of (absolute, names, trailing) \<Rightarrow>
     (absolute, if trailing then names else butlast names, False))"

text \<open>
  \<open>lexically_normal\<close>: dots are dropped, a name goes with the two dots that follow it, two dots at the
  root are dropped. What precedes a dropped element keeps its separator.
\<close>

definition open_name :: "string list \<Rightarrow> bool" where
  "open_name names = (names \<noteq> [] \<and> last names \<noteq> ''..'')"

definition normal_step :: "bool \<Rightarrow> string \<Rightarrow> string list \<times> bool \<Rightarrow> string list \<times> bool" where
  "normal_step absolute e st = (case st of (names, trailing) \<Rightarrow>
     if e = ''.'' then (names, open_name names)
     else if e = ''..'' then
       (if open_name names then (butlast names, open_name (butlast names))
        else if absolute then (names, False) else (names @ [''..''], False))
     else (names @ [e], False))"

definition lexically_normal :: "path \<Rightarrow> path" where
  "lexically_normal p = (case p of (absolute, names, trailing) \<Rightarrow>
     case fold (normal_step absolute) names ([], False) of (names', trailing') \<Rightarrow>
       (absolute, names', open_name names' \<and> (trailing \<or> trailing')))"

fun join_names :: "string list \<Rightarrow> string" where
  "join_names [] = []"
| "join_names [n] = n"
| "join_names (n # ns) = n @ ''/'' @ join_names ns"

definition path_string :: "path \<Rightarrow> string" where
  "path_string p = (case p of (absolute, names, trailing) \<Rightarrow>
     if \<not> absolute \<and> names = [] then ''.''
     else (if absolute then ''/'' else []) @ join_names names @ (if trailing then ''/'' else []))"

section \<open>Trusted files\<close>

text \<open>The mode bits 0022 (octal), the right of the group and of others to write, are 18.\<close>

record file_stat =
  fs_regular :: bool
  fs_uid :: "32 word"
  fs_mode :: "32 word"

record 'w files =
  fl_lstat :: "string \<Rightarrow> ('w, string + file_stat) io"
  fl_readFile :: "string \<Rightarrow> ('w, string) io"

definition trusted_file :: "file_stat \<Rightarrow> bool" where
  "trusted_file st = (\<not> (\<not> fs_regular st \<or> fs_uid st \<noteq> 0 \<or> fs_mode st AND 18 \<noteq> 0))"

definition check_trusted :: "'w files \<Rightarrow> string \<Rightarrow> string \<Rightarrow> string \<Rightarrow> ('w, unit) io" where
  "check_trusted F p what message =
     bind (fl_lstat F p) (\<lambda>r. case r of
       Inl err \<Rightarrow> throw (io_error what err)
     | Inr st \<Rightarrow> guard (trusted_file st) (Error permission_denied message))"

section \<open>The product profile\<close>

definition runtime_chars :: string where
  "runtime_chars = ''/abcdefghijklmnopqrstuvwxyzABCDEFGHIJKLMNOPQRSTUVWXYZ0123456789_-''"

definition valid_runtime_root :: "string \<Rightarrow> bool" where
  "valid_runtime_root root =
     (let runtime = path_of root in
      \<not> (parent runtime \<noteq> (True, [''run''], False) \<or> filename runtime = [] \<or>
         filename runtime = ''.'' \<or> filename runtime = ''..'' \<or> \<not> set root \<subseteq> set runtime_chars))"

definition valid_runtime_paths :: "profile \<Rightarrow> bool" where
  "valid_runtime_paths p =
     (\<not> (pf_runtime_etc_directory p \<noteq> [] \<and> pf_runtime_etc_directory p \<noteq> pf_runtime_root p @ ''/os'' \<or>
         pf_storage_status_file p \<noteq> [] \<and>
           pf_storage_status_file p \<noteq> pf_runtime_root p @ ''/storage/status.json''))"

definition complete_profile :: "profile \<Rightarrow> bool" where
  "complete_profile p =
     (\<not> (pf_state_directory p = [] \<or> pf_active_settings p = [] \<or> pf_settings_user p = [] \<or>
         pf_control_user p = []))"

definition protected_paths :: "path list" where
  "protected_paths = [(True, [''etc''], False), (True, [''var''], False), (True, [''data''], False),
     (True, [''usr''], False), (True, [''root''], False)]"

definition unsafe_reset :: "path \<Rightarrow> path \<Rightarrow> bool" where
  "unsafe_reset state target =
     (\<not> fst target \<or> target = (True, [], False) \<or> target \<in> set protected_paths \<or> target = state \<or>
      starts_with (path_string state) (path_string target @ ''/''))"

definition check_profile :: "profile \<Rightarrow> unit result" where
  "check_profile p =
     rseq (validate (pf_defaults p))
     (if \<not> valid_runtime_root (pf_runtime_root p) then Inl (Error invalid_argument ''invalid runtime root'')
      else if \<not> valid_runtime_paths p then Inl (Error invalid_argument ''unsupported runtime storage paths'')
      else if \<not> complete_profile p then Inl (Error invalid_argument ''incomplete system profile'')
      else
        let state = lexically_normal (path_of (pf_state_directory p)) in
        for_each (\<lambda>path.
          if unsafe_reset state (lexically_normal (path_of path))
          then Inl (Error invalid_argument ''unsafe reset path in product profile'')
          else Inr ()) (pf_reset_paths p))"

definition loadProfile :: "'w files \<Rightarrow> profile glaze \<Rightarrow> string \<Rightarrow> ('w, profile) io" where
  "loadProfile F g p =
     seq (check_trusted F p ''stat profile'' ''system profile must be a root-owned, non-writable regular file'')
     (bind (fl_readFile F p) (\<lambda>json.
     bind (of_result (decode g max_message_size json)) (\<lambda>profile.
     seq (of_result (check_profile profile)) (ret profile))))"

section \<open>Boot preferences\<close>

definition check_boot_interfaces :: "profile \<Rightarrow> configuration \<Rightarrow> unit result" where
  "check_boot_interfaces profile config =
     (if length (pr_network (cf_system config)) \<noteq> length (pf_interfaces profile)
      then Inl (Error invalid_argument ''boot preferences must include all managed interfaces'')
      else for_each (\<lambda>policy.
        if length (filter (\<lambda>n. nc_interface n = ip_name policy) (pr_network (cf_system config))) \<noteq> 1
        then Inl (Error invalid_argument ''invalid boot interface'') else Inr ()) (pf_interfaces profile))"

definition check_boot :: "profile \<Rightarrow> boot_preferences \<Rightarrow> profile result" where
  "check_boot profile boot0 =
     (if bp_schema_version boot0 \<noteq> 1 \<or> bp_managed_hostname boot0 = []
      then Inl (Error invalid_argument ''invalid boot preferences'')
      else
        let boot = boot0\<lparr>bp_factory := set_hostname (bp_managed_hostname boot0) (bp_factory boot0),
                         bp_initial := set_hostname (bp_managed_hostname boot0) (bp_initial boot0)\<rparr>
        in rseq (validate (bp_factory boot))
           (rseq (validate (bp_initial boot))
           (rseq (check_boot_interfaces profile (bp_factory boot))
           (rseq (check_boot_interfaces profile (bp_initial boot))
             (Inr (profile\<lparr>pf_defaults := bp_factory boot, pf_boot_preferences := Some boot\<rparr>))))))"

definition loadBootPreferences :: "'w files \<Rightarrow> boot_preferences glaze \<Rightarrow> profile \<Rightarrow> string \<Rightarrow>
    ('w, profile) io" where
  "loadBootPreferences F g profile p =
     seq (check_trusted F p ''stat boot preferences'' ''boot preferences must be root-owned and non-writable'')
     (bind (fl_readFile F p) (\<lambda>json.
     bind (of_result (decode g max_message_size json)) (\<lambda>boot. of_result (check_boot profile boot))))"

section \<open>The arguments of the program\<close>

text \<open>
  The loop of \<open>main\<close>: whether to boot, and the profile after the boot preferences named.
\<close>

fun parse_arguments :: "'w files \<Rightarrow> boot_preferences glaze \<Rightarrow> bool \<Rightarrow> profile \<Rightarrow> string list \<Rightarrow>
    ('w, bool \<times> profile) io" where
  "parse_arguments F g boot profile [] = ret (boot, profile)"
| "parse_arguments F g boot profile (argument # rest) =
     (if argument = ''--bootstrap'' then parse_arguments F g True profile rest
      else if argument = ''--boot-preferences'' \<and> rest \<noteq> []
      then bind (loadBootPreferences F g profile (hd rest)) (\<lambda>profile'.
             parse_arguments F g boot profile' (tl rest))
      else throw (StdException ''usage: mnc-system-manager [--bootstrap] [--boot-preferences FILE]''))"

definition configure :: "'w files \<Rightarrow> profile glaze \<Rightarrow> boot_preferences glaze \<Rightarrow> string list \<Rightarrow>
    ('w, bool \<times> profile) io" where
  "configure F gp gb arguments =
     bind (loadProfile F gp ''/usr/share/mnc/system/profile.json'') (\<lambda>profile.
       parse_arguments F gb False profile arguments)"

section \<open>Normal paths\<close>

lemma fold_normal_step:
  assumes "''..'' \<notin> set names" and "[] \<notin> set xs"
  shows "fst (fold (normal_step True) xs (names, t)) = fold locate_step xs names"
  using assms
proof (induction xs arbitrary: names t)
  case (Cons x xs)
  have "open_name names \<longleftrightarrow> names \<noteq> []"
    using Cons.prems(1) unfolding open_name_def by (metis last_in_set)
  then have step: "normal_step True x (names, t) = (locate_step x names, snd (normal_step True x (names, t)))"
    using Cons.prems(2) by (auto simp: normal_step_def locate_step_def)
  have "''..'' \<notin> set (locate_step x names)"
    using Cons.prems(1) by (auto simp: locate_step_def dest: in_set_butlastD)
  with Cons.IH [of "locate_step x names"] Cons.prems(2) show ?case by (subst fold_simps, subst step) simp
qed simp

lemma fold_locate_filter: "fold locate_step (filter (\<lambda>n. n \<noteq> []) xs) acc = fold locate_step xs acc"
  by (induction xs arbitrary: acc) (simp_all add: locate_step_def)

lemma normal_names:
  assumes "s \<noteq> []" and "hd s = CHR ''/''"
  shows "\<exists>t. lexically_normal (path_of s) = (True, locate s, t)"
proof -
  let ?xs = "filter (\<lambda>n. n \<noteq> []) (split_on (CHR ''/'') s)"
  have "fst (fold (normal_step True) ?xs ([], False)) = locate s"
    using fold_normal_step [of "[]" ?xs] fold_locate_filter [of "split_on (CHR ''/'') s" "[]"] by (simp add: locate_def)
  with assms show ?thesis by (auto simp: lexically_normal_def path_of_def Let_def split: prod.split)
qed

lemma join_names_append: "xs \<noteq> [] \<Longrightarrow> ys \<noteq> [] \<Longrightarrow> join_names (xs @ ys) = join_names xs @ ''/'' @ join_names ys"
proof (induction xs rule: join_names.induct)
  case (2 n)
  then show ?case by (cases ys) auto
qed auto

lemma path_of_absolute: "fst (lexically_normal (path_of s)) = (s \<noteq> [] \<and> hd s = CHR ''/'')"
  by (auto simp: lexically_normal_def path_of_def Let_def split: prod.split)

section \<open>What a loaded profile guarantees\<close>

lemma check_profile_parts:
  assumes "check_profile p = Inr ()"
  shows "wf_configuration (pf_defaults p)" and "valid_runtime_root (pf_runtime_root p)"
    and "valid_runtime_paths p" and "complete_profile p"
    and "\<And>path. path \<in> set (pf_reset_paths p) \<Longrightarrow>
      \<not> unsafe_reset (lexically_normal (path_of (pf_state_directory p))) (lexically_normal (path_of path))"
  using assms
  by (auto simp: check_profile_def rseq_def Let_def validate_Inr [symmetric] split: sum.splits if_splits)


definition example_profile_with :: "string list \<Rightarrow> profile" where
  "example_profile_with paths = default_profile
     \<lparr>pf_settings_user := ''settings'', pf_control_user := ''control'', pf_state_directory := ''/data/state'',
      pf_active_settings := ''/data/active.json'', pf_reset_paths := paths\<rparr>"



lemma trusted_bits:
  "trusted_file st \<longleftrightarrow> fs_regular st \<and> fs_uid st = 0 \<and> \<not> bit (fs_mode st) 1 \<and> \<not> bit (fs_mode st) 4"
proof -
  have "m AND 18 = (m AND 2 ^ 1) OR (m AND 2 ^ 4)" for m :: "32 word"
    by (simp flip: bit.conj_disj_distrib)
  then have "m AND 18 = 0 \<longleftrightarrow> \<not> bit m 1 \<and> \<not> bit m 4" for m :: "32 word"
    using and_exp_eq_0_iff_not_bit [of m 1] and_exp_eq_0_iff_not_bit [of m 4] by (metis or_eq_0_iff)
  then show ?thesis by (auto simp: trusted_file_def)
qed

text \<open>
  The profile and the boot preferences are read only if the file is regular, owned by root and
  writable neither by its group nor by others: of any other file, not even the contents are read.
\<close>

theorem profile_trusted:
  assumes "fl_lstat F p w = (Inr (Inr st), w1)"
    and "\<not> (fs_regular st \<and> fs_uid st = 0 \<and> \<not> bit (fs_mode st) 1 \<and> \<not> bit (fs_mode st) 4)"
  shows "(\<exists>message. loadProfile F gp p w = (Inl (Error permission_denied message), w1)) \<and>
    (\<exists>message. loadBootPreferences F gb profile p w = (Inl (Error permission_denied message), w1))"
proof -
  have "\<not> trusted_file st" using assms(2) trusted_bits [of st] by blast
  with assms(1) show ?thesis
    by (simp add: loadProfile_def loadBootPreferences_def check_trusted_def seq_def bind_def guard_def throw_def)
qed

theorem profile_trusted_witness:
  "\<exists>message. loadProfile \<lparr>fl_lstat = (\<lambda>_ w. (Inr (Inr \<lparr>fs_regular = True, fs_uid = 0, fs_mode = 420 + 2\<rparr>), w)),
       fl_readFile = (\<lambda>_. ret [])\<rparr> (\<lparr>gz_read = (\<lambda>_. Inl []), gz_write = (\<lambda>_. None)\<rparr> :: profile glaze) ''/p'' () = (Inl (Error permission_denied message), ())"
proof -
  let ?F = "\<lparr>fl_lstat = (\<lambda>_ w. (Inr (Inr \<lparr>fs_regular = True, fs_uid = 0, fs_mode = 420 + 2\<rparr>), w)),
       fl_readFile = (\<lambda>_. ret [])\<rparr> :: unit files"
  have "bit (422 :: 32 word) 1" by simp
  then show ?thesis
    using profile_trusted [of ?F "''/p''" "()" "\<lparr>fs_regular = True, fs_uid = 0, fs_mode = 420 + 2\<rparr>" "()"
      "\<lparr>gz_read = (\<lambda>_. Inl []), gz_write = (\<lambda>_. None)\<rparr>"] by auto
qed

text \<open>Boot preferences keep the profile fit for the backend.\<close>

lemma check_boot_wf:
  assumes "check_boot profile boot = Inr profile'"
  shows "wf_profile profile'"
proof -
  have valid: "valid_hostname (pr_hostname (cf_system c))" if "wf_configuration c" for c
    using that by (simp add: wf_configuration_def)
  show ?thesis
    using assms valid [of "set_hostname (bp_managed_hostname boot) (bp_initial boot)"]
    by (auto simp: check_boot_def rseq_def Let_def wf_profile_def validate_Inr split: sum.splits if_splits)
qed

lemma wp_parse_arguments:
  assumes "wf_profile profile"
  shows "wp (parse_arguments F g boot profile arguments) (\<lambda>(_, profile') _. wf_profile profile') (\<lambda>_ _. True) w"
  using assms
proof (induction F g boot profile arguments arbitrary: w rule: parse_arguments.induct)
  case (1 F g boot profile w)
  then show ?case by (simp add: wp_rules)
next
  case (2 F g boot profile argument rest w)
  have "wp (loadBootPreferences F g profile p) (\<lambda>profile' _. wf_profile profile') (\<lambda>_ _. True) w" for p w
    by (rule wp_eqI)
       (auto simp: loadBootPreferences_def seq_def bind_def of_result_def dest: check_boot_wf
         split: prod.splits sum.splits)
  then have "wp (bind (loadBootPreferences F g profile (hd rest)) (\<lambda>profile'. parse_arguments F g boot profile' (tl rest)))
      (\<lambda>(_, profile') _. wf_profile profile') (\<lambda>_ _. True) w" if "argument \<noteq> ''--bootstrap''" "argument = ''--boot-preferences'' \<and> rest \<noteq> []"
    unfolding wp_bind by (rule wp_mono) (use 2(2) [OF that] in auto)
  then show ?case
    using 2(1) [of w] 2(3) by (cases "argument = ''--bootstrap''") (auto simp: wp_rules)
qed

lemma configure_wf:
  assumes "\<And>json profile. decode gp max_message_size json = Inr profile \<Longrightarrow> pf_boot_preferences profile = None"
    and "configure F gp gb arguments w = (Inr (boot, profile), w')"
  shows "wf_profile profile"
proof -
  have "wf_profile profile" if "check_profile profile = Inr ()" "decode gp max_message_size json = Inr profile" for profile json
    using that assms(1) check_profile_parts(1) [OF that(1)] by (auto simp: wf_profile_def)
  then have "wp (loadProfile F gp p) (\<lambda>profile _. wf_profile profile) (\<lambda>_ _. True) w" for p
    by (intro wp_eqI)
       (auto simp: loadProfile_def seq_def bind_def of_result_def ret_def split: prod.splits sum.splits)
  then have "wp (configure F gp gb arguments) (\<lambda>(_, profile) _. wf_profile profile) (\<lambda>_ _. True) w"
    unfolding configure_def wp_bind by (rule wp_mono) (use wp_parse_arguments in auto)
  with assms(2) show ?thesis by (simp add: wp_run)
qed


text \<open>Files and a library that yield one profile.\<close>

definition example_files :: "unit files" where
  "example_files =
     \<lparr>fl_lstat = (\<lambda>_. ret (Inr \<lparr>fs_regular = True, fs_uid = 0, fs_mode = 420\<rparr>)), fl_readFile = (\<lambda>_. ret ''x'')\<rparr>"

definition one_profile :: "profile glaze" where
  "one_profile = \<lparr>gz_read = (\<lambda>_. Inr (example_profile_with [''/data/app''])), gz_write = (\<lambda>_. None)\<rparr>"


end
