(* ===== verification/Clock_Policy.thy ===== *)
theory Clock_Policy
  imports Profile
begin

text \<open>
  Time synchronisation policy (clock\_config.cpp, ptp.cpp): which units of which mode run, the PTP
  ports that may be selected, and the files that tell the time services about it. What the kernel
  says of an interface is a parameter.
\<close>

section \<open>Ports for PTP\<close>

record capabilities =
  tc_phc_index :: int
  tc_hardware :: bool

definition no_capabilities :: capabilities where
  "no_capabilities = \<lparr>tc_phc_index = -1, tc_hardware = False\<rparr>"

text \<open>
  \<open>SOF_TIMESTAMPING_TX_HARDWARE\<close>, \<open>RX_HARDWARE\<close> and \<open>RAW_HARDWARE\<close> of linux/net\_tstamp.h.
\<close>

definition timestamping_required :: "32 word" where
  "timestamping_required = 2 ^ 0 OR 2 ^ 2 OR 2 ^ 6"

text \<open>
  \<open>timestampCapabilities\<close>; whether a socket opens and what the ioctl returns (the clock's index and
  the flags) are arguments.
\<close>

definition timestampCapabilities :: "bool \<Rightarrow> (string \<Rightarrow> (int \<times> 32 word) option) \<Rightarrow> string \<Rightarrow> capabilities" where
  "timestampCapabilities socket_opens ioctl name =
     (if \<not> validInterfaceName name then no_capabilities
      else if \<not> socket_opens then no_capabilities
      else case ioctl name of
             None \<Rightarrow> no_capabilities
           | Some (phc_index, so_timestamping) \<Rightarrow>
               \<lparr>tc_phc_index = phc_index,
                tc_hardware = 0 \<le> phc_index \<and>
                  so_timestamping AND timestamping_required = timestamping_required\<rparr>)"

text \<open>An entry of /sys/class/net: its name, the number in \<open>carrier\<close> (0 where it cannot be read), and
  the name of its device-tree node, if it has one.\<close>

record net_entry =
  ne_name :: string
  ne_carrier :: int
  ne_of_node :: "string option"

definition managed_entry :: "profile \<Rightarrow> net_entry \<Rightarrow> bool" where
  "managed_entry profile entry =
     (case find (\<lambda>policy. ip_name policy = ne_name entry) (pf_interfaces profile) of
        None \<Rightarrow> False
      | Some policy \<Rightarrow>
          if ip_device_tree_node policy \<noteq> [] then ne_of_node entry = Some (ip_device_tree_node policy) else True)"

definition ptp_interface_of :: "profile \<Rightarrow> (string \<Rightarrow> capabilities) \<Rightarrow> net_entry \<Rightarrow> ptp_interface" where
  "ptp_interface_of profile query entry =
     (let caps = query (ne_name entry);
          reason = (if \<not> managed_entry profile entry then ''Interface is not managed by this product''
                    else if pf_ptp_unit_templates profile = [] then ''PTP is unavailable on this product''
                    else if \<not> tc_hardware caps then ''Hardware PTP timestamps are unavailable''
                    else [])
      in \<lparr>pi_interface = ne_name entry, pi_carrier = ne_carrier entry = 1,
          pi_hardware_timestamping = tc_hardware caps, pi_phc_index = tc_phc_index caps,
          pi_selectable = reason = [], pi_reason = reason\<rparr>)"

definition discoverPtpInterfaces :: "profile \<Rightarrow> net_entry list \<Rightarrow> (string \<Rightarrow> capabilities) \<Rightarrow> ptp_interface list" where
  "discoverPtpInterfaces profile found query =
     sort_key pi_interface
       (map (ptp_interface_of profile query)
         (filter (\<lambda>entry. \<not> (\<not> validInterfaceName (ne_name entry) \<or> ne_name entry = ''lo'')) found))"

definition validatePtpSelection :: "time_preferences \<Rightarrow> ptp_interface list \<Rightarrow> unit result" where
  "validatePtpSelection time interfaces =
     (if tp_synchronization time \<noteq> ''ptp'' then Inr ()
      else case find (\<lambda>i. pi_interface i = tp_ptp_interface time) interfaces of
             None \<Rightarrow> Inl (Error invalid_argument ''Selected PTP interface is unavailable'')
           | Some found \<Rightarrow>
               if \<not> pi_selectable found then Inl (Error invalid_argument (pi_reason found)) else Inr ())"

section \<open>Units\<close>

record clock_units =
  cu_stop :: "string list"
  cu_start :: "string list"

definition escape_name :: "string \<Rightarrow> string" where
  "escape_name name = concat (map (\<lambda>c. if c = CHR ''-'' then CHR 0x5C # ''x2d'' else [c]) name)"

definition instance_name :: "string \<Rightarrow> string \<Rightarrow> string result" where
  "instance_name unit name =
     (if \<not> validInterfaceName name \<or> \<not> ends_with unit ''@.service''
      then Inl (Error invalid_argument ''Invalid PTP unit template or interface'')
      else Inr (take (length unit - 8) unit @ escape_name name @ ''.service''))"

fun map_result :: "('a \<Rightarrow> 'b result) \<Rightarrow> 'a list \<Rightarrow> 'b list result" where
  "map_result f [] = Inr []"
| "map_result f (x # xs) = rbind (f x) (\<lambda>y. rbind (map_result f xs) (\<lambda>ys. Inr (y # ys)))"

text \<open>The units of the selected mode; for NTP they are the profile's own list.\<close>

definition selected_units :: "profile \<Rightarrow> time_preferences \<Rightarrow> string list result" where
  "selected_units profile time =
     (if tp_synchronization time = ''irig'' then
        (if pf_irig_units profile = [] then Inl (Error unsupported ''IRIG source profile is unavailable'')
         else Inr (pf_irig_units profile))
      else if tp_synchronization time = ''ptp'' then
        (if find (\<lambda>i. ip_name i = tp_ptp_interface time) (pf_interfaces profile) = None \<or>
            pf_ptp_unit_templates profile = []
         then Inl (Error invalid_argument ''Selected PTP interface is not supported'')
         else map_result (\<lambda>unit. instance_name unit (tp_ptp_interface time)) (pf_ptp_unit_templates profile))
      else Inr [])"

text \<open>Every instance a template and a port can make, after the legacy units, without repetitions.\<close>

fun add_instances :: "string list \<Rightarrow> (string \<times> string) list \<Rightarrow> string list result" where
  "add_instances all [] = Inr all"
| "add_instances all ((unit, port) # rest) =
     rbind (instance_name unit port) (\<lambda>name.
       add_instances (if name \<in> set all then all else all @ [name]) rest)"

definition clockUnits :: "profile \<Rightarrow> time_preferences \<Rightarrow> clock_units result" where
  "clockUnits profile time =
     rbind (selected_units profile time) (\<lambda>selected.
     rbind (add_instances (pf_ptp_units profile)
              (concat (map (\<lambda>port. map (\<lambda>unit. (unit, ip_name port)) (pf_ptp_unit_templates profile))
                 (pf_interfaces profile)))) (\<lambda>ptp.
     let all = ptp @ pf_irig_units profile;
         stop = filter (\<lambda>unit. unit \<notin> set selected) (rev all)
     in Inr (if tp_synchronization time \<noteq> ''ntp''
             then \<lparr>cu_stop = stop @ rev (pf_ntp_units profile), cu_start = selected\<rparr>
             else \<lparr>cu_stop = stop, cu_start = pf_ntp_units profile\<rparr>)))"

section \<open>Files\<close>

definition seen_name :: "string \<Rightarrow> string" where
  "seen_name root = filename (path_of root)"

text \<open>
  The directories on the way to a file that do not exist yet. The root always exists.
\<close>

function missing_directories :: "node \<Rightarrow> (fs, node list) io" where
  "missing_directories n =
     (if n = [] then ret []
      else bind (node_exists n) (\<lambda>present.
        if present then ret [] else bind (missing_directories (butlast n)) (\<lambda>ds. ret (n # ds))))"
  by pat_completeness auto
termination by (relation "measure length") auto

declare missing_directories.simps [simp del]

text \<open>
  \<open>readableWrite\<close>: a file that already has the contents is left alone. Permissions are calls that may
  fail; the model does not keep them.
\<close>

definition set_permissions :: "(fs, unit) io" where
  "set_permissions = filesystem_call (\<lambda>f. f)"

definition readableWrite :: "string \<Rightarrow> string \<Rightarrow> (fs, bool) io" where
  "readableWrite path v =
     bind (node_exists (locate path)) (\<lambda>present.
     bind (if present then bind (readFile read_limit path) (\<lambda>c. ret (c = v)) else ret False) (\<lambda>same.
     if same then ret False
     else
       bind (missing_directories (locate (parent_path path))) (\<lambda>missing.
       seq (create_directories (locate (parent_path path)))
       (seq (for_io (\<lambda>_. set_permissions) missing)
       (seq set_permissions
       (seq (atomicWrite path v)
       (seq set_permissions (ret True))))))))"

record clock_changes =
  cc_servers :: bool
  cc_network :: bool

definition line_feed :: char where "line_feed = CHR 0x0A"

definition time_config :: "string list \<Rightarrow> string" where
  "time_config servers =
     ''[Time]'' @ [line_feed] @
     (if servers \<noteq> []
      then ''NTP='' @ [line_feed] @ ''NTP='' @ concat (map (\<lambda>server. server @ '' '') servers) @
           [line_feed] @ ''FallbackNTP='' @ [line_feed]
      else [])"

definition no_ntp_from_dhcp :: string where
  "no_ntp_from_dhcp =
     ''[Network]'' @ [line_feed] @ ''NTP='' @ [line_feed] @ ''[DHCPv4]'' @ [line_feed] @ ''UseNTP=no'' @
     [line_feed] @ ''[DHCPv6]'' @ [line_feed] @ ''UseNTP=no'' @ [line_feed]"

definition mode_marker :: "profile \<Rightarrow> string \<Rightarrow> string \<Rightarrow> string" where
  "mode_marker profile runtime mode =
     path_join (path_join (path_join runtime (seen_name (pf_runtime_root profile))) ''system'') (mode @ ''-disabled'')"

definition mode_step :: "profile \<Rightarrow> time_preferences \<Rightarrow> string \<Rightarrow> string \<Rightarrow> (fs, unit) io" where
  "mode_step profile time runtime mode =
     (if tp_synchronization time = mode then durableRemove (mode_marker profile runtime mode)
      else atomicWrite (mode_marker profile runtime mode) (''disabled'' @ [line_feed]))"

definition port_policy :: "string \<Rightarrow> interface_policy \<Rightarrow> string" where
  "port_policy runtime port =
     path_join (path_join (path_join runtime ''systemd/network'') (''10-mnc-'' @ ip_name port @ ''.network.d''))
       ''50-mnc-time.conf''"

text \<open>The loop over the ports; the accumulator is \<open>changes.network\<close>.\<close>

fun port_policies :: "time_preferences \<Rightarrow> string \<Rightarrow> bool \<Rightarrow> interface_policy list \<Rightarrow> (fs, bool) io" where
  "port_policies time runtime changed [] = ret changed"
| "port_policies time runtime changed (port # ports) =
     seq (guard (validInterfaceName (ip_name port)) (Error invalid_argument ''invalid policy interface''))
     (if tp_ntp_servers time \<noteq> []
      then bind (readableWrite (port_policy runtime port) no_ntp_from_dhcp)
             (\<lambda>c. port_policies time runtime (changed \<or> c) ports)
      else bind (node_exists (locate (port_policy runtime port))) (\<lambda>present.
        if present then seq (durableRemove (port_policy runtime port)) (port_policies time runtime True ports)
        else port_policies time runtime changed ports))"

definition server_policy :: "string \<Rightarrow> string" where
  "server_policy runtime = path_join runtime ''systemd/timesyncd.conf.d/90-mnc-time.conf''"

definition writeClockPolicy :: "profile \<Rightarrow> time_preferences \<Rightarrow> string \<Rightarrow> (fs, clock_changes) io" where
  "writeClockPolicy profile time runtime =
     seq (of_result (validate (default_configuration\<lparr>cf_time := time\<rparr>)))
     (seq (guard (\<not> (tp_synchronization time = ''irig'' \<and> pf_irig_units profile = []))
             (Error unsupported ''IRIG source profile is unavailable''))
     (seq (for_io (mode_step profile time runtime) [''ntp'', ''ptp'', ''irig''])
     (bind (readableWrite (server_policy runtime)
              (time_config (tp_ntp_servers time))) (\<lambda>servers.
     bind (port_policies time runtime False (pf_interfaces profile)) (\<lambda>network.
     ret \<lparr>cc_servers = servers, cc_network = network\<rparr>)))))"


section \<open>Units of a mode\<close>

text \<open>What the instances of the templates are, where no template or port is refused.\<close>

definition instance_of :: "string \<Rightarrow> string \<Rightarrow> string" where
  "instance_of unit name = take (length unit - 8) unit @ escape_name name @ ''.service''"

definition templates_ok :: "profile \<Rightarrow> bool" where
  "templates_ok profile =
     ((\<forall>unit\<in>set (pf_ptp_unit_templates profile). ends_with unit ''@.service'') \<and>
      (\<forall>port\<in>set (pf_interfaces profile). validInterfaceName (ip_name port)))"

lemma instance_name_Inr:
  "instance_name unit name = Inr x \<longleftrightarrow>
     validInterfaceName name \<and> ends_with unit ''@.service'' \<and> x = instance_of unit name"
  by (auto simp: instance_name_def instance_of_def)

lemma map_result_Inr:
  "map_result f xs = Inr ys \<longleftrightarrow> list_all2 (\<lambda>x y. f x = Inr y) xs ys"
  by (induction xs arbitrary: ys) (auto simp: list_all2_Cons1)

lemma map_instances:
  "map_result (\<lambda>unit. instance_name unit name) units = Inr ys \<longleftrightarrow>
     (\<forall>unit\<in>set units. validInterfaceName name \<and> ends_with unit ''@.service'') \<and>
     ys = map (\<lambda>unit. instance_of unit name) units"
  unfolding map_result_Inr instance_name_Inr by (induction units arbitrary: ys) (auto simp: list_all2_Cons1)

lemma add_instances_Inr:
  "add_instances all ps = Inr ys \<Longrightarrow>
     set ys = set all \<union> (\<lambda>(unit, port). instance_of unit port) ` set ps \<and>
     (\<forall>(unit, port)\<in>set ps. validInterfaceName port \<and> ends_with unit ''@.service'')"
proof (induction ps arbitrary: all)
  case (Cons p ps)
  obtain unit port where p: "p = (unit, port)" by (cases p)
  let ?all = "if instance_of unit port \<in> set all then all else all @ [instance_of unit port]"
  from Cons.prems p have "validInterfaceName port" "ends_with unit ''@.service''" "add_instances ?all ps = Inr ys"
    by (auto simp: instance_name_Inr)
  moreover have "set ?all = insert (instance_of unit port) (set all)" by auto
  ultimately show ?case using Cons.IH [of ?all] p by simp
qed simp

lemma add_instances_returns:
  "\<forall>(unit, port)\<in>set ps. validInterfaceName port \<and> ends_with unit ''@.service'' \<Longrightarrow>
     \<exists>ys. add_instances all ps = Inr ys"
proof (induction all ps rule: add_instances.induct)
  case (2 all unit port rest)
  then have "instance_name unit port = Inr (instance_of unit port)" by (simp add: instance_name_Inr)
  with 2 show ?case by auto
qed simp

text \<open>All units the profile knows for a mode, and those that run in it.\<close>

definition ptp_instances :: "profile \<Rightarrow> string set" where
  "ptp_instances profile =
     {instance_of unit (ip_name port) | unit port.
        unit \<in> set (pf_ptp_unit_templates profile) \<and> port \<in> set (pf_interfaces profile)}"

definition mode_units :: "profile \<Rightarrow> time_preferences \<Rightarrow> string set" where
  "mode_units profile time =
     (if tp_synchronization time = ''ntp'' then set (pf_ntp_units profile)
      else if tp_synchronization time = ''irig'' then set (pf_irig_units profile)
      else if tp_synchronization time = ''ptp''
           then (\<lambda>unit. instance_of unit (tp_ptp_interface time)) ` set (pf_ptp_unit_templates profile)
      else {})"

definition known_units :: "profile \<Rightarrow> string set" where
  "known_units profile =
     set (pf_ptp_units profile) \<union> ptp_instances profile \<union> set (pf_irig_units profile) \<union> set (pf_ntp_units profile)"

lemma instance_pairs:
  "(\<lambda>(unit, port). instance_of unit port) `
     set (concat (map (\<lambda>port. map (\<lambda>unit. (unit, ip_name port)) (pf_ptp_unit_templates profile)) (pf_interfaces profile)))
   = ptp_instances profile"
  by (auto simp: ptp_instances_def)

lemma selected_known:
  assumes "selected_units profile time = Inr selected"
  shows "set selected \<subseteq> ptp_instances profile \<union> set (pf_irig_units profile)"
    and "tp_synchronization time \<noteq> ''ntp'' \<Longrightarrow> set selected = mode_units profile time"
    and "tp_synchronization time = ''ntp'' \<Longrightarrow> selected = []"
proof -
  have named: "instance_of unit (tp_ptp_interface time) \<in> ptp_instances profile"
    if "unit \<in> set (pf_ptp_unit_templates profile)" "port \<in> set (pf_interfaces profile)"
      "ip_name port = tp_ptp_interface time" for unit port
    using that unfolding ptp_instances_def by (metis (mono_tags, lifting) mem_Collect_eq)
  show "set selected \<subseteq> ptp_instances profile \<union> set (pf_irig_units profile)"
    "tp_synchronization time \<noteq> ''ntp'' \<Longrightarrow> set selected = mode_units profile time"
    "tp_synchronization time = ''ntp'' \<Longrightarrow> selected = []"
    using assms named by (auto simp: selected_units_def map_instances mode_units_def find_None_iff split: if_splits)
qed


lemma clockUnits_sets:
  assumes "clockUnits profile time = Inr u"
    and "set (pf_ntp_units profile) \<inter>
      (set (pf_ptp_units profile) \<union> ptp_instances profile \<union> set (pf_irig_units profile)) = {}"
  shows "set (cu_start u) = mode_units profile time" and "set (cu_stop u) = known_units profile - mode_units profile time"
proof -
  from assms(1) obtain selected ptp where sel: "selected_units profile time = Inr selected"
    and ptp: "add_instances (pf_ptp_units profile) (concat (map (\<lambda>port. map (\<lambda>unit. (unit, ip_name port))
        (pf_ptp_unit_templates profile)) (pf_interfaces profile))) = Inr ptp"
    and u: "u = (if tp_synchronization time \<noteq> ''ntp''
       then \<lparr>cu_stop = filter (\<lambda>unit. unit \<notin> set selected) (rev (ptp @ pf_irig_units profile)) @ rev (pf_ntp_units profile),
             cu_start = selected\<rparr>
       else \<lparr>cu_stop = filter (\<lambda>unit. unit \<notin> set selected) (rev (ptp @ pf_irig_units profile)),
             cu_start = pf_ntp_units profile\<rparr>)"
    unfolding clockUnits_def Let_def rbind_simps by auto
  have all: "set ptp = set (pf_ptp_units profile) \<union> ptp_instances profile"
    using add_instances_Inr [OF ptp] unfolding instance_pairs by simp
  note chosen = selected_known [OF sel]
  show "set (cu_start u) = mode_units profile time" using u chosen(2) by (simp add: mode_units_def)
  show "set (cu_stop u) = known_units profile - mode_units profile time"
  proof (cases "tp_synchronization time = ''ntp''")
    case True
    with u chosen(3) all assms(2) show ?thesis by (auto simp: mode_units_def known_units_def)
  next
    case False
    with u chosen(1,2) all assms(2) show ?thesis by (auto simp: known_units_def)
  qed
qed

lemma clockUnits_returns:
  assumes "templates_ok profile" and "selected_units profile time = Inr selected"
  shows "\<exists>u. clockUnits profile time = Inr u"
proof -
  let ?pairs = "concat (map (\<lambda>port. map (\<lambda>unit. (unit, ip_name port)) (pf_ptp_unit_templates profile)) (pf_interfaces profile))"
  have "\<forall>(unit, port)\<in>set ?pairs. validInterfaceName port \<and> ends_with unit ''@.service''"
    using assms(1) by (auto simp: templates_ok_def)
  from add_instances_returns [OF this] assms(2) show ?thesis by (auto simp: clockUnits_def Let_def)
qed

text \<open>A port that is offered as selectable is one whose kernel entry, policy and clock allow it.\<close>

lemma discover_sound:
  assumes "i \<in> set (discoverPtpInterfaces profile found query)" and "pi_selectable i"
  shows "\<exists>entry\<in>set found. ne_name entry = pi_interface i \<and> managed_entry profile entry \<and>
    tc_hardware (query (pi_interface i)) \<and> pf_ptp_unit_templates profile \<noteq> []"
  using assms by (auto simp: discoverPtpInterfaces_def ptp_interface_of_def Let_def split: if_splits)

lemma selection_accepted:
  "tp_synchronization time = ''ptp'' \<Longrightarrow> validatePtpSelection time interfaces = Inr () \<Longrightarrow>
     \<exists>i\<in>set interfaces. pi_interface i = tp_ptp_interface time \<and> pi_selectable i"
  by (auto simp: validatePtpSelection_def find_Some_iff split: option.splits if_splits)

lemma hardware_clock:
  "tc_hardware (timestampCapabilities socket_opens ioctl name) \<longleftrightarrow>
     validInterfaceName name \<and> socket_opens \<and>
     (\<exists>index flags. ioctl name = Some (index, flags) \<and> 0 \<le> index \<and>
        flags AND timestamping_required = timestamping_required)"
  by (auto simp: timestampCapabilities_def no_capabilities_def split: option.splits)

section \<open>Properties\<close>

text \<open>
  C26: the units of the selected time source and the others never run together: when the units of a
  mode are computed, those to be started are exactly the units of that mode and those to be stopped
  are all other units the product knows, of every port and of every other source, provided that no
  NTP unit also serves another source.
\<close>

theorem clock_units_exclusive:
  assumes "clockUnits profile time = Inr u"
    and "set (pf_ntp_units profile) \<inter>
      (set (pf_ptp_units profile) \<union> ptp_instances profile \<union> set (pf_irig_units profile)) = {}"
  shows "set (cu_start u) = mode_units profile time \<and> set (cu_stop u) = known_units profile - mode_units profile time"
  by (intro conjI clockUnits_sets [OF assms])

definition example_ports :: profile where
  "example_ports = default_profile\<lparr>
     pf_interfaces := [\<lparr>ip_name = ''eth0'', ip_device_tree_node = []\<rparr>, \<lparr>ip_name = ''eth-1'', ip_device_tree_node = ''ethernet@1''\<rparr>],
     pf_ntp_units := [''systemd-timesyncd.service''], pf_ptp_unit_templates := [''ptp4l@.service'', ''phc2sys@.service''],
     pf_ptp_units := [''ptp4l.service''], pf_irig_units := [''irig.service'']\<rparr>"

definition example_time :: time_preferences where
  "example_time = default_time_preferences\<lparr>tp_synchronization := ''ptp'', tp_ptp_interface := ''eth-1''\<rparr>"

lemmas example_ports_simps = example_ports_def default_profile_def example_time_def default_time_preferences_def

theorem clock_units_exclusive_witness:
  "\<exists>u. clockUnits example_ports example_time = Inr u \<and> set (cu_start u) = mode_units example_ports example_time \<and>
     ''systemd-timesyncd.service'' \<in> set (cu_stop u)"
proof -
  have "\<exists>u. clockUnits example_ports example_time = Inr u"
    by (simp add: example_ports_simps clockUnits_def selected_units_def instance_name_def ends_with_def
        validInterfaceName_def name_char_def char_class Let_def)
  moreover have off: "''systemd-timesyncd.service'' \<notin> ptp_instances example_ports"
    by (auto simp: ptp_instances_def instance_of_def example_ports_simps)
  ultimately show ?thesis
    using clock_units_exclusive [of example_ports example_time]
    by (auto simp: example_ports_simps known_units_def mode_units_def instance_of_def)
qed


text \<open>
  A PTP source that passes the selection check against the ports found in the kernel can be
  used: the port exists, is managed by the product and has a hardware clock with all three kinds of
  hardware timestamps, and the units for it can be computed and are not empty.
\<close>

theorem ptp_selection_usable:
  assumes "templates_ok profile" and "tp_synchronization time = ''ptp''"
    and "validatePtpSelection time
      (discoverPtpInterfaces profile found (timestampCapabilities socket_opens ioctl)) = Inr ()"
  shows "(\<exists>entry\<in>set found. ne_name entry = tp_ptp_interface time \<and> managed_entry profile entry) \<and>
    (\<exists>index flags. ioctl (tp_ptp_interface time) = Some (index, flags) \<and> 0 \<le> index \<and>
       flags AND timestamping_required = timestamping_required) \<and>
    (\<exists>u. clockUnits profile time = Inr u \<and> cu_start u \<noteq> [])"
proof -
  from selection_accepted [OF assms(2,3)] obtain i where
    "i \<in> set (discoverPtpInterfaces profile found (timestampCapabilities socket_opens ioctl))"
    "pi_selectable i" and name: "pi_interface i = tp_ptp_interface time" by blast
  from discover_sound [OF this(1,2)] name obtain entry where entry: "entry \<in> set found"
    "ne_name entry = tp_ptp_interface time" "managed_entry profile entry"
    and clock: "tc_hardware (timestampCapabilities socket_opens ioctl (tp_ptp_interface time))"
    and templates: "pf_ptp_unit_templates profile \<noteq> []" by auto
  have port: "find (\<lambda>p. ip_name p = tp_ptp_interface time) (pf_interfaces profile) \<noteq> None"
    using entry(2,3) by (auto simp: managed_entry_def split: option.splits)
  have selected: "selected_units profile time =
      Inr (map (\<lambda>unit. instance_of unit (tp_ptp_interface time)) (pf_ptp_unit_templates profile))"
    using assms(1,2) port templates clock
    by (auto simp: selected_units_def templates_ok_def hardware_clock map_instances)
  from clockUnits_returns [OF assms(1) this] obtain u where "clockUnits profile time = Inr u" by blast
  moreover from this have "cu_start u \<noteq> []"
    using selected assms(2) templates by (auto simp: clockUnits_def Let_def)
  ultimately show ?thesis using entry clock by (auto simp: hardware_clock)
qed

theorem ptp_selection_usable_witness:
  "\<exists>u. clockUnits example_ports example_time = Inr u \<and> cu_start u \<noteq> []"
proof -
  let ?found = "[\<lparr>ne_name = ''eth-1'', ne_carrier = 1, ne_of_node = Some ''ethernet@1''\<rparr>]"
  let ?caps = "timestampCapabilities True (\<lambda>_. Some (0, 0x45))"
  have valid: "validInterfaceName ''eth-1''" "validInterfaceName ''eth0''"
    by (simp_all add: validInterfaceName_def name_char_def char_class)
  have "templates_ok example_ports" "tp_synchronization example_time = ''ptp''"
    using valid by (simp_all add: templates_ok_def example_ports_simps ends_with_def)
  moreover have "validatePtpSelection example_time (discoverPtpInterfaces example_ports ?found ?caps) = Inr ()"
    using valid by (simp add: discoverPtpInterfaces_def ptp_interface_of_def managed_entry_def
        validatePtpSelection_def timestampCapabilities_def timestamping_required_def example_ports_simps)
  ultimately show ?thesis using ptp_selection_usable by blast
qed

end
