(* ===== verification/Clock_Files.thy ===== *)
theory Clock_Files
  imports Clock_Policy
begin

text \<open>
  What the files of the time policy say after it was written (clock\_config.cpp). The proof follows
  the contents of a list of files through the writes and removals of others.
\<close>

section \<open>Contents of other files\<close>

text \<open>A name that is not a temporary file, as \<open>atomicWrite\<close> calls them.\<close>

definition lasting :: "node \<Rightarrow> bool" where
  "lasting n = (n \<noteq> [] \<and> \<not> ends_with (last n) ''.tmp'')"

text \<open>The files of the list have the contents next to them.\<close>

definition pins :: "(node \<times> string option) list \<Rightarrow> fs \<Rightarrow> bool" where
  "pins xs f = (wf_fs f \<and> (\<forall>(n, c)\<in>set xs. lasting n \<and> node_content f n = c))"

lemma pins_Cons: "pins ((n, c) # xs) f \<longleftrightarrow> lasting n \<and> node_content f n = c \<and> pins xs f"
  by (auto simp: pins_def)

lemma pins_frame:
  assumes "pins xs f" and "wf_fs f'"
    and "\<And>n c. (n, c) \<in> set xs \<Longrightarrow> lasting n \<Longrightarrow> node_content f n = c \<Longrightarrow> node_content f' n = c"
  shows "pins xs f'"
  using assms by (auto simp: pins_def)

lemma lasting_temporary:
  assumes "plain p" and "list_all hex_char rid" and "rid \<noteq> []" and "lasting n"
  shows "locate (p @ ''.'' @ rid @ ''.tmp'') \<noteq> n"
proof -
  obtain d nm where p: "p = path_join d nm" "CHR ''/'' \<notin> set nm" "nm \<noteq> []"
    using assms(1) by (auto simp: plain_def)
  let ?nm = "nm @ ''.'' @ rid @ ''.tmp''"
  have "CHR ''/'' \<notin> set ?nm" "?nm \<noteq> []" "?nm \<noteq> ''.''" "?nm \<noteq> ''..''"
    using p hex_no_slash [OF assms(2)] by (auto simp: append_eq_Cons_conv)
  note locate_join [OF this, of d]
  moreover have "p @ ''.'' @ rid @ ''.tmp'' = path_join d ?nm" by (simp add: p path_join_def)
  ultimately have "last (locate (p @ ''.'' @ rid @ ''.tmp'')) = ?nm" by simp
  moreover have "ends_with ?nm ''.tmp''" by (simp add: ends_with_def)
  ultimately show ?thesis using assms(4) by (auto simp: lasting_def)
qed

text \<open>A step that keeps a name and the file behind it.\<close>

definition reads_same :: "node \<Rightarrow> fs \<Rightarrow> fs \<Rightarrow> bool" where
  "reads_same n f f' =
     (fs_names f' n = fs_names f n \<and> (\<forall>i. fs_names f n = Some i \<longrightarrow> fs_data f' i = fs_data f i))"

lemma reads_same_content: "reads_same n f f' \<Longrightarrow> node_content f' n = node_content f n"
  by (cases "fs_names f n") (auto simp: reads_same_def node_content_def)

lemma atomicWrite_elsewhere:
  assumes "wf_fs f" and "plain p" and "lasting n" and "n \<noteq> locate p"
  shows "wp (atomicWrite p text) (\<lambda>_. reads_same n f) (\<lambda>_. reads_same n f) f"
proof -
  have tmp: "n \<noteq> locate (p @ CHR ''.'' # s @ ''.tmp'')" if "list_all hex_char s" "length s = 32" for s
    using lasting_temporary [OF assms(2) that(1) _ assms(3)] that(2) by fastforce
  have fresh: "fs_names f n \<noteq> Some (fs_fresh f)"
    using assms(1) by (auto simp: wf_fs_def)
  show ?thesis
    unfolding atomicWrite_def create_directories_def open_new_def Let_def replace_file_def fsync_def
      rename_def syncDirectory_def unlink_def
    by (simp only: wp_rules case_prod_conv split: if_split
        | intro wp_call wp_randomId wp_write_all conjI impI
        | use fresh assms(4) tmp in \<open>auto simp: reads_same_def\<close>)+
qed


text \<open>A write pins its file and keeps the others; so does a removal.\<close>

lemma pins_write:
  assumes "pins xs f" and "plain p" and "lasting (locate p)"
    and "\<forall>(n, c)\<in>set xs. n = locate p \<longrightarrow> c = Some text"
  shows "wp (atomicWrite p text) (\<lambda>_. pins ((locate p, Some text) # xs)) (\<lambda>_ _. True) f"
proof (rule wp_eqI)
  fix u f' assume run: "atomicWrite p text f = (Inr u, f')"
  have "wf_fs f" using assms(1) by (simp add: pins_def)
  note spec = wp_Inr [OF atomicWrite_spec [OF this assms(2)] run]
  have "node_content f' n = node_content f n" if "lasting n" "n \<noteq> locate p" for n
    using wp_Inr [OF atomicWrite_elsewhere [OF \<open>wf_fs f\<close> assms(2) that] run] by (rule reads_same_content)
  moreover have written: "wf_fs f'" "node_content f' (locate p) = Some text" using spec by (simp_all add: write_spec_def)
  moreover have "c = Some text" if "(locate p, c) \<in> set xs" for c using assms(4) that by blast
  ultimately have "pins xs f'" by (intro pins_frame [OF assms(1)]) metis+
  with written assms(3) show "pins ((locate p, Some text) # xs) f'" by (simp add: pins_Cons)
qed simp

lemma wf_durableRemove: "keeps wf_fs (durableRemove p)"
proof -
  have call: "keeps wf_fs (simple_call what effect)" if "\<And>f. wf_fs f \<Longrightarrow> wf_fs (effect f)" for what effect
    using that by (auto intro!: keepsI wp_call)
  have "keeps wf_fs (remove_all q)" for q
    unfolding remove_all_def
    by (rule keepsI, simp only: wp_bind, rule wp_next_outcome)
       (auto simp: wp_rules wf_fs_def split: outcome.split)
  then show ?thesis
    unfolding durableRemove_def node_exists_def syncDirectory_def
    by (intro keeps_rules call wf_fs_sync)
qed

lemma pins_remove:
  assumes "pins xs f" and "lasting (locate p)" and "\<forall>(n, c)\<in>set xs. prefix (locate p) n \<longrightarrow> c = None"
  shows "wp (durableRemove p) (\<lambda>_. pins ((locate p, None) # xs)) (\<lambda>_ _. True) f"
proof (rule wp_eqI)
  fix u f' assume run: "durableRemove p f = (Inr u, f')"
  have "wf_fs f'" using keeps_run [OF wf_durableRemove run] assms(1) by (simp add: pins_def)
  have removed: "\<not> prefix (locate p) n \<Longrightarrow> node_content f' n = node_content f n"
    "prefix (locate p) n \<Longrightarrow> node_content f' n = None" for n
    using durableRemove_sets [OF run] by auto
  note gone = removed(2) [of "locate p", OF prefix_order.order_refl]
  note \<open>wf_fs f'\<close> removed
  moreover have "c = None" if "(n, c) \<in> set xs" "prefix (locate p) n" for n c using assms(3) that by blast
  ultimately have "pins xs f'" by (intro pins_frame [OF assms(1)]) metis+
  then show "pins ((locate p, None) # xs) f'" using assms(2) gone by (simp add: pins_Cons)
qed simp


section \<open>The files of the policy\<close>

lemma pins_schedule [simp]: "pins xs (f\<lparr>fs_schedule := x\<rparr>) = pins xs f" "pins xs (f\<lparr>fs_dead := d\<rparr>) = pins xs f"
  "pins xs (f\<lparr>fs_dirs := ds\<rparr>) = pins xs f"
  by (simp_all add: pins_def node_content_def)

lemma wp_missing_directories:
  assumes "\<And>ds. Q ds f"
  shows "wp (missing_directories n) Q R f"
  using assms
proof (induction n arbitrary: Q rule: missing_directories.induct)
  case (1 n)
  show ?case
  proof (cases "n = []")
    case True
    with 1(2) show ?thesis by (subst missing_directories.simps) (simp add: wp_rules)
  next
    case False
    have "wp (missing_directories (butlast n)) (\<lambda>ds. Q (n # ds)) R f" if "\<not> present" for present
      using 1(1) [OF False that] 1(2) by simp
    moreover have "wp (ret (n # ds)) Q R = Q (n # ds)" for ds by (rule ext) (simp add: wp_ret)
    ultimately show ?thesis
      using False 1(2) by (simp add: missing_directories.simps [of n] node_exists_def wp_rules)
  qed
qed

lemma pins_permissions: "keeps (pins xs) set_permissions" "keeps (pins xs) (create_directories d)"
  unfolding set_permissions_def create_directories_def by (auto intro!: keepsI wp_call)

lemma pins_readableWrite:
  assumes "pins xs f" and "plain p" and "lasting (locate p)"
    and "\<forall>(n, c)\<in>set xs. n = locate p \<longrightarrow> c = Some v"
  shows "wp (readableWrite p v) (\<lambda>_. pins ((locate p, Some v) # xs)) (\<lambda>_ _. True) f"
proof -
  let ?I = "pins ((locate p, Some v) # xs)"
  have final: "wp (seq set_permissions (ret True)) (\<lambda>_. ?I) (\<lambda>_ _. True) f'" if "?I f'" for f'
    unfolding wp_rules by (rule keeps_then [OF pins_permissions(1) that]) simp_all
  have saved: "wp (seq (atomicWrite p v) (seq set_permissions (ret True))) (\<lambda>_. ?I) (\<lambda>_ _. True) f'"
    if "pins xs f'" for f'
    unfolding wp_seq [of "atomicWrite p v"]
    by (rule wp_mono [OF pins_write [OF that assms(2-4)]]) (simp_all add: final)
  have prepare: "wp (seq (create_directories d) (seq (for_io (\<lambda>_. set_permissions) ms) (seq set_permissions
      (seq (atomicWrite p v) (seq set_permissions (ret True)))))) (\<lambda>_. ?I) (\<lambda>_ _. True) f'"
    if "pins xs f'" for f' d ms
    unfolding wp_seq [of "create_directories d"] wp_seq [of "for_io _ _"]
      wp_seq [of set_permissions "seq (atomicWrite p v) _"]
    by (intro keeps_then [where I = "pins xs"] pins_permissions keeps_for_io that saved TrueI; assumption)
  have missing: "wp (bind (missing_directories q) (\<lambda>ms. seq (create_directories d) (seq (for_io (\<lambda>_. set_permissions) ms)
      (seq set_permissions (seq (atomicWrite p v) (seq set_permissions (ret True))))))) (\<lambda>_. ?I) (\<lambda>_ _. True) f'"
    if "pins xs f'" for f' q d
    unfolding wp_bind by (intro wp_missing_directories prepare that)
  show ?thesis
    unfolding readableWrite_def node_exists_def
    using assms(1,3)
    by (auto simp: pins_Cons wp_bind [of "gets _"] wp_gets wp_bind [of "ret _"] wp_ret wp_bind [of "readFile _ _"]
        wp_bind [of "bind _ _"] missing node_content_def intro!: wp_readFile)
qed


text \<open>Where the files are.\<close>

lemma path_join_join: "a \<noteq> [] \<Longrightarrow> last a \<noteq> CHR ''/'' \<Longrightarrow> path_join d (a @ ''/'' @ b) = path_join (path_join d a) b"
  by (simp add: path_join_def)

definition plain_name :: "string \<Rightarrow> bool" where
  "plain_name nm = (CHR ''/'' \<notin> set nm \<and> nm \<noteq> [] \<and> nm \<noteq> ''.'' \<and> nm \<noteq> ''..'')"

lemma locate_plain_name: "plain_name nm \<Longrightarrow> locate (path_join d nm) = locate d @ [nm]" "plain_name nm \<Longrightarrow> plain (path_join d nm)"
  by (auto simp: plain_name_def locate_join plain_def)

definition modes :: "string list" where "modes = [''ntp'', ''ptp'', ''irig'']"

lemma marker_place:
  assumes "plain_name (seen_name (pf_runtime_root profile))" and "mode \<in> set modes"
  shows "locate (mode_marker profile runtime mode) =
      locate runtime @ [seen_name (pf_runtime_root profile), ''system'', mode @ ''-disabled'']"
    and "plain (mode_marker profile runtime mode)" and "lasting (locate (mode_marker profile runtime mode))"
proof -
  have "plain_name (mode @ ''-disabled'')" "plain_name ''system''"
    using assms(2) by (auto simp: plain_name_def modes_def)
  with assms(1) show place: "locate (mode_marker profile runtime mode) =
      locate runtime @ [seen_name (pf_runtime_root profile), ''system'', mode @ ''-disabled'']"
    and "plain (mode_marker profile runtime mode)"
    by (simp_all add: mode_marker_def locate_plain_name)
  show "lasting (locate (mode_marker profile runtime mode))"
    using assms(2) by (auto simp: place lasting_def modes_def ends_with_def)
qed

lemma server_place:
  "locate (server_policy runtime) = locate runtime @ [''systemd'', ''timesyncd.conf.d'', ''90-mnc-time.conf'']"
  "plain (server_policy runtime)" "lasting (locate (server_policy runtime))"
proof -
  have names: "plain_name ''systemd''" "plain_name ''timesyncd.conf.d''" "plain_name ''90-mnc-time.conf''"
    by (simp_all add: plain_name_def)
  have "server_policy runtime = path_join (path_join (path_join runtime ''systemd'') ''timesyncd.conf.d'') ''90-mnc-time.conf''"
    using path_join_join [of "''systemd''" runtime "''timesyncd.conf.d/90-mnc-time.conf''"]
      path_join_join [of "''timesyncd.conf.d''" _ "''90-mnc-time.conf''"] by (simp add: server_policy_def)
  with names show place: "locate (server_policy runtime) = locate runtime @ [''systemd'', ''timesyncd.conf.d'', ''90-mnc-time.conf'']"
    "plain (server_policy runtime)" by (simp_all add: locate_plain_name)
  show "lasting (locate (server_policy runtime))" by (simp add: place lasting_def ends_with_def)
qed

lemma port_place:
  assumes "validInterfaceName (ip_name port)"
  shows "locate (port_policy runtime port) =
      locate runtime @ [''systemd'', ''network'', ''10-mnc-'' @ ip_name port @ ''.network.d'', ''50-mnc-time.conf'']"
    and "plain (port_policy runtime port)" and "lasting (locate (port_policy runtime port))"
proof -
  have "CHR ''/'' \<notin> set (ip_name port)"
    using assms by (auto simp: validInterfaceName_def name_char_def char_class list_all_iff)
  then have names: "plain_name ''systemd''" "plain_name ''network''" "plain_name ''50-mnc-time.conf''"
    "plain_name (''10-mnc-'' @ ip_name port @ ''.network.d'')"
    by (simp_all add: plain_name_def)
  have "path_join runtime ''systemd/network'' = path_join (path_join runtime ''systemd'') ''network''"
    using path_join_join [of "''systemd''" runtime "''network''"] by simp
  then have "port_policy runtime port = path_join (path_join (path_join (path_join runtime ''systemd'') ''network'')
      (''10-mnc-'' @ ip_name port @ ''.network.d'')) ''50-mnc-time.conf''"
    unfolding port_policy_def by (simp only:)
  with names show place: "locate (port_policy runtime port) =
      locate runtime @ [''systemd'', ''network'', ''10-mnc-'' @ ip_name port @ ''.network.d'', ''50-mnc-time.conf'']"
    and "plain (port_policy runtime port)"
    by (simp_all only: locate_plain_name append.assoc append.simps)
  show "lasting (locate (port_policy runtime port))" by (simp add: place lasting_def ends_with_def)
qed

text \<open>What the policy wants of a marker and of a port's file.\<close>

definition marker_wanted :: "time_preferences \<Rightarrow> string \<Rightarrow> string option" where
  "marker_wanted time mode = (if tp_synchronization time = mode then None else Some (''disabled'' @ [line_feed]))"

definition port_wanted :: "time_preferences \<Rightarrow> string option" where
  "port_wanted time = (if tp_ntp_servers time \<noteq> [] then Some no_ntp_from_dhcp else None)"

definition compatible :: "node \<Rightarrow> string option \<Rightarrow> (node \<times> string option) list \<Rightarrow> bool" where
  "compatible m w xs = (\<forall>(n, c)\<in>set xs. prefix m n \<longrightarrow> n = m \<and> c = w)"

lemma compatible_simps [simp]:
  "compatible m w []" "compatible m w ((n, c) # xs) \<longleftrightarrow> (prefix m n \<longrightarrow> n = m \<and> c = w) \<and> compatible m w xs"
  "compatible m w (xs @ ys) \<longleftrightarrow> compatible m w xs \<and> compatible m w ys"
  by (auto simp: compatible_def)

lemma compatibleD:
  assumes "compatible m w xs"
  shows "\<forall>(n, c)\<in>set xs. prefix m n \<longrightarrow> c = w" and "\<forall>(n, c)\<in>set xs. n = m \<longrightarrow> c = w"
  using assms by (auto simp: compatible_def)

lemma pins_mode_step:
  assumes "pins xs f" and "plain_name (seen_name (pf_runtime_root profile))" and "mode \<in> set modes"
    and "compatible (locate (mode_marker profile runtime mode)) (marker_wanted time mode) xs"
  shows "wp (mode_step profile time runtime mode)
    (\<lambda>_. pins ((locate (mode_marker profile runtime mode), marker_wanted time mode) # xs)) (\<lambda>_ _. True) f"
  using pins_remove [OF assms(1) marker_place(3) [OF assms(2,3)] compatibleD(1)]
    pins_write [OF assms(1) marker_place(2,3) [OF assms(2,3)] compatibleD(2)] assms(4)
  by (simp add: mode_step_def marker_wanted_def split: if_splits)

lemma pins_absent:
  "pins xs f \<Longrightarrow> lasting n \<Longrightarrow> fs_names f n = None \<Longrightarrow> pins ((n, None) # xs) f"
  by (simp add: pins_Cons node_content_def)


abbreviation port_pin :: "time_preferences \<Rightarrow> string \<Rightarrow> interface_policy \<Rightarrow> node \<times> string option" where
  "port_pin time runtime port \<equiv> (locate (port_policy runtime port), port_wanted time)"

lemma compatible_ports:
  assumes "validInterfaceName (ip_name port)" and "\<forall>p\<in>set ports. validInterfaceName (ip_name p)"
  shows "compatible (locate (port_policy runtime port)) (port_wanted time) (map (port_pin time runtime) ports)"
  using assms by (auto simp: compatible_def port_place)

lemma pins_port:
  assumes "pins xs f" and "validInterfaceName (ip_name port)"
    and "compatible (locate (port_policy runtime port)) (port_wanted time) xs"
    and "\<And>changed f'. pins (port_pin time runtime port # xs) f' \<Longrightarrow>
      wp (port_policies time runtime changed ports) Q (\<lambda>_ _. True) f'"
  shows "wp (port_policies time runtime changed (port # ports)) Q (\<lambda>_ _. True) f"
proof (cases "tp_ntp_servers time = []")
  case True
  with assms(1,2,4) pins_absent [OF assms(1) port_place(3) [OF assms(2)], of runtime]
    wp_mono [OF pins_remove [OF assms(1) port_place(3) [OF assms(2)] compatibleD(1), of runtime]] assms(3)
  show ?thesis by (simp add: wp_rules node_exists_def port_wanted_def)
next
  case False
  with assms(2,4) wp_mono [OF pins_readableWrite [OF assms(1) port_place(2,3) [OF assms(2)] compatibleD(2), of runtime]] assms(3)
  show ?thesis by (simp add: wp_rules port_wanted_def)
qed

lemma pins_port_policies:
  assumes "pins xs f"
    and "\<And>port. validInterfaceName (ip_name port) \<Longrightarrow>
      compatible (locate (port_policy runtime port)) (port_wanted time) xs"
  shows "wp (port_policies time runtime changed ports)
    (\<lambda>_. pins (map (port_pin time runtime) (rev ports) @ xs)) (\<lambda>_ _. True) f"
  using assms
proof (induction ports arbitrary: xs f changed)
  case Nil
  then show ?case by (simp add: wp_rules)
next
  case (Cons port ports)
  show ?case
  proof (cases "validInterfaceName (ip_name port)")
    case True
    have "compatible (locate (port_policy runtime p)) (port_wanted time) (port_pin time runtime port # xs)"
      if "validInterfaceName (ip_name p)" for p
      using Cons.prems(2) [OF that] compatible_ports [OF that, of "[port]" runtime time] True by simp
    with Cons.IH [of "port_pin time runtime port # xs"] show ?thesis
      by (intro pins_port [OF Cons.prems(1) True Cons.prems(2) [OF True]]) simp
  next
    case False
    then show ?thesis by (simp add: wp_rules)
  qed
qed


lemma split_on_no_sep: "p \<in> set (split_on c s) \<Longrightarrow> c \<notin> set p"
  by (induction s arbitrary: p) (auto split: list.splits if_splits)

lemma seen_name_plain:
  assumes "valid_runtime_root root"
  shows "plain_name (seen_name root)"
proof -
  have "CHR ''/'' \<notin> set (last (filter (\<lambda>n. n \<noteq> []) (split_on (CHR ''/'') root)))"
    if "filter (\<lambda>n. n \<noteq> []) (split_on (CHR ''/'') root) \<noteq> []"
    using last_in_set [OF that] by (auto dest: split_on_no_sep)
  with assms show ?thesis
    by (auto simp: valid_runtime_root_def seen_name_def plain_name_def filename_def path_of_def Let_def split: if_splits)
qed

lemma validate_time: "validate (default_configuration\<lparr>cf_time := time\<rparr>) = Inr () \<longleftrightarrow> wf_time time"
  by (auto simp: validate_Inr wf_configuration_def default_defs valid_hostname_def hostname_char_def char_class
      wf_network_def)

lemma writeClockPolicy_refused:
  assumes "\<not> wf_time time \<or> tp_synchronization time = ''irig'' \<and> pf_irig_units profile = []"
  shows "\<exists>e. writeClockPolicy profile time runtime f = (Inl e, f)"
  using assms validate_time [of time]
  by (cases "validate (default_configuration\<lparr>cf_time := time\<rparr>)")
     (auto simp: writeClockPolicy_def seq_def bind_def of_result_def guard_def throw_def)

lemma pins_writeClockPolicy:
  assumes "wf_fs f" and "plain_name (seen_name (pf_runtime_root profile))"
  shows "wp (writeClockPolicy profile time runtime)
    (\<lambda>_. pins (map (port_pin time runtime) (rev (pf_interfaces profile)) @
       (locate (server_policy runtime), Some (time_config (tp_ntp_servers time))) #
       map (\<lambda>mode. (locate (mode_marker profile runtime mode), marker_wanted time mode)) (rev modes)))
    (\<lambda>_ _. True) f"
proof -
  let ?M = "\<lambda>mode. (locate (mode_marker profile runtime mode), marker_wanted time mode)"
  let ?S = "(locate (server_policy runtime), Some (time_config (tp_ntp_servers time)))"
  have mode: "''ntp'' \<in> set modes" "''ptp'' \<in> set modes" "''irig'' \<in> set modes" by (simp_all add: modes_def)
  note place = marker_place(1) [OF assms(2)]
  have none: "pins [] f" using assms(1) by (simp add: pins_def)
  have ports: "wp (bind (port_policies time runtime False (pf_interfaces profile)) (\<lambda>network. ret (g network)))
      (\<lambda>_. pins (map (port_pin time runtime) (rev (pf_interfaces profile)) @ ?S # map ?M (rev modes))) (\<lambda>_ _. True) f'"
    if "pins (?S # map ?M (rev modes)) f'" for f' and g :: "bool \<Rightarrow> clock_changes"
    unfolding wp_rules
    by (rule pins_port_policies [OF that]) (simp add: modes_def place mode port_place server_place)
  have servers: "wp (readableWrite (server_policy runtime) (time_config (tp_ntp_servers time)))
      (\<lambda>_. pins (?S # map ?M (rev modes))) (\<lambda>_ _. True) f'" if "pins (map ?M (rev modes)) f'" for f'
    by (rule pins_readableWrite [OF that server_place(2,3)]) (auto simp: modes_def place mode server_place)
  have markers: "wp (for_io (mode_step profile time runtime) [''ntp'', ''ptp'', ''irig''])
      (\<lambda>_. pins (map ?M (rev modes))) (\<lambda>_ _. True) f"
    unfolding for_io.simps wp_rules modes_def
    by (rule wp_mono [OF pins_mode_step [OF none assms(2) mode(1)]]; (rule wp_mono [OF pins_mode_step [OF _ assms(2) mode(2)]])?;
        (rule wp_mono [OF pins_mode_step [OF _ assms(2) mode(3)]])?) (simp_all add: place mode)
  have rest: "wp (bind (readableWrite (server_policy runtime) (time_config (tp_ntp_servers time))) (\<lambda>c.
      bind (port_policies time runtime False (pf_interfaces profile)) (\<lambda>network. ret (g c network))))
      (\<lambda>_. pins (map (port_pin time runtime) (rev (pf_interfaces profile)) @ ?S # map ?M (rev modes))) (\<lambda>_ _. True) f'"
    if "pins (map ?M (rev modes)) f'" for f' and g :: "bool \<Rightarrow> bool \<Rightarrow> clock_changes"
    by (subst wp_bind) (rule wp_mono [OF servers [OF that]], simp_all add: ports)
  have run: "wp (seq (for_io (mode_step profile time runtime) [''ntp'', ''ptp'', ''irig''])
      (bind (readableWrite (server_policy runtime) (time_config (tp_ntp_servers time))) (\<lambda>c.
      bind (port_policies time runtime False (pf_interfaces profile)) (\<lambda>network. ret \<lparr>cc_servers = c, cc_network = network\<rparr>))))
      (\<lambda>_. pins (map (port_pin time runtime) (rev (pf_interfaces profile)) @ ?S # map ?M (rev modes))) (\<lambda>_ _. True) f"
    by (subst wp_seq) (rule wp_mono [OF markers], simp_all add: rest)
  show ?thesis
    unfolding writeClockPolicy_def wp_seq [of "of_result _"] wp_seq [of "guard _ _"] wp_guard wp_of_result
    using run by (simp split: sum.split)
qed

section \<open>Properties\<close>

text \<open>
  C25: a time policy with an invalid or unsupported preference is refused before any file is touched.
  One that is written leaves exactly the marker files of the sources that are not selected, a
  configuration of the time service with exactly the preferred servers, and for each port of the
  product a file that turns off the servers of its network, present exactly when servers are
  preferred, whatever files were there before.
\<close>

theorem clock_policy_exact:
  assumes "wf_fs f" and "valid_runtime_root (pf_runtime_root profile)"
    and "writeClockPolicy profile time runtime f = (r, f')"
  shows "(\<not> wf_time time \<or> tp_synchronization time = ''irig'' \<and> pf_irig_units profile = [] \<longrightarrow>
      (\<exists>e. r = Inl e) \<and> f' = f) \<and>
    ((\<exists>changes. r = Inr changes) \<longrightarrow>
      (\<forall>mode\<in>{''ntp'', ''ptp'', ''irig''}. content f' (mode_marker profile runtime mode) =
         (if tp_synchronization time = mode then None else Some (''disabled'' @ [line_feed]))) \<and>
      content f' (server_policy runtime) = Some (time_config (tp_ntp_servers time)) \<and>
      (\<forall>port\<in>set (pf_interfaces profile). content f' (port_policy runtime port) =
         (if tp_ntp_servers time \<noteq> [] then Some no_ntp_from_dhcp else None)))"
proof (intro conjI impI)
  assume "\<not> wf_time time \<or> tp_synchronization time = ''irig'' \<and> pf_irig_units profile = []"
  from writeClockPolicy_refused [OF this, of runtime f] assms(3) show "\<exists>e. r = Inl e" "f' = f" by auto
next
  assume "\<exists>changes. r = Inr changes"
  then obtain changes where "writeClockPolicy profile time runtime f = (Inr changes, f')" using assms(3) by blast
  note pinned = wp_Inr [OF pins_writeClockPolicy [OF assms(1) seen_name_plain [OF assms(2)]] this]
  from pinned show "\<forall>mode\<in>{''ntp'', ''ptp'', ''irig''}. content f' (mode_marker profile runtime mode) =
      (if tp_synchronization time = mode then None else Some (''disabled'' @ [line_feed]))"
    by (auto simp: pins_def modes_def marker_wanted_def)
  from pinned show "content f' (server_policy runtime) = Some (time_config (tp_ntp_servers time))"
    by (auto simp: pins_def)
  from pinned show "\<forall>port\<in>set (pf_interfaces profile). content f' (port_policy runtime port) =
      (if tp_ntp_servers time \<noteq> [] then Some no_ntp_from_dhcp else None)"
    by (auto simp: pins_def port_wanted_def ball_Un)
qed


text \<open>An example that returns: no call fails, no temporary file and no file of the policy is there yet.\<close>

definition quiet :: "node \<Rightarrow> fs \<Rightarrow> bool" where
  "quiet n f = (calm f \<and> (\<forall>q. fs_names f q \<noteq> None \<longrightarrow> lasting q) \<and> fs_names f n = None \<and> \<not> fs_dirs f n)"

lemma quiet_atomicWrite:
  assumes "calm f" and "\<forall>q. fs_names f q \<noteq> None \<longrightarrow> lasting q" and "plain p" and "lasting (locate p)"
    and "quiet n f \<Longrightarrow> n \<noteq> locate p \<and> \<not> prefix n (butlast (locate p))"
  shows "wp (atomicWrite p text) (\<lambda>_ f'. calm f' \<and> (quiet n f \<longrightarrow> quiet n f')) (\<lambda>_ _. False) f"
proof -
  have tmp: "fs_names f (locate (p @ CHR ''.'' # s @ ''.tmp'')) = None" if "list_all hex_char s" "length s = 32" for s
    using lasting_temporary [OF assms(3) that(1)] that(2) assms(2) by fastforce
  show ?thesis
    unfolding atomicWrite_def create_directories_def open_new_def Let_def replace_file_def fsync_def
      rename_def syncDirectory_def
    by (simp only: wp_rules case_prod_conv
        | intro wp_calm_call wp_calm_randomId wp_calm_write_all
        | simp add: assms(1) tmp append_data_def
        | use assms(2,4,5) in \<open>auto simp: quiet_def\<close>)+
qed


lemma quiet_durableRemove:
  assumes "quiet n f"
  shows "wp (durableRemove p) (\<lambda>_. quiet n) (\<lambda>_ _. False) f"
proof -
  have "next_outcome f = (Inr Done, f)" using assms by (simp add: quiet_def next_outcome_calm)
  then have "wp next_outcome Q R f \<longleftrightarrow> Q Done f" for Q R by (simp add: wp_def)
  moreover have "wp (syncDirectory d) (\<lambda>_. quiet n) (\<lambda>_ _. False) f'" if "quiet n f'" for d f'
    unfolding syncDirectory_def wp_rules using that by (intro wp_calm_call) (auto simp: quiet_def)
  ultimately show ?thesis
    unfolding durableRemove_def remove_all_def node_exists_def
    using assms by (auto simp: wp_rules quiet_def)
qed

lemma quiet_readableWrite:
  assumes "quiet (locate p) f" and "plain p" and "lasting (locate p)"
  shows "wp (readableWrite p v) (\<lambda>_ _. True) (\<lambda>_ _. False) f"
proof -
  let ?I = "\<lambda>f. calm f \<and> (\<forall>q. fs_names f q \<noteq> None \<longrightarrow> lasting q)"
  have perm: "wp set_permissions Q R f'" if "?I f'" "Q () f'" for Q R f'
    unfolding set_permissions_def using that by (intro wp_calm_call) simp_all
  have perms: "wp (for_io (\<lambda>_. set_permissions) ds) Q R f'" if "?I f'" "Q () f'" for Q R ds f'
    using that by (induction ds) (auto simp: wp_rules intro!: perm)
  have new: "wp (atomicWrite p v) (\<lambda>_. calm) (\<lambda>_ _. False) f'" if "?I f'" for f'
  proof -
    have "\<not> prefix (locate p @ [[]]) (butlast (locate p))" by (auto dest: prefix_length_le)
    with that assms(2,3) have "wp (atomicWrite p v) (\<lambda>_ f''. calm f'' \<and>
        (quiet (locate p @ [[]]) f' \<longrightarrow> quiet (locate p @ [[]]) f'')) (\<lambda>_ _. False) f'"
      by (intro quiet_atomicWrite) auto
    then show ?thesis by (rule wp_mono) simp_all
  qed
  have last: "wp (seq (atomicWrite p v) (seq set_permissions (ret True))) (\<lambda>_ _. True) (\<lambda>_ _. False) f'" if "?I f'" for f'
    by (simp only: wp_rules, rule wp_mono [OF new [OF that]])
       (auto simp: set_permissions_def wp_rules intro: wp_calm_call)
  have dirs: "wp (create_directories d) Q R f'" if "?I f'" "\<And>f''. ?I f'' \<Longrightarrow> Q () f''" for Q R d f'
    unfolding create_directories_def using that by (intro wp_calm_call) simp_all
  have "wp (seq (create_directories d) (seq (for_io (\<lambda>_. set_permissions) ds) (seq set_permissions
      (seq (atomicWrite p v) (seq set_permissions (ret True)))))) (\<lambda>_ _. True) (\<lambda>_ _. False) f'" if "?I f'" for f' d ds
    unfolding wp_seq [of "create_directories d"] wp_seq [of "for_io _ _"]
      wp_seq [of set_permissions "seq (atomicWrite p v) _"]
    by (intro dirs [OF that] perms perm last)
  then show ?thesis
    using assms(1) unfolding readableWrite_def node_exists_def quiet_def
    by (auto simp: wp_bind [of "gets _"] wp_gets wp_bind [of "ret _"] wp_ret wp_bind [of "missing_directories _"]
        intro!: wp_missing_directories)
qed

lemma quiet_mode_step:
  assumes "quiet (locate (server_policy runtime)) f" and "plain_name (seen_name (pf_runtime_root profile))"
    and "mode \<in> set modes"
  shows "wp (mode_step profile time runtime mode) (\<lambda>_. quiet (locate (server_policy runtime))) (\<lambda>_ _. False) f"
proof (cases "tp_synchronization time = mode")
  case True
  with quiet_durableRemove [OF assms(1)] show ?thesis by (simp add: mode_step_def)
next
  case False
  have "wp (atomicWrite (mode_marker profile runtime mode) (''disabled'' @ [line_feed])) (\<lambda>_ f'. calm f' \<and>
      (quiet (locate (server_policy runtime)) f \<longrightarrow> quiet (locate (server_policy runtime)) f')) (\<lambda>_ _. False) f"
    using assms(1) marker_place [OF assms(2,3), of runtime]
    by (intro quiet_atomicWrite) (auto simp: quiet_def server_place butlast_append)
  with False assms(1) show ?thesis by (auto simp: mode_step_def elim: wp_mono)
qed

text \<open>In calm surroundings, a product without managed ports gets its clock policy.\<close>

lemma quiet_writeClockPolicy:
  assumes "quiet (locate (server_policy runtime)) f" and "valid_runtime_root (pf_runtime_root profile)"
    and "wf_time time" and "\<not> (tp_synchronization time = ''irig'' \<and> pf_irig_units profile = [])"
    and "pf_interfaces profile = []"
  shows "wp (writeClockPolicy profile time runtime) (\<lambda>_ _. True) (\<lambda>_ _. False) f"
proof -
  note step = quiet_mode_step [OF _ seen_name_plain [OF assms(2)]]
  have steps: "wp (for_io (mode_step profile time runtime) ms) (\<lambda>_. quiet (locate (server_policy runtime))) (\<lambda>_ _. False) f"
    if "quiet (locate (server_policy runtime)) f" "set ms \<subseteq> set modes" for ms f
    using that by (induction ms arbitrary: f) (auto simp: wp_rules intro: wp_mono [OF step])
  have servers: "wp (readableWrite (server_policy runtime) v) (\<lambda>x. wp (port_policies time runtime y
      (pf_interfaces profile)) (\<lambda>x _. True) (\<lambda>_ _. False)) (\<lambda>_ _. False) f"
    if "quiet (locate (server_policy runtime)) f" for v y f
    by (rule wp_mono [OF quiet_readableWrite [OF that server_place(2,3)]]) (simp_all add: assms(5) wp_rules)
  show ?thesis
    unfolding writeClockPolicy_def wp_seq wp_bind wp_of_result wp_guard validate_time [THEN iffD2, OF assms(3)]
      sum.case wp_ret if_P [OF assms(4)]
    by (rule wp_mono [OF steps [OF assms(1)]]) (simp_all add: modes_def servers)
qed

theorem clock_policy_exact_witness:
  "\<exists>changes f'. writeClockPolicy default_profile default_time_preferences ''/run'' empty_fs = (Inr changes, f') \<and>
     content f' (server_policy ''/run'') = Some (''[Time]'' @ [line_feed]) \<and>
     content f' (mode_marker default_profile ''/run'' ''ptp'') = Some (''disabled'' @ [line_feed])"
proof -
  have root: "valid_runtime_root (pf_runtime_root default_profile)"
    by (simp add: default_defs valid_runtime_root_def parent_def filename_def path_of_def runtime_chars_def)
  have ports: "pf_interfaces default_profile = []" by (simp add: default_defs)
  have start: "quiet (locate (server_policy ''/run'')) empty_fs" by (simp add: quiet_def empty_fs_def calm_def)
  have time: "wf_time default_time_preferences" "tp_synchronization default_time_preferences = ''ntp''"
    by (simp_all add: wf_time_def default_defs valid_timezone_def timezone_char_def char_class starts_with_def)
  have "wp (writeClockPolicy default_profile default_time_preferences ''/run'') (\<lambda>_ _. True) (\<lambda>_ _. False) empty_fs"
    using quiet_writeClockPolicy [OF start root time(1) _ ports] time(2) by simp
  then obtain changes f' where run:
    "writeClockPolicy default_profile default_time_preferences ''/run'' empty_fs = (Inr changes, f')"
    by (auto simp: wp_def split: prod.splits sum.splits)
  with clock_policy_exact [OF empty_fs_good(1) root run] show ?thesis
    by (auto simp: default_defs time_config_def)
qed

end
