(* ===== verification/Journal_Reader.thy ===== *)
theory Journal_Reader
  imports Logging
begin

text \<open>
  Reading the system journal back (journal\_reader.hpp, journal\_reader.cpp, journal\_query.hpp): the
  entry decoded at the position of the journal, the filter of a query, a page of entries, following
  the journal, and an entry as JSON. The journal library is a parameter: its state, and the calls of
  it that the reader uses.
\<close>

section \<open>Entries and queries\<close>

text \<open>A point of time is the number of nanoseconds since the epoch.\<close>

record entry =
  je_timestamp :: int
  je_cursor :: string
  je_priority :: priority
  je_message :: string
  je_component :: string
  je_module :: string
  je_event :: string
  je_audience :: string
  je_category :: string
  je_actor :: string
  je_action :: string
  je_outcome :: string
  je_subject :: string
  je_changed_fields :: "string list"
  je_request_id :: string
  je_configuration_generation :: string
  je_unit :: string
  je_systemd_unit :: string
  je_executable :: string
  je_source_file :: string
  je_source_line :: string
  je_source_function :: string

record query =
  qy_component :: "string option"
  qy_module :: "string option"
  qy_maximum_priority :: "priority option"
  qy_since :: "int option"
  qy_after :: "string option"
  qy_components :: "string list"
  qy_units :: "string list"
  qy_limit :: nat
  qy_audience :: "string option"
  qy_category :: "string option"
  qy_event :: "string option"
  qy_until :: "int option"
  qy_newest_first :: bool
  qy_strict_cursor :: bool

definition default_query :: query where
  "default_query =
     \<lparr>qy_component = None, qy_module = None, qy_maximum_priority = None, qy_since = None, qy_after = None,
      qy_components = [], qy_units = [], qy_limit = 100, qy_audience = None, qy_category = None,
      qy_event = None, qy_until = None, qy_newest_first = False, qy_strict_cursor = False\<rparr>"

text \<open>The exceptions: \<open>JournalError\<close> with its code, and the two of the standard library.\<close>

datatype journal_error_code = journal_unavailable | cursor_expired | read_failed

datatype journal_exn =
    JournalError journal_error_code string
  | RuntimeError string
  | InvalidArgument string

section \<open>Text\<close>

definition backslash :: char where
  "backslash = CHR 0x5C"

definition hex_char_of :: "nat \<Rightarrow> char" where
  "hex_char_of n = (if n < 10 then char_of (48 + n) else char_of (87 + n))"

text \<open>A control character in four hexadecimal digits.\<close>

definition unicode_escape :: "nat \<Rightarrow> string" where
  "unicode_escape n = [backslash, CHR ''u'', CHR ''0'', CHR ''0'', hex_char_of (n div 16), hex_char_of (n mod 16)]"

definition escape_char :: "char \<Rightarrow> string" where
  "escape_char c =
     (if c = quote then [backslash, quote]
      else if c = backslash then [backslash, backslash]
      else if ord c = 8 then [backslash, CHR ''b'']
      else if ord c = 12 then [backslash, CHR ''f'']
      else if ord c = 10 then [backslash, CHR ''n'']
      else if ord c = 13 then [backslash, CHR ''r'']
      else if ord c = 9 then [backslash, CHR ''t'']
      else if ord c < 0x20 then unicode_escape (ord c)
      else [c])"

definition json_escape :: "string \<Rightarrow> string" where
  "json_escape s = concat (map escape_char s)"

definition listed :: "string list \<Rightarrow> string \<Rightarrow> bool" where
  "listed values v = (values = [] \<or> v \<in> set values)"

text \<open>The loop of \<open>changed_fields\<close>; anything that is not an array of identifiers gives no names.\<close>

function changed_fields_loop :: "string list \<Rightarrow> string \<Rightarrow> string list" where
  "changed_fields_loop result v =
     (if v = [] then result
      else if hd v \<noteq> quote then []
      else case find_char quote (tl v) of
             None \<Rightarrow> []
           | Some e \<Rightarrow>
               if e = 0 \<or> e > 128 then []
               else if \<not> list_all identifier_char (take e (tl v)) then []
               else if length (result @ [take e (tl v)]) > 64 then []
               else if drop (Suc e) (tl v) = [] then result @ [take e (tl v)]
               else if \<not> starts_with (drop (Suc e) (tl v)) [CHR '','', quote] then []
               else changed_fields_loop (result @ [take e (tl v)]) (tl (drop (Suc e) (tl v))))"
  by pat_completeness auto
termination by (relation "measure (length \<circ> snd)") auto

declare changed_fields_loop.simps [simp del]

definition changed_fields :: "string \<Rightarrow> string list" where
  "changed_fields v =
     (if v = ''[]'' then []
      else if length v > 64 * 132 \<or> \<not> starts_with v [CHR ''['', quote] \<or> \<not> ends_with v [quote, CHR '']''] then []
      else changed_fields_loop [] (butlast (tl v)))"

section \<open>The journal\<close>

text \<open>
  The calls of the journal library: what they return (negative: an error number) and the journal
  afterwards. \<open>get_data\<close>, \<open>get_realtime_usec\<close> and \<open>get_cursor\<close> read the entry at the position;
  \<open>None\<close> is an error.
\<close>

record 'j sd_journal =
  sd_flush_matches :: "'j \<Rightarrow> 'j"
  sd_add_match :: "string \<Rightarrow> 'j \<Rightarrow> int \<times> 'j"
  sd_next :: "'j \<Rightarrow> int \<times> 'j"
  sd_previous :: "'j \<Rightarrow> int \<times> 'j"
  sd_seek_cursor :: "string \<Rightarrow> 'j \<Rightarrow> int \<times> 'j"
  sd_seek_tail :: "'j \<Rightarrow> int \<times> 'j"
  sd_seek_realtime_usec :: "64 word \<Rightarrow> 'j \<Rightarrow> int \<times> 'j"
  sd_wait :: "64 word \<Rightarrow> 'j \<Rightarrow> int \<times> 'j"
  sd_test_cursor :: "string \<Rightarrow> 'j \<Rightarrow> int"
  sd_get_data :: "string \<Rightarrow> 'j \<Rightarrow> string option"
  sd_get_realtime_usec :: "'j \<Rightarrow> 64 word option"
  sd_get_cursor :: "'j \<Rightarrow> string option"

definition journal_value :: "'j sd_journal \<Rightarrow> 'j \<Rightarrow> string \<Rightarrow> string" where
  "journal_value J j name =
     (case sd_get_data J name j of
        None \<Rightarrow> []
      | Some v \<Rightarrow> (case find_char (CHR ''='') v of None \<Rightarrow> [] | Some separator \<Rightarrow> drop (Suc separator) v))"

text \<open>The number of a priority; out of range there is none.\<close>

definition priorities :: "priority list" where
  "priorities = [emergency, alert, critical, error, warning, notice, info, debug]"

definition read_priority :: "string \<Rightarrow> priority" where
  "read_priority v =
     (case from_chars_unsigned 10 v of
        None \<Rightarrow> info
      | Some (numeric, rest) \<Rightarrow> if numeric \<le> 7 then priorities ! numeric else info)"

definition current_entry :: "'j sd_journal \<Rightarrow> 'j \<Rightarrow> entry" where
  "current_entry J j =
     (let v = journal_value J j in
      \<lparr>je_timestamp = (case sd_get_realtime_usec J j of None \<Rightarrow> 0 | Some t \<Rightarrow> 1000 * uint t),
       je_cursor = (case sd_get_cursor J j of None \<Rightarrow> [] | Some c \<Rightarrow> c),
       je_priority = read_priority (v ''PRIORITY''),
       je_message = v ''MESSAGE'',
       je_component = v ''MNC_COMPONENT'',
       je_module = v ''MNC_MODULE'',
       je_event = v ''MNC_EVENT'',
       je_audience = (if v ''MNC_LOG_AUDIENCE'' = [] then ''developer'' else v ''MNC_LOG_AUDIENCE''),
       je_category = v ''MNC_EVENT_CATEGORY'',
       je_actor = v ''MNC_ACTOR'',
       je_action = v ''MNC_ACTION'',
       je_outcome = v ''MNC_OUTCOME'',
       je_subject = v ''MNC_SUBJECT'',
       je_changed_fields = changed_fields (v ''MNC_CHANGED_FIELDS''),
       je_request_id = v ''MNC_REQUEST_ID'',
       je_configuration_generation = v ''MNC_CONFIGURATION_GENERATION'',
       je_unit = (if v ''UNIT'' = [] then v ''_SYSTEMD_UNIT'' else v ''UNIT''),
       je_systemd_unit = v ''_SYSTEMD_UNIT'',
       je_executable = v ''_EXE'',
       je_source_file = v ''CODE_FILE'',
       je_source_line = v ''CODE_LINE'',
       je_source_function = v ''CODE_FUNC''\<rparr>)"

section \<open>Queries\<close>

definition matches_query :: "entry \<Rightarrow> query \<Rightarrow> bool" where
  "matches_query e q =
     (if qy_audience q \<noteq> None \<and> je_audience e \<noteq> the (qy_audience q) then False
      else if qy_category q \<noteq> None \<and> je_category e \<noteq> the (qy_category q) then False
      else if qy_event q \<noteq> None \<and> je_event e \<noteq> the (qy_event q) then False
      else if qy_since q \<noteq> None \<and> je_timestamp e < the (qy_since q) then False
      else if qy_until q \<noteq> None \<and> je_timestamp e > the (qy_until q) then False
      else if qy_component q \<noteq> None \<and> je_component e \<noteq> the (qy_component q) then False
      else if qy_module q \<noteq> None \<and> je_module e \<noteq> the (qy_module q) then False
      else if qy_maximum_priority q \<noteq> None \<and>
              priority_index (je_priority e) > priority_index (the (qy_maximum_priority q)) then False
      else
        let component_match = listed (qy_components q) (je_component e);
            unit_match = listed (qy_units q) (je_unit e)
        in if qy_components q \<noteq> [] \<and> qy_units q \<noteq> [] then component_match \<or> unit_match
           else component_match \<and> unit_match)"

text \<open>A cursor to continue after: an optional one that is not empty.\<close>

definition cursor_of :: "query \<Rightarrow> string option" where
  "cursor_of q = (case qy_after q of None \<Rightarrow> None | Some c \<Rightarrow> if c = [] then None else Some c)"

fun page_loop :: "query \<Rightarrow> bool \<Rightarrow> entry list \<Rightarrow> entry list \<Rightarrow> entry list" where
  "page_loop q after_cursor result [] = result"
| "page_loop q after_cursor result (e # es) =
     (if \<not> after_cursor then page_loop q (je_cursor e = the (qy_after q)) result es
      else if \<not> matches_query e q then page_loop q after_cursor result es
      else if length (result @ [e]) = qy_limit q then result @ [e]
      else page_loop q after_cursor (result @ [e]) es)"

definition bounded_page :: "entry list \<Rightarrow> query \<Rightarrow> journal_exn + entry list" where
  "bounded_page es q =
     (if qy_limit q = 0 then Inr []
      else if qy_strict_cursor q \<and> cursor_of q \<noteq> None \<and> (\<forall>e\<in>set es. je_cursor e \<noteq> the (qy_after q))
      then Inl (JournalError cursor_expired ''journal cursor is no longer valid'')
      else Inr (page_loop q (cursor_of q = None) [] (if qy_newest_first q then rev es else es)))"


section \<open>The reader\<close>

text \<open>
  \<open>while (result.size() < query.limit && (state = step()) > 0)\<close>: the entries found, the last result
  of the step and the journal. A journal that grows as fast as it is read may keep the loop busy, so
  the loop is a partial function.
\<close>

partial_function (option) read_loop ::
    "'j sd_journal \<Rightarrow> ('j \<Rightarrow> int \<times> 'j) \<Rightarrow> query \<Rightarrow> entry list \<Rightarrow> int \<Rightarrow> 'j \<Rightarrow> (entry list \<times> int \<times> 'j) option" where
  "read_loop J step q result state j =
     (if length result < qy_limit q
      then (case step j of (s, j') \<Rightarrow>
        if s > 0
        then read_loop J step q
               (if matches_query (current_entry J j') q then result @ [current_entry J j'] else result) s j'
        else Some (result, s, j'))
      else Some (result, state, j))"

definition failed_read :: journal_exn where
  "failed_read = JournalError read_failed ''failed to read the system journal''"

definition expired :: journal_exn where
  "expired = JournalError cursor_expired ''journal cursor is no longer valid''"

text \<open>The last part of \<open>JournalReader::read\<close>, from the position that was sought.\<close>

definition read_on :: "'j sd_journal \<Rightarrow> query \<Rightarrow> entry list \<Rightarrow> 'j \<Rightarrow> ((journal_exn + entry list) \<times> 'j) option" where
  "read_on J q result j =
     (case read_loop J (if qy_newest_first q then sd_previous J else sd_next J) q result 0 j of
        None \<Rightarrow> None
      | Some (result', state, j') \<Rightarrow> Some (if state < 0 then Inl failed_read else Inr result', j'))"

text \<open>Reading after a cursor.\<close>

definition read_after :: "'j sd_journal \<Rightarrow> query \<Rightarrow> string \<Rightarrow> 'j \<Rightarrow> ((journal_exn + entry list) \<times> 'j) option" where
  "read_after J q cursor j =
     (case sd_seek_cursor J cursor j of (sought, j1) \<Rightarrow>
        if sought < 0 then Some (Inl expired, j1)
        else case sd_next J j1 of (positioned, j2) \<Rightarrow>
          if positioned < 0 then Some (Inl failed_read, j2)
          else if positioned = 0 \<or> sd_test_cursor J cursor j2 \<noteq> 1
          then if qy_strict_cursor q then Some (Inl expired, j2)
               else read_on J q
                      (if positioned > 0 \<and> \<not> qy_newest_first q \<and> matches_query (current_entry J j2) q
                       then [current_entry J j2] else []) j2
          else read_on J q [] j2)"

text \<open>Without a cursor and a start time: the most recent entries, oldest first.\<close>

definition read_recent :: "'j sd_journal \<Rightarrow> query \<Rightarrow> 'j \<Rightarrow> ((journal_exn + entry list) \<times> 'j) option" where
  "read_recent J q j =
     (case read_loop J (sd_previous J) q [] 0 j of
        None \<Rightarrow> None
      | Some (result, state, j') \<Rightarrow>
          Some (if length result < qy_limit q \<and> state < 0 then Inl failed_read else Inr (rev result), j'))"

text \<open>\<open>duration_cast\<close> to microseconds rounds towards zero.\<close>

definition microseconds :: "int \<Rightarrow> int" where
  "microseconds t = (if 0 \<le> t then t div 1000 else - (- t div 1000))"

definition read_matched :: "'j sd_journal \<Rightarrow> query \<Rightarrow> 'j \<Rightarrow> ((journal_exn + entry list) \<times> 'j) option" where
  "read_matched J q j =
     (case cursor_of q of
        Some cursor \<Rightarrow> read_after J q cursor j
      | None \<Rightarrow>
          (if qy_newest_first q \<or> qy_since q = None
           then (case sd_seek_tail J j of (sought, j1) \<Rightarrow>
             if sought < 0 then Some (Inl failed_read, j1)
             else if \<not> qy_newest_first q then read_recent J q j1
             else read_on J q [] j1)
           else (case sd_seek_realtime_usec J (word_of_int (max 0 (microseconds (the (qy_since q))))) j of (sought, j1) \<Rightarrow>
             if sought < 0 then Some (Inl failed_read, j1)
             else read_on J q [] j1)))"

text \<open>\<open>JournalReader::read\<close>; the state of the reader is the journal, if it could be opened.\<close>

definition journal_read :: "'j sd_journal \<Rightarrow> query \<Rightarrow> 'j option \<Rightarrow> ((journal_exn + entry list) \<times> 'j option) option" where
  "journal_read J q reader =
     (if qy_limit q = 0 then Some (Inr [], reader)
      else case reader of
             None \<Rightarrow> Some (Inl (JournalError journal_unavailable ''failed to open the system journal''), None)
           | Some j \<Rightarrow>
               map_option (\<lambda>(r, j'). (r, Some j'))
                 (let j1 = sd_flush_matches J j
                  in if qy_audience q = Some ''user''
                     then (case sd_add_match J ''MNC_LOG_AUDIENCE=user'' j1 of (added, j2) \<Rightarrow>
                       if added < 0
                       then Some (Inl (JournalError read_failed ''failed to filter the system journal''), j2)
                       else read_matched J q j2)
                     else read_matched J q j1))"

section \<open>Following the journal\<close>

text \<open>
  The handlers are arguments; each reads and writes a state of its own. \<open>deliver\<close> is the loop over a
  page: it stops at the first entry the handler refuses.
\<close>

fun deliver :: "(entry \<Rightarrow> 'h \<Rightarrow> bool \<times> 'h) \<Rightarrow> entry list \<Rightarrow> query \<Rightarrow> 'h \<Rightarrow> bool \<times> query \<times> 'h" where
  "deliver handler [] continuation h = (True, continuation, h)"
| "deliver handler (e # es) continuation h =
     (case handler e h of (go_on, h') \<Rightarrow>
        if \<not> go_on then (False, continuation, h')
        else deliver handler es
               (continuation\<lparr>qy_after := Some (je_cursor e), qy_since := Some (je_timestamp e)\<rparr>) h')"

definition SD_JOURNAL_INVALIDATE :: int where
  "SD_JOURNAL_INVALIDATE = 2"

definition wanted :: "('h \<Rightarrow> bool \<times> 'h) option \<Rightarrow> 'h \<Rightarrow> bool \<times> 'h" where
  "wanted keep_running h = (case keep_running of None \<Rightarrow> (True, h) | Some k \<Rightarrow> k h)"

text \<open>The endless loop of \<open>follow\<close>: it returns when a handler says so, or with an exception.\<close>

partial_function (option) follow_loop ::
    "'j sd_journal \<Rightarrow> (entry \<Rightarrow> 'h \<Rightarrow> bool \<times> 'h) \<Rightarrow> ('h \<Rightarrow> bool \<times> 'h) option \<Rightarrow> 64 word \<Rightarrow> nat \<Rightarrow>
     query \<Rightarrow> 'j \<Rightarrow> 'h \<Rightarrow> ((journal_exn + unit) \<times> 'j \<times> 'h) option" where
  "follow_loop J handler keep_running usec limit continuation j h =
     (case wanted keep_running h of (go_on, h1) \<Rightarrow>
        if \<not> go_on then Some (Inr (), j, h1)
        else Option.bind (journal_read J (continuation\<lparr>qy_limit := limit\<rparr>) (Some j)) (\<lambda>(r, reader).
          case r of
            Inl e \<Rightarrow> Some (Inl e, the reader, h1)
          | Inr page \<Rightarrow>
              if page \<noteq> []
              then (case deliver handler page (continuation\<lparr>qy_limit := limit\<rparr>) h1 of (go_on, cont, h2) \<Rightarrow>
                if \<not> go_on then Some (Inr (), the reader, h2)
                else follow_loop J handler keep_running usec limit cont (the reader) h2)
              else (case sd_wait J usec (the reader) of (state, j2) \<Rightarrow>
                if state < 0 then Some (Inl (RuntimeError ''failed while following the journal''), j2, h1)
                else case wanted keep_running h1 of (go_on, h2) \<Rightarrow>
                  if \<not> go_on then Some (Inr (), j2, h2)
                  else if state = SD_JOURNAL_INVALIDATE \<and> qy_after continuation \<noteq> None
                  then (case sd_seek_cursor J (the (qy_after continuation)) j2 of (sought, j3) \<Rightarrow>
                    follow_loop J handler keep_running usec limit
                      ((if sought < 0 then continuation\<lparr>qy_after := None\<rparr> else continuation)\<lparr>qy_limit := limit\<rparr>) j3 h2)
                  else follow_loop J handler keep_running usec limit (continuation\<lparr>qy_limit := limit\<rparr>) j2 h2)))"

definition follow :: "'j sd_journal \<Rightarrow> query \<Rightarrow> (entry \<Rightarrow> 'h \<Rightarrow> bool \<times> 'h) \<Rightarrow> 64 word \<Rightarrow> ('h \<Rightarrow> bool \<times> 'h) option \<Rightarrow>
    'j option \<Rightarrow> 'h \<Rightarrow> ((journal_exn + unit) \<times> 'j option \<times> 'h) option" where
  "follow J q handler wake_interval keep_running reader h =
     (case reader of
        None \<Rightarrow> Some (Inl (RuntimeError ''failed to open the system journal''), None, h)
      | Some j \<Rightarrow>
          if qy_newest_first q
          then Some (Inl (InvalidArgument ''journal follow requires oldest-first order''), Some j, h)
          else map_option (\<lambda>(r, j, h). (r, Some j, h))
            (Option.bind (journal_read J q (Some j)) (\<lambda>(r, reader').
              case r of
                Inl e \<Rightarrow> Some (Inl e, the reader', h)
              | Inr page \<Rightarrow>
                  (case deliver handler page q h of (go_on, continuation, h1) \<Rightarrow>
                    if \<not> go_on then Some (Inr (), the reader', h1)
                    else if qy_after continuation = None
                    then (case sd_seek_tail J (the reader') of (sought, j2) \<Rightarrow>
                      if sought < 0 then Some (Inl (RuntimeError ''failed to follow the system journal''), j2, h1)
                      else follow_loop J handler keep_running (1000 * wake_interval) (qy_limit q) continuation j2 h1)
                    else follow_loop J handler keep_running (1000 * wake_interval) (qy_limit q) continuation
                           (the reader') h1))))"

section \<open>Entries as JSON\<close>

definition quoted :: "string \<Rightarrow> string" where
  "quoted s = quote # s @ [quote]"

text \<open>\<open>std::ostream\<close> output of a signed integer.\<close>

definition print_int :: "int \<Rightarrow> string" where
  "print_int i = (if i < 0 then CHR ''-'' # to_string (nat (- i)) else to_string (nat i))"

definition text_field :: "string \<Rightarrow> string \<Rightarrow> string" where
  "text_field name v = '','' @ quoted name @ '':'' @ quoted (json_escape v)"

fun print_names :: "nat \<Rightarrow> string list \<Rightarrow> string" where
  "print_names index [] = []"
| "print_names index (name # names) =
     (if index > 0 then '','' else []) @ quoted (json_escape name) @ print_names (Suc index) names"

definition entry_to_json :: "entry \<Rightarrow> string" where
  "entry_to_json e =
     ''{'' @ quoted ''timestamp_usec'' @ '':'' @ print_int (microseconds (je_timestamp e)) @
     text_field ''cursor'' (je_cursor e) @
     '','' @ quoted ''priority'' @ '':'' @ quoted (priority_name (je_priority e)) @
     text_field ''message'' (je_message e) @
     text_field ''component'' (je_component e) @
     text_field ''module'' (je_module e) @
     text_field ''event'' (je_event e) @
     text_field ''request_id'' (je_request_id e) @
     text_field ''configuration_generation'' (je_configuration_generation e) @
     text_field ''unit'' (je_unit e) @
     text_field ''executable'' (je_executable e) @
     text_field ''source_file'' (je_source_file e) @
     text_field ''source_line'' (je_source_line e) @
     text_field ''source_function'' (je_source_function e) @
     text_field ''audience'' (je_audience e) @
     text_field ''category'' (je_category e) @
     text_field ''actor'' (je_actor e) @
     text_field ''action'' (je_action e) @
     text_field ''outcome'' (je_outcome e) @
     text_field ''subject'' (je_subject e) @
     '','' @ quoted ''changed_fields'' @ '':['' @ print_names 0 (je_changed_fields e) @ '']}''"

end
