(* ===== verification/Journal_Pages.thy ===== *)
theory Journal_Pages
  imports Journal_Reader
begin

text \<open>
  Pages of journal entries: what a page of an ordered list of entries is, that continuing after the
  last cursor of each page visits every matching entry once, and that the reader over the journal
  library gives the same pages.
\<close>

section \<open>Pages of a list\<close>

definition ordered :: "query \<Rightarrow> entry list \<Rightarrow> entry list" where
  "ordered q es = (if qy_newest_first q then rev es else es)"

text \<open>What follows the cursor.\<close>

definition beyond :: "string \<Rightarrow> entry list \<Rightarrow> entry list" where
  "beyond c es = tl (dropWhile (\<lambda>e. je_cursor e \<noteq> c) es)"

definition remaining :: "query \<Rightarrow> entry list \<Rightarrow> entry list" where
  "remaining q es = (case cursor_of q of None \<Rightarrow> ordered q es | Some c \<Rightarrow> beyond c (ordered q es))"

abbreviation matching :: "query \<Rightarrow> entry list \<Rightarrow> entry list" where
  "matching q \<equiv> filter (\<lambda>e. matches_query e q)"

lemma page_loop_True:
  "length result < qy_limit q \<Longrightarrow>
     page_loop q True result es = result @ take (qy_limit q - length result) (matching q es)"
proof (induction es arbitrary: result)
  case (Cons e es)
  show ?case
  proof (cases "matches_query e q")
    case True
    show ?thesis
    proof (cases "length (result @ [e]) = qy_limit q")
      case full: True
      with Cons.prems True show ?thesis by (simp flip: full)
    next
      case False
      with Cons.prems have "length (result @ [e]) < qy_limit q" by simp
      with Cons.IH [OF this] True False Cons.prems show ?thesis
        by (simp add: take_Cons' Suc_diff_Suc)
    qed
  next
    case False
    with Cons show ?thesis by simp
  qed
qed simp

lemma page_loop_False: "page_loop q False result es = page_loop q True result (beyond (the (qy_after q)) es)"
  by (induction es) (auto simp: beyond_def)

lemma cursor_of_Some: "cursor_of q = Some c \<longleftrightarrow> qy_after q = Some c \<and> c \<noteq> []"
  by (auto simp: cursor_of_def split: option.splits)

definition cursor_known :: "query \<Rightarrow> entry list \<Rightarrow> bool" where
  "cursor_known q es = (case cursor_of q of None \<Rightarrow> True | Some c \<Rightarrow> c \<in> je_cursor ` set es)"

lemma bounded_page_known:
  assumes "cursor_known q es"
  shows "bounded_page es q = Inr (take (qy_limit q) (matching q (remaining q es)))"
proof (cases "qy_limit q = 0")
  case False
  then have page: "page_loop q True [] xs = take (qy_limit q) (matching q xs)" for xs
    using page_loop_True [of "[]"] by simp
  show ?thesis
  proof (cases "cursor_of q")
    case None
    with False page show ?thesis by (simp add: bounded_page_def remaining_def ordered_def)
  next
    case (Some c)
    then have "qy_after q = Some c" by (simp add: cursor_of_Some)
    with Some assms False page show ?thesis
      by (auto simp: bounded_page_def remaining_def ordered_def page_loop_False cursor_known_def)
  qed
qed (simp add: bounded_page_def)

lemma bounded_page_expired:
  assumes "\<not> cursor_known q es" and "qy_strict_cursor q" and "qy_limit q \<noteq> 0"
  shows "bounded_page es q = Inl expired"
  using assms by (auto simp: bounded_page_def cursor_known_def expired_def cursor_of_Some split: option.splits)

section \<open>Continuing after the last cursor\<close>

text \<open>A client that asks for page after page until one is empty.\<close>

fun read_all :: "nat \<Rightarrow> entry list \<Rightarrow> query \<Rightarrow> entry list" where
  "read_all 0 es q = []"
| "read_all (Suc n) es q =
     (case bounded_page es q of
        Inl _ \<Rightarrow> []
      | Inr page \<Rightarrow>
          if page = [] then [] else page @ read_all n es (q\<lparr>qy_after := Some (je_cursor (last page))\<rparr>))"

lemma matches_query_after [simp]: "matches_query e (q\<lparr>qy_after := a\<rparr>) = matches_query e q"
  by (simp add: matches_query_def Let_def)

lemma take_matching_split:
  assumes "take n (matching q xs) \<noteq> []"
  shows "\<exists>pre post. xs = pre @ last (take n (matching q xs)) # post \<and>
    matching q xs = take n (matching q xs) @ matching q post"
  using assms
proof (induction xs arbitrary: n)
  case (Cons x xs)
  show ?case
  proof (cases "matches_query x q")
    case False
    with Cons.IH [of n] Cons.prems obtain pre post where
      "xs = pre @ last (take n (matching q xs)) # post" "matching q xs = take n (matching q xs) @ matching q post"
      by (metis filter.simps(2))
    with False show ?thesis by (intro exI [of _ "x # pre"] exI [of _ post]) simp
  next
    case True
    with Cons.prems obtain m where n: "n = Suc m" by (cases n) auto
    show ?thesis
    proof (cases "take m (matching q xs) = []")
      case only: True
      with True n Cons.prems show ?thesis by (intro exI [of _ "[]"] exI [of _ xs]) simp
    next
      case False
      from Cons.IH [OF this] obtain pre post where
        "xs = pre @ last (take m (matching q xs)) # post"
        "matching q xs = take m (matching q xs) @ matching q post" by blast
      with True False n show ?thesis by (intro exI [of _ "x # pre"] exI [of _ post]) simp
    qed
  qed
qed simp

lemma beyond_part: "\<exists>before. xs = before @ beyond c xs"
proof (cases "dropWhile (\<lambda>e. je_cursor e \<noteq> c) xs")
  case (Cons e es)
  then have "xs = (takeWhile (\<lambda>e. je_cursor e \<noteq> c) xs @ [e]) @ es"
    using takeWhile_dropWhile_id [of "\<lambda>e. je_cursor e \<noteq> c" xs] by simp
  moreover have "beyond c xs = es" using Cons by (simp add: beyond_def)
  ultimately show ?thesis by metis
next
  case Nil
  then show ?thesis by (intro exI [of _ xs]) (simp only: beyond_def list.sel append_Nil2)
qed

lemma beyond_split:
  assumes "distinct (map je_cursor xs)" and "xs = pre @ e # post"
  shows "beyond (je_cursor e) xs = post"
proof -
  have "\<forall>x\<in>set pre. je_cursor x \<noteq> je_cursor e"
    using assms(1) unfolding assms(2) by (auto simp: image_iff)
  then have "dropWhile (\<lambda>x. je_cursor x \<noteq> je_cursor e) (pre @ e # post) = e # post" by (simp add: dropWhile_append2)
  with assms(2) show ?thesis by (simp add: beyond_def)
qed

lemma read_all_complete:
  assumes "distinct (map je_cursor es)" and "[] \<notin> je_cursor ` set es" and "qy_limit q \<noteq> 0"
    and "cursor_known q es" and "length (remaining q es) < n"
  shows "read_all n es q = matching q (remaining q es)"
  using assms(3-5)
proof (induction n arbitrary: q)
  case (Suc n)
  let ?page = "take (qy_limit q) (matching q (remaining q es))"
  note page = bounded_page_known [OF Suc.prems(2)]
  show ?case
  proof (cases "?page = []")
    case True
    with page Suc.prems(1) show ?thesis by auto
  next
    case False
    from take_matching_split [OF this] obtain pre post where split:
      "remaining q es = pre @ last ?page # post" "matching q (remaining q es) = ?page @ matching q post" by blast
    let ?q = "q\<lparr>qy_after := Some (je_cursor (last ?page))\<rparr>"
    have sub: "\<exists>before. ordered q es = before @ remaining q es"
      using beyond_part by (auto simp: remaining_def split: option.split)
    then obtain before where "ordered q es = before @ remaining q es" by blast
    with split(1) have before: "ordered q es = (before @ pre) @ last ?page # post" by (metis append.assoc)
    have "distinct (map je_cursor (ordered q es))" using assms(1) by (simp add: ordered_def flip: rev_map)
    from beyond_split [OF this before] have "beyond (je_cursor (last ?page)) (ordered q es) = post" .
    moreover have "set (ordered q es) = set es" by (simp add: ordered_def)
    then have member: "last ?page \<in> set es" using before by (metis in_set_conv_decomp)
    then have "je_cursor (last ?page) \<noteq> []" using assms(2) by force
    ultimately have "remaining ?q es = post" by (simp add: remaining_def cursor_of_def ordered_def)
    moreover have "cursor_known ?q es" using member \<open>je_cursor (last ?page) \<noteq> []\<close> by (simp add: cursor_known_def cursor_of_def)
    moreover have "length post < n" using Suc.prems(3) arg_cong [OF split(1), of length] by simp
    ultimately have "read_all n es ?q = matching q post" using Suc.IH [of ?q] Suc.prems(1) by simp
    with page False split(2) show ?thesis by simp
  qed
qed simp


section \<open>The loop of the reader\<close>

text \<open>A page that is filled up from a list of entries.\<close>

definition fill :: "query \<Rightarrow> entry list \<Rightarrow> entry list \<Rightarrow> entry list" where
  "fill q result es =
     (if length result < qy_limit q then result @ take (qy_limit q - length result) (matching q es) else result)"

lemma fill_Nil: "fill q result [] = result"
  by (simp add: fill_def)

lemma fill_Cons:
  "length result < qy_limit q \<Longrightarrow>
     fill q result (e # es) = fill q (if matches_query e q then result @ [e] else result) es"
  by (auto simp: fill_def take_Cons' Suc_diff_Suc)

text \<open>
  A direction to read in: a step of the journal that walks along a list of entries and reports their
  end.
\<close>

locale read_walk =
  fixes J :: "'j sd_journal"
    and step :: "'j \<Rightarrow> int \<times> 'j"
    and ahead :: "'j \<Rightarrow> entry list"
    and valid :: "'j \<Rightarrow> bool"
  assumes finish: "valid j \<Longrightarrow> ahead j = [] \<Longrightarrow> \<exists>j'. step j = (0, j')"
    and advance: "valid j \<Longrightarrow> ahead j = e # es \<Longrightarrow>
      \<exists>s j'. step j = (s, j') \<and> 0 < s \<and> current_entry J j' = e \<and> ahead j' = es \<and> valid j'"
begin

lemma read_loop_fills:
  "valid j \<Longrightarrow> 0 \<le> s \<Longrightarrow>
     \<exists>s' j'. read_loop J step q result s j = Some (fill q result (ahead j), s', j') \<and> 0 \<le> s'"
proof (induction "ahead j" arbitrary: result s j)
  case Nil
  from finish [OF Nil(2) Nil(1) [symmetric]] obtain j' where "step j = (0, j')" by blast
  with Nil show ?case by (simp add: read_loop.simps [of J _ q result] fill_Nil flip: Nil(1))
next
  case (Cons e es)
  from advance [OF Cons.prems(1) Cons.hyps(2) [symmetric]] obtain t j' where t: "step j = (t, j')" "0 < t"
    "current_entry J j' = e" "ahead j' = es" "valid j'" by blast
  let ?r = "if matches_query e q then result @ [e] else result"
  from Cons.hyps(1) [OF t(4) [symmetric] t(5), of t ?r] t(2,4) obtain s' j'' where
    "read_loop J step q ?r t j' = Some (fill q ?r es, s', j'')" "0 \<le> s'" by auto
  note rest = this
  show ?case
  proof (cases "length result < qy_limit q")
    case True
    then have "read_loop J step q result s j = read_loop J step q ?r t j'"
      by (subst read_loop.simps) (use t(1-3) in simp)
    with rest show ?thesis by (simp only: fill_Cons [OF True] flip: Cons.hyps(2)) blast
  next
    case False
    with Cons.prems(2) show ?thesis by (subst read_loop.simps) (simp add: fill_def)
  qed
qed

end

section \<open>The journal library\<close>

text \<open>
  The documented behaviour of the journal library on a journal nobody writes to meanwhile. Between
  calls the journal stands on an entry, or, after a seek, before one. \<open>visible\<close> are the entries that
  pass the matches set; \<open>stored\<close> are all of them, oldest first.
\<close>

datatype place = Gap nat | On nat

fun index_after :: "place \<Rightarrow> nat" where
  "index_after (Gap i) = i"
| "index_after (On i) = Suc i"

fun index_before :: "place \<Rightarrow> nat" where
  "index_before (Gap i) = i"
| "index_before (On i) = i"

locale journal_library =
  fixes J :: "'j sd_journal"
    and stored :: "entry list"
    and visible :: "'j \<Rightarrow> entry list"
    and place :: "'j \<Rightarrow> place"
  assumes flush: "visible (sd_flush_matches J j) = stored"
    and match_user: "visible j = stored \<Longrightarrow> \<exists>s j'. sd_add_match J ''MNC_LOG_AUDIENCE=user'' j = (s, j') \<and> 0 \<le> s \<and>
      visible j' = filter (\<lambda>e. je_audience e = ''user'') stored"
    and next_entry: "index_after (place j) < length (visible j) \<Longrightarrow>
      \<exists>s j'. sd_next J j = (s, j') \<and> 0 < s \<and> visible j' = visible j \<and> place j' = On (index_after (place j))"
    and next_end: "length (visible j) \<le> index_after (place j) \<Longrightarrow>
      \<exists>j'. sd_next J j = (0, j') \<and> visible j' = visible j"
    and previous_entry: "index_before (place j) = Suc i \<Longrightarrow> i < length (visible j) \<Longrightarrow>
      \<exists>s j'. sd_previous J j = (s, j') \<and> 0 < s \<and> visible j' = visible j \<and> place j' = On i"
    and previous_end: "index_before (place j) = 0 \<Longrightarrow>
      \<exists>j'. sd_previous J j = (0, j') \<and> visible j' = visible j"
    and tail: "\<exists>s j'. sd_seek_tail J j = (s, j') \<and> 0 \<le> s \<and> visible j' = visible j \<and>
      place j' = Gap (length (visible j))"
    and seek_cursor: "i < length (visible j) \<Longrightarrow> je_cursor (visible j ! i) = c \<Longrightarrow>
      \<forall>k<i. je_cursor (visible j ! k) \<noteq> c \<Longrightarrow>
      \<exists>s j'. sd_seek_cursor J c j = (s, j') \<and> 0 \<le> s \<and> visible j' = visible j \<and> place j' = Gap i"
    and seek_lost: "c \<notin> je_cursor ` set (visible j) \<Longrightarrow>
      \<exists>s j' k. sd_seek_cursor J c j = (s, j') \<and> visible j' = visible j \<and> place j' = Gap k"
    and seek_time: "\<exists>s j'. sd_seek_realtime_usec J t j = (s, j') \<and> 0 \<le> s \<and> visible j' = visible j \<and>
      place j' = Gap (length (takeWhile (\<lambda>e. je_timestamp e < 1000 * uint t) (visible j)))"
    and test_cursor: "place j = On i \<Longrightarrow> i < length (visible j) \<Longrightarrow>
      sd_test_cursor J c j = 1 \<longleftrightarrow> je_cursor (visible j ! i) = c"
    and decoded: "place j = On i \<Longrightarrow> i < length (visible j) \<Longrightarrow> current_entry J j = visible j ! i"
begin

lemma walk_next:
  "read_walk J (sd_next J) (\<lambda>j. drop (index_after (place j)) (visible j)) (\<lambda>_. True)"
proof
  fix j assume "drop (index_after (place j)) (visible j) = []"
  then show "\<exists>j'. sd_next J j = (0, j')" using next_end [of j] by auto
next
  fix j e es assume ahead: "drop (index_after (place j)) (visible j) = e # es"
  then have i: "index_after (place j) < length (visible j)" by (metis drop_all leI list.distinct(1))
  from next_entry [OF this] obtain s j' where step: "sd_next J j = (s, j')" "0 < s" "visible j' = visible j"
    "place j' = On (index_after (place j))" by blast
  moreover have "current_entry J j' = visible j ! index_after (place j)" using decoded [OF step(4)] i step(3) by simp
  moreover have "e = visible j ! index_after (place j)" "es = drop (Suc (index_after (place j))) (visible j)"
    using Cons_nth_drop_Suc [OF i] ahead by simp_all
  ultimately show "\<exists>s j'. sd_next J j = (s, j') \<and> 0 < s \<and> current_entry J j' = e \<and>
      drop (index_after (place j')) (visible j') = es \<and> True" by auto
qed

lemma walk_previous:
  "read_walk J (sd_previous J) (\<lambda>j. rev (take (index_before (place j)) (visible j)))
     (\<lambda>j. index_before (place j) \<le> length (visible j))"
proof
  fix j assume "index_before (place j) \<le> length (visible j)" "rev (take (index_before (place j)) (visible j)) = []"
  then show "\<exists>j'. sd_previous J j = (0, j')" using previous_end [of j] by auto
next
  fix j e es
  assume le: "index_before (place j) \<le> length (visible j)"
    and ahead: "rev (take (index_before (place j)) (visible j)) = e # es"
  then obtain i where i: "index_before (place j) = Suc i" by (cases "index_before (place j)") auto
  with le have len: "i < length (visible j)" by simp
  from previous_entry [OF i this] obtain s j' where step: "sd_previous J j = (s, j')" "0 < s"
    "visible j' = visible j" "place j' = On i" by blast
  moreover have "current_entry J j' = visible j ! i" using decoded [OF step(4)] len step(3) by simp
  moreover have "e = visible j ! i" "es = rev (take i (visible j))"
    using ahead len by (simp_all add: i take_Suc_conv_app_nth)
  ultimately show "\<exists>s j'. sd_previous J j = (s, j') \<and> 0 < s \<and> current_entry J j' = e \<and>
      rev (take (index_before (place j')) (visible j')) = es \<and> index_before (place j') \<le> length (visible j')"
    using len by auto
qed

end


text \<open>Both directions of the library are walks.\<close>

sublocale journal_library \<subseteq> forward: read_walk J "sd_next J"
  "\<lambda>j. drop (index_after (place j)) (visible j)" "\<lambda>_. True"
  by (rule walk_next)

sublocale journal_library \<subseteq> backward: read_walk J "sd_previous J"
  "\<lambda>j. rev (take (index_before (place j)) (visible j))" "\<lambda>j. index_before (place j) \<le> length (visible j)"
  by (rule walk_previous)

lemma fill_start: "qy_limit q \<noteq> 0 \<Longrightarrow> fill q [] es = take (qy_limit q) (matching q es)"
  by (simp add: fill_def)

lemma in_set_first:
  "x \<in> set (map f xs) \<Longrightarrow> \<exists>i<length xs. f (xs ! i) = x \<and> (\<forall>k<i. f (xs ! k) \<noteq> x)"
proof (induction xs)
  case (Cons a xs)
  show ?case
  proof (cases "f a = x")
    case True
    then show ?thesis by (intro exI [of _ 0]) simp
  next
    case False
    with Cons obtain i where "i < length xs" "f (xs ! i) = x" "\<forall>k<i. f (xs ! k) \<noteq> x" by auto
    with False show ?thesis
      by (intro exI [of _ "Suc i"]) (auto simp: less_Suc_eq_0_disj)
  qed
qed simp

context journal_library
begin

lemma read_on_place:
  assumes "qy_limit q \<noteq> 0" and "qy_newest_first q \<Longrightarrow> index_before (place j) \<le> length (visible j)"
  shows "\<exists>j'. read_on J q [] j = Some (Inr (take (qy_limit q) (matching q
    (if qy_newest_first q then rev (take (index_before (place j)) (visible j))
     else drop (index_after (place j)) (visible j)))), j')"
proof (cases "qy_newest_first q")
  case True
  with backward.read_loop_fills [where j = j and s = 0 and q = q and result = "[]"] assms show ?thesis by (auto simp: read_on_def fill_start)
next
  case False
  with forward.read_loop_fills [where j = j and s = 0 and q = q and result = "[]"] assms(1) show ?thesis by (auto simp: read_on_def fill_start)
qed

lemma read_after_known:
  assumes "qy_limit q \<noteq> 0" and "distinct (map je_cursor (visible j))" and "c \<in> je_cursor ` set (visible j)"
  shows "\<exists>j'. read_after J q c j = Some (Inr (take (qy_limit q) (matching q (beyond c (ordered q (visible j))))), j')"
proof -
  have "c \<in> set (map je_cursor (visible j))" using assms(3) by simp
  from in_set_first [OF this] obtain i where i: "i < length (visible j)" "je_cursor (visible j ! i) = c"
    "\<forall>k<i. je_cursor (visible j ! k) \<noteq> c" by auto
  from seek_cursor [OF i] obtain s j1 where j1: "sd_seek_cursor J c j = (s, j1)" "0 \<le> s" "visible j1 = visible j"
    "place j1 = Gap i" by blast
  from next_entry [of j1] i(1) j1(3,4) obtain t j2 where j2: "sd_next J j1 = (t, j2)" "0 < t" "visible j2 = visible j"
    "place j2 = On i" by auto
  have tested: "sd_test_cursor J c j2 = 1" using test_cursor [OF j2(4)] i j2(3) by simp
  have split: "visible j = take i (visible j) @ visible j ! i # drop (Suc i) (visible j)"
    using i(1) by (simp add: id_take_nth_drop)
  then have rev_split: "rev (visible j) = rev (drop (Suc i) (visible j)) @ visible j ! i # rev (take i (visible j))"
    by (metis append.assoc append_Cons append_Nil rev.simps(2) rev_append)
  have "beyond c (visible j) = drop (Suc i) (visible j)" "beyond c (rev (visible j)) = rev (take i (visible j))"
    using beyond_split [OF assms(2) split] beyond_split [OF _ rev_split] assms(2) i(2) by (simp_all flip: rev_map)
  with read_on_place [OF assms(1), of j2] j1 j2 tested i(1) show ?thesis
    by (cases "qy_newest_first q") (simp_all add: read_after_def ordered_def)
qed

lemma read_after_lost:
  assumes "qy_strict_cursor q" and "c \<notin> je_cursor ` set (visible j)"
  shows "\<exists>j'. read_after J q c j = Some (Inl expired, j')"
proof -
  from seek_lost [OF assms(2)] obtain s j1 k where j1: "sd_seek_cursor J c j = (s, j1)" "visible j1 = visible j"
    "place j1 = Gap k" by blast
  show ?thesis
  proof (cases "k < length (visible j)")
    case True
    from next_entry [of j1] True j1(2,3) obtain t j2 where j2: "sd_next J j1 = (t, j2)" "0 < t" "visible j2 = visible j"
      "place j2 = On k" by auto
    have "sd_test_cursor J c j2 \<noteq> 1" using test_cursor [OF j2(4)] True j2(3) assms(2) by auto
    with j1 j2 assms(1) show ?thesis by (simp add: read_after_def)
  next
    case False
    with next_end [of j1] j1 assms(1) show ?thesis by (auto simp: read_after_def)
  qed
qed

end


text \<open>What a query can see of the journal.\<close>

definition in_view :: "query \<Rightarrow> entry list \<Rightarrow> entry list" where
  "in_view q es = (if qy_audience q = Some ''user'' then filter (\<lambda>e. je_audience e = ''user'') es else es)"

text \<open>
  The queries whose page is determined by the order of the entries alone: with a start or newest
  first, and no cursor that may be guessed. Times are in the range of the clock.
\<close>

definition definite :: "query \<Rightarrow> bool" where
  "definite q =
     ((qy_newest_first q \<or> qy_since q \<noteq> None \<or> cursor_of q \<noteq> None) \<and>
      (cursor_of q \<noteq> None \<longrightarrow> qy_strict_cursor q) \<and>
      (case qy_since q of None \<Rightarrow> True | Some t \<Rightarrow> t < 2 ^ 63))"

lemma matching_from:
  assumes "\<forall>e\<in>set es. 0 \<le> je_timestamp e" and "qy_since q = Some t" and "t < 2 ^ 63"
  shows "matching q (dropWhile (\<lambda>e. je_timestamp e < 1000 * uint (word_of_int (max 0 (microseconds t)) :: 64 word)) es)
    = matching q es"
proof -
  have "uint (word_of_int (max 0 (microseconds t)) :: 64 word) = max 0 (microseconds t)"
    using assms(3) by (simp add: uint_word_of_int microseconds_def)
  moreover have "1000 * max 0 (microseconds t) \<le> max 0 t" by (auto simp: microseconds_def)
  ultimately have bounds: "1000 * uint (word_of_int (max 0 (microseconds t)) :: 64 word) \<le> max 0 t" by simp
  have early: "\<not> matches_query e q"
    if "e \<in> set es" "je_timestamp e < 1000 * uint (word_of_int (max 0 (microseconds t)) :: 64 word)" for e
  proof -
    have "je_timestamp e < max 0 t" "0 \<le> je_timestamp e" using that bounds assms(1) by auto
    then have "je_timestamp e < t" by linarith
    with assms(2) show ?thesis by (simp add: matches_query_def)
  qed
  then show ?thesis by (induction es) auto
qed

context journal_library
begin

lemma read_matched_page:
  assumes "visible j = es" and "distinct (map je_cursor es)" and "\<forall>e\<in>set es. 0 \<le> je_timestamp e"
    and "definite q" and "qy_limit q \<noteq> 0"
  shows "\<exists>j'. read_matched J q j = Some (bounded_page es q, j')"
proof (cases "cursor_of q")
  case (Some c)
  show ?thesis
  proof (cases "c \<in> je_cursor ` set es")
    case True
    then have "cursor_known q es" using Some by (simp add: cursor_known_def)
    with read_after_known [of q j c] assms True Some bounded_page_known [OF this] show ?thesis
      by (simp add: read_matched_def remaining_def)
  next
    case False
    then have "\<not> cursor_known q es" using Some by (simp add: cursor_known_def)
    with read_after_lost [of q c j] assms False Some bounded_page_expired [OF this] show ?thesis
      by (simp add: read_matched_def definite_def)
  qed
next
  case None
  then have page: "bounded_page es q = Inr (take (qy_limit q) (matching q (ordered q es)))"
    by (simp add: bounded_page_known cursor_known_def remaining_def)
  show ?thesis
  proof (cases "qy_newest_first q")
    case True
    from tail [of j] assms(1) obtain s j1 where "sd_seek_tail J j = (s, j1)" "0 \<le> s" "visible j1 = es"
      "place j1 = Gap (length es)" by auto
    with True None page read_on_place [OF assms(5), of j1] show ?thesis
      by (auto simp: read_matched_def ordered_def)
  next
    case False
    with assms(4) None obtain t where t: "qy_since q = Some t" "t < 2 ^ 63" by (auto simp: definite_def)
    let ?w = "word_of_int (max 0 (microseconds t)) :: 64 word"
    from seek_time [of ?w j] assms(1) obtain s j1 where "sd_seek_realtime_usec J ?w j = (s, j1)" "0 \<le> s"
      "visible j1 = es" "place j1 = Gap (length (takeWhile (\<lambda>e. je_timestamp e < 1000 * uint ?w) es))" by auto
    with False None t page read_on_place [OF assms(5), of j1] matching_from [OF assms(3) t] show ?thesis
      by (auto simp: read_matched_def ordered_def dropWhile_eq_drop [symmetric])
  qed
qed

lemma journal_read_page:
  assumes "distinct (map je_cursor stored)" and "\<forall>e\<in>set stored. 0 \<le> je_timestamp e" and "definite q"
  shows "\<exists>j'. journal_read J q (Some j) = Some (bounded_page (in_view q stored) q, Some j')"
proof (cases "qy_limit q = 0")
  case True
  then show ?thesis by (simp add: journal_read_def bounded_page_def)
next
  case False
  have view: "distinct (map je_cursor (in_view q stored))" "\<forall>e\<in>set (in_view q stored). 0 \<le> je_timestamp e"
    using assms(1,2) by (auto simp: in_view_def distinct_map_filter)
  show ?thesis
  proof (cases "qy_audience q = Some ''user''")
    case True
    from match_user [OF flush, of j] obtain s j2 where
      "sd_add_match J ''MNC_LOG_AUDIENCE=user'' (sd_flush_matches J j) = (s, j2)" "0 \<le> s"
      "visible j2 = in_view q stored" using True by (auto simp: in_view_def)
    with read_matched_page [OF this(3) view assms(3) False] True False show ?thesis
      by (auto simp: journal_read_def)
  next
    case nobody: False
    then have "visible (sd_flush_matches J j) = in_view q stored" by (simp add: flush in_view_def)
    with read_matched_page [OF this view assms(3) False] nobody False show ?thesis
      by (auto simp: journal_read_def)
  qed
qed

end


context journal_library
begin

lemma journal_read_recent:
  assumes "cursor_of q = None" and "\<not> qy_newest_first q" and "qy_since q = None" and "qy_limit q \<noteq> 0"
    and "qy_audience q = None"
  shows "\<exists>j'. journal_read J q (Some j) = Some (Inr (rev (take (qy_limit q) (matching q (rev stored)))), Some j')"
proof -
  from tail [of "sd_flush_matches J j"] obtain s j1 where j1: "sd_seek_tail J (sd_flush_matches J j) = (s, j1)" "0 \<le> s"
    "visible j1 = stored" "place j1 = Gap (length stored)" by (auto simp: flush)
  with backward.read_loop_fills [where j = j1 and s = 0 and q = q and result = "[]"] assms(4) obtain t j2 where
    "read_loop J (sd_previous J) q [] 0 j1 = Some (take (qy_limit q) (matching q (rev stored)), t, j2)" "0 \<le> t"
    by (auto simp: fill_start)
  with j1 assms show ?thesis by (simp add: journal_read_def read_matched_def read_recent_def)
qed

end

section \<open>A journal in a list\<close>

text \<open>A journal whose entries are given: when each was written, its cursor and its fields.\<close>

record stored_entry =
  se_usec :: "64 word"
  se_cursor :: string
  se_fields :: "(string \<times> string) list"

type_synonym list_position = "bool \<times> place"

definition shown :: "stored_entry list \<Rightarrow> bool \<Rightarrow> stored_entry list" where
  "shown rs public =
     (if public then filter (\<lambda>r. map_of (se_fields r) ''MNC_LOG_AUDIENCE'' = Some ''user'') rs else rs)"

definition standing :: "stored_entry list \<Rightarrow> list_position \<Rightarrow> stored_entry option" where
  "standing rs j =
     (case j of (public, On i) \<Rightarrow> if i < length (shown rs public) then Some (shown rs public ! i) else None
      | (public, Gap i) \<Rightarrow> None)"

definition list_journal :: "stored_entry list \<Rightarrow> list_position sd_journal" where
  "list_journal rs =
     \<lparr>sd_flush_matches = (\<lambda>(public, p). (False, p)),
      sd_add_match = (\<lambda>m (public, p). (0, (m = ''MNC_LOG_AUDIENCE=user'', p))),
      sd_next = (\<lambda>(public, p). if index_after p < length (shown rs public)
        then (1, (public, On (index_after p))) else (0, (public, p))),
      sd_previous = (\<lambda>(public, p). if 0 < index_before p then (1, (public, On (index_before p - 1))) else (0, (public, p))),
      sd_seek_cursor = (\<lambda>c (public, p). (0, (public, Gap (length (takeWhile (\<lambda>r. se_cursor r \<noteq> c) (shown rs public)))))),
      sd_seek_tail = (\<lambda>(public, p). (0, (public, Gap (length (shown rs public))))),
      sd_seek_realtime_usec = (\<lambda>t (public, p).
        (0, (public, Gap (length (takeWhile (\<lambda>r. se_usec r < t) (shown rs public)))))),
      sd_wait = (\<lambda>t j. (0, j)),
      sd_test_cursor = (\<lambda>c j. case standing rs j of None \<Rightarrow> 0 | Some r \<Rightarrow> if se_cursor r = c then 1 else 0),
      sd_get_data = (\<lambda>name j. Option.bind (standing rs j) (\<lambda>r. map_option (journal_field name) (map_of (se_fields r) name))),
      sd_get_realtime_usec = (\<lambda>j. map_option se_usec (standing rs j)),
      sd_get_cursor = (\<lambda>j. map_option se_cursor (standing rs j))\<rparr>"

definition entry_of :: "stored_entry \<Rightarrow> entry" where
  "entry_of r = current_entry (list_journal [r]) (False, On 0)"

lemma standing_value:
  assumes "standing rs j = Some r" and "CHR ''='' \<notin> set name"
  shows "journal_value (list_journal rs) j name = (case map_of (se_fields r) name of None \<Rightarrow> [] | Some v \<Rightarrow> v)"
  using assms by (auto simp: journal_value_def list_journal_def journal_field_def find_char_append split: option.split)

lemma current_standing:
  assumes "standing rs j = Some r"
  shows "current_entry (list_journal rs) j = entry_of r"
proof -
  have one: "standing [r] (False, On 0) = Some r" by (simp add: standing_def shown_def)
  have "journal_value (list_journal rs) j name = journal_value (list_journal [r]) (False, On 0) name"
    if "CHR ''='' \<notin> set name" for name
    using standing_value [OF assms that] standing_value [OF one that] by simp
  with assms one show ?thesis by (simp add: current_entry_def entry_of_def Let_def list_journal_def)
qed

lemma entry_of_simps:
  "je_timestamp (entry_of r) = 1000 * uint (se_usec r)" "je_cursor (entry_of r) = se_cursor r"
  "je_audience (entry_of r) = ''user'' \<longleftrightarrow> map_of (se_fields r) ''MNC_LOG_AUDIENCE'' = Some ''user''"
proof -
  have one: "standing [r] (False, On 0) = Some r" by (simp add: standing_def shown_def)
  then show "je_timestamp (entry_of r) = 1000 * uint (se_usec r)" "je_cursor (entry_of r) = se_cursor r"
    by (simp_all add: entry_of_def current_entry_def Let_def list_journal_def)
  show "je_audience (entry_of r) = ''user'' \<longleftrightarrow> map_of (se_fields r) ''MNC_LOG_AUDIENCE'' = Some ''user''"
    using standing_value [OF one, of "''MNC_LOG_AUDIENCE''"]
    by (simp add: entry_of_def current_entry_def Let_def split: option.splits)
qed

lemma shown_user: "shown rs False = rs"
  "map entry_of (shown rs True) = filter (\<lambda>e. je_audience e = ''user'') (map entry_of rs)"
  by (simp_all add: shown_def filter_map o_def entry_of_simps)

lemma shown_seek:
  "length (takeWhile (\<lambda>r. se_usec r < t) rs) = length (takeWhile (\<lambda>e. je_timestamp e < 1000 * uint t) (map entry_of rs))"
  "i < length rs \<Longrightarrow> \<forall>k<i. se_cursor (rs ! k) \<noteq> se_cursor (rs ! i) \<Longrightarrow>
     length (takeWhile (\<lambda>r. se_cursor r \<noteq> se_cursor (rs ! i)) rs) = i"
  by (simp_all add: takeWhile_map o_def entry_of_simps word_less_alt takeWhile_eq_take_P_nth [of i])

lemma standing_On: "i < length (shown rs public) \<Longrightarrow> standing rs (public, On i) = Some (shown rs public ! i)"
  by (simp add: standing_def)

interpretation listed_journal: journal_library "list_journal rs" "map entry_of rs"
  "\<lambda>(public, p). map entry_of (shown rs public)" snd for rs
proof (unfold_locales, goal_cases)
  case (2 j)
  then show ?case by (cases j) (auto simp: list_journal_def shown_user intro!: exI [of _ True])
next
  case (12 j i)
  then show ?case by (cases j) (auto simp: standing_On intro!: current_standing)
qed (auto simp: list_journal_def shown_user shown_seek entry_of_simps standing_On split: if_splits)


section \<open>Properties\<close>


definition example_journal :: "stored_entry list" where
  "example_journal =
     [\<lparr>se_usec = 10, se_cursor = ''a'', se_fields = [(''MESSAGE'', ''first''), (''MNC_LOG_AUDIENCE'', ''user'')]\<rparr>,
      \<lparr>se_usec = 20, se_cursor = ''b'', se_fields = [(''MESSAGE'', ''second'')]\<rparr>,
      \<lparr>se_usec = 30, se_cursor = ''c'', se_fields = [(''MESSAGE'', ''third''), (''MNC_LOG_AUDIENCE'', ''user'')]\<rparr>]"


text \<open>
  C34: a client that continues after the last cursor of each page until a page is empty reads every
  matching entry exactly once and in order, whatever the size of the pages.
\<close>

theorem pagination_complete:
  assumes "distinct (map je_cursor es)" and "[] \<notin> je_cursor ` set es" and "qy_limit q \<noteq> 0"
    and "qy_after q = None" and "length es < n"
  shows "read_all n es q = filter (\<lambda>e. matches_query e q) (if qy_newest_first q then rev es else es)"
  using read_all_complete [OF assms(1-3), of n] assms(4,5)
  by (simp add: cursor_known_def cursor_of_def remaining_def ordered_def)

theorem pagination_complete_witness:
  "read_all 4 (map entry_of example_journal) (default_query\<lparr>qy_limit := 2, qy_newest_first := True\<rparr>) =
     rev (map entry_of example_journal)"
  using pagination_complete [of "map entry_of example_journal" "default_query\<lparr>qy_limit := 2, qy_newest_first := True\<rparr>" 4]
  by (simp add: example_journal_def entry_of_simps default_query_def matches_query_def listed_def)



end
