(* ===== verification/Journal_Records.thy ===== *)
theory Journal_Records
  imports Journal_Pages
begin

text \<open>
  From a log object to a reader: a public event is read back as it was written, and a developer's
  record never enters the public stream.
\<close>

section \<open>Records in the journal\<close>

text \<open>
  The journal stands on an entry with the fields of a record; of several fields of one name the
  library may return any. Names that begin with an underscore are the journal's own.
\<close>

definition holds_record :: "'j sd_journal \<Rightarrow> 'j \<Rightarrow> field list \<Rightarrow> bool" where
  "holds_record J j rec =
     (\<forall>name. name \<noteq> [] \<and> hd name \<noteq> CHR ''_'' \<longrightarrow>
        (case sd_get_data J name j of
           None \<Rightarrow> \<forall>f\<in>set rec. fd_name f \<noteq> name
         | Some d \<Rightarrow> \<exists>f\<in>set rec. fd_name f = name \<and> d = journal_field name (fd_value f)))"

lemma journal_value_record:
  assumes "holds_record J j rec" and "CHR ''='' \<notin> set name" and "name \<noteq> []" and "hd name \<noteq> CHR ''_''"
    and "\<forall>f\<in>set rec. fd_name f = name \<longrightarrow> fd_value f = v"
    and "(\<exists>f\<in>set rec. fd_name f = name) \<or> v = []"
  shows "journal_value J j name = v"
proof -
  have "case sd_get_data J name j of None \<Rightarrow> \<forall>f\<in>set rec. fd_name f \<noteq> name
      | Some d \<Rightarrow> \<exists>f\<in>set rec. fd_name f = name \<and> d = journal_field name (fd_value f)"
    using assms(1,3,4) unfolding holds_record_def by blast
  with assms(2,5,6) show ?thesis
    by (auto simp: journal_value_def journal_field_def find_char_append split: option.splits)
qed

section \<open>Changed fields\<close>

fun names_text :: "string list \<Rightarrow> string" where
  "names_text [] = []"
| "names_text [name] = quote # name @ [quote]"
| "names_text (name # names) = quote # name @ quote # CHR '','' # names_text names"

lemma names_text_Cons:
  "names_text (name # names) = quote # name @ quote # (if names = [] then [] else CHR '','' # names_text names)"
  by (cases names) simp_all

lemma changed_json_loop_text:
  "changed_json_loop acc names =
     acc @ (if names = [] then [] else if length acc > 1 then CHR '','' # names_text names else names_text names)"
proof (induction names arbitrary: acc)
  case (Cons name names)
  then show ?case by (auto simp: names_text_Cons)
qed simp

lemma changed_json_text: "changed_json names = CHR ''['' # names_text names @ '']''"
  by (simp add: changed_json_def changed_json_loop_text)

lemma identifier_no_quote: "is_identifier name \<Longrightarrow> quote \<notin> set name"
  by (auto simp: is_identifier_def list_all_iff identifier_char_def quote_def char_class)

lemma changed_fields_loop_text:
  assumes "list_all is_identifier names" and "length (result @ names) \<le> 64" and "names \<noteq> []"
  shows "changed_fields_loop result (names_text names) = result @ names"
  using assms
proof (induction names arbitrary: result)
  case (Cons name names)
  have name: "is_identifier name" using Cons.prems by simp
  then have found: "find_char quote (name @ quote # rest) = Some (length name)" for rest
    by (intro find_char_append identifier_no_quote)
  have ok: "length name \<noteq> 0" "length name \<le> 128" "list_all identifier_char name"
    using name by (auto simp: is_identifier_def)
  show ?case
  proof (cases names)
    case Nil
    with found [of "[]"] ok Cons.prems(2) show ?thesis by (subst changed_fields_loop.simps) auto
  next
    case (Cons next_name rest)
    have "names_text (name # names) = quote # name @ quote # CHR '','' # names_text names" using Cons by simp
    moreover have "starts_with (CHR '','' # names_text names) [CHR '','', quote]"
      by (simp add: Cons starts_with_def names_text_Cons)
    ultimately have "changed_fields_loop result (names_text (name # names)) = changed_fields_loop (result @ [name]) (names_text names)"
      using found ok Cons.prems(2) by (subst changed_fields_loop.simps) (simp add: Cons)
    with Cons.IH [of "result @ [name]"] Cons.prems Cons show ?thesis by simp
  qed
qed simp


lemma names_text_length: "list_all is_identifier names \<Longrightarrow> length (names_text names) \<le> 131 * length names"
proof (induction names)
  case (Cons name names)
  then have "length name \<le> 128" "length (names_text names) \<le> 131 * length names" by (auto simp: is_identifier_def)
  then show ?case by (auto simp: names_text_Cons)
qed simp

lemma names_text_ends:
  "names \<noteq> [] \<Longrightarrow> hd (names_text names) = quote \<and> last (names_text names) = quote \<and> names_text names \<noteq> []"
  by (induction names rule: names_text.induct) (auto simp: names_text_Cons)

text \<open>The array written for the changed fields of a valid event is read back.\<close>

lemma changed_fields_json:
  assumes "list_all is_identifier names" and "length names \<le> 64"
  shows "changed_fields (changed_json names) = names"
proof (cases "names = []")
  case True
  then show ?thesis by (simp add: changed_json_text changed_fields_def)
next
  case False
  let ?t = "names_text names"
  have t: "hd ?t = quote" "last ?t = quote" "?t \<noteq> []" using names_text_ends [OF False] by auto
  then obtain s where s: "?t = quote # s" by (cases ?t) auto
  have "ends_with (u @ [quote, CHR '']'']) [quote, CHR '']'']" for u by (simp add: ends_with_def)
  from this [of "CHR ''['' # butlast ?t"] have "ends_with (CHR ''['' # ?t @ '']'') [quote, CHR '']'']"
    using append_butlast_last_id [OF t(3)] t(2) by (metis append.assoc append_Cons append_Nil)
  moreover have "starts_with (CHR ''['' # ?t @ '']'') [CHR ''['', quote]" by (simp add: s starts_with_def)
  moreover have "length (CHR ''['' # ?t @ '']'') \<le> 64 * 132"
    using names_text_length [OF assms(1)] assms(2) by simp
  moreover have "CHR ''['' # ?t @ '']'' \<noteq> ''[]''" using t(3) by auto
  moreover have "changed_fields_loop [] ?t = names" using changed_fields_loop_text [OF assms(1) _ False, of "[]"] assms(2) by simp
  ultimately show ?thesis
    unfolding changed_json_text changed_fields_def by (simp add: butlast_append not_less)
qed

section \<open>Priorities\<close>

lemma read_priority_index: "read_priority (to_string (priority_index p)) = p"
proof -
  have "from_chars_unsigned 10 (to_string (priority_index p)) = Some (priority_index p, [])"
    using to_string_nonempty(1) [of "priority_index p"]
    by (cases p) (simp_all add: from_chars_unsigned_def scan_to_string)
  then show ?thesis by (cases p) (simp_all add: read_priority_def priorities_def)
qed

section \<open>Fields of a record\<close>

text \<open>The name of a generated field is a valid one of its own.\<close>

lemmas field_names = valid_field_name_def reserved_def starts_with_def char_class

lemma emit_core:
  assumes "f \<in> set (emit lb p message event extra source)" and "reserved (fd_name f)" and "lb_audience lb = developer"
  shows "f \<in> set (emit lb p message event [] source)"
  using assms by (auto simp: emit_def)


definition public_fields :: "user_event \<Rightarrow> field list" where
  "public_fields ev =
     [\<lparr>fd_name = ''MNC_EVENT_CATEGORY'', fd_value = ue_category ev\<rparr>,
      \<lparr>fd_name = ''MNC_ACTOR'', fd_value = ue_actor ev\<rparr>,
      \<lparr>fd_name = ''MNC_ACTION'', fd_value = ue_action ev\<rparr>,
      \<lparr>fd_name = ''MNC_OUTCOME'', fd_value = ue_outcome ev\<rparr>,
      \<lparr>fd_name = ''MNC_SUBJECT'', fd_value = ue_subject ev\<rparr>,
      \<lparr>fd_name = ''MNC_CHANGED_FIELDS'', fd_value = changed_json (ue_changed_fields ev)\<rparr>,
      \<lparr>fd_name = ''MNC_REQUEST_ID'', fd_value = ue_request_id ev\<rparr>]"

lemma user_record_fields:
  assumes "user_record lb p ev = Some rec" and "lb_audience lb = user"
  shows "valid_user_event ev" and "rec = emit lb p (ue_message ev) (ue_code ev) [] None @ public_fields ev"
  using assms by (auto simp: user_record_def public_fields_def emit_def field_names split: if_splits)

lemma user_record_value:
  assumes "user_record lb p ev = Some rec" and "lb_audience lb = user" and "holds_record J j rec"
    and "CHR ''='' \<notin> set name" and "name \<noteq> []" and "hd name \<noteq> CHR ''_''"
    and "\<forall>f\<in>set (emit lb p (ue_message ev) (ue_code ev) [] None @ public_fields ev). fd_name f = name \<longrightarrow> fd_value f = v"
    and "(\<exists>f\<in>set (emit lb p (ue_message ev) (ue_code ev) [] None @ public_fields ev). fd_name f = name) \<or> v = []"
  shows "journal_value J j name = v"
  using journal_value_record [OF assms(3-6)] assms(7,8) user_record_fields(2) [OF assms(1,2)] by simp

text \<open>
  C32: an event written to the public log is read back from the journal with its message, priority,
  component, module, code, category, actor, action, outcome, subject, request and the names of the
  changed fields, as a public entry without a source location.
\<close>

theorem user_event_read_back:
  assumes "user_record lb p ev = Some rec" and "lb_audience lb = user" and "holds_record J j rec"
  shows "let e = current_entry J j in
    je_message e = ue_message ev \<and> je_priority e = p \<and> je_component e = lb_component lb \<and> je_module e = lb_module lb \<and>
    je_event e = ue_code ev \<and> je_audience e = ''user'' \<and> je_category e = ue_category ev \<and> je_actor e = ue_actor ev \<and>
    je_action e = ue_action ev \<and> je_outcome e = ue_outcome ev \<and> je_subject e = ue_subject ev \<and>
    je_changed_fields e = ue_changed_fields ev \<and> je_request_id e = ue_request_id ev \<and>
    je_source_file e = [] \<and> je_source_line e = [] \<and> je_source_function e = []"
proof -
  note v = user_record_value [OF assms]
  have changed: "changed_fields (changed_json (ue_changed_fields ev)) = ue_changed_fields ev"
    using user_record_fields(1) [OF assms(1,2)] by (intro changed_fields_json) (simp_all add: valid_user_event_def)
  have "journal_value J j ''MESSAGE'' = ue_message ev" by (rule v) (auto simp: emit_def public_fields_def)
  moreover have "journal_value J j ''PRIORITY'' = to_string (priority_index p)" by (rule v) (auto simp: emit_def public_fields_def)
  moreover have "journal_value J j ''MNC_COMPONENT'' = lb_component lb" by (rule v) (auto simp: emit_def public_fields_def)
  moreover have "journal_value J j ''MNC_MODULE'' = lb_module lb" by (rule v) (auto simp: emit_def public_fields_def)
  moreover have "journal_value J j ''MNC_EVENT'' = ue_code ev" by (rule v) (auto simp: emit_def public_fields_def)
  moreover have "journal_value J j ''MNC_LOG_AUDIENCE'' = ''user''" by (rule v) (use assms(2) in \<open>auto simp: emit_def public_fields_def\<close>)
  moreover have "journal_value J j ''MNC_EVENT_CATEGORY'' = ue_category ev" by (rule v) (auto simp: emit_def public_fields_def)
  moreover have "journal_value J j ''MNC_ACTOR'' = ue_actor ev" by (rule v) (auto simp: emit_def public_fields_def)
  moreover have "journal_value J j ''MNC_ACTION'' = ue_action ev" by (rule v) (auto simp: emit_def public_fields_def)
  moreover have "journal_value J j ''MNC_OUTCOME'' = ue_outcome ev" by (rule v) (auto simp: emit_def public_fields_def)
  moreover have "journal_value J j ''MNC_SUBJECT'' = ue_subject ev" by (rule v) (auto simp: emit_def public_fields_def)
  moreover have "journal_value J j ''MNC_CHANGED_FIELDS'' = changed_json (ue_changed_fields ev)"
    by (rule v) (auto simp: emit_def public_fields_def)
  moreover have "journal_value J j ''MNC_REQUEST_ID'' = ue_request_id ev" by (rule v) (auto simp: emit_def public_fields_def)
  moreover have "journal_value J j ''CODE_FILE'' = []" "journal_value J j ''CODE_LINE'' = []" "journal_value J j ''CODE_FUNC'' = []"
    by (rule v; auto simp: emit_def public_fields_def)+
  ultimately show ?thesis by (simp add: current_entry_def Let_def changed read_priority_index)
qed


definition example_event :: user_event where
  "example_event =
     \<lparr>ue_code = ''settings_changed'', ue_category = ''settings'', ue_message = ''Settings were changed'',
      ue_actor = ''admin'', ue_action = ''apply'', ue_outcome = ''success'', ue_subject = ''system'',
      ue_changed_fields = [''hostname'', ''timezone''], ue_request_id = ''r1''\<rparr>"

definition example_log :: log_base where
  "example_log = \<lparr>lb_component = ''system'', lb_module = [], lb_audience = user\<rparr>"

text \<open>The journal of one entry, as the record was sent.\<close>

definition journal_of :: "field list \<Rightarrow> list_position sd_journal" where
  "journal_of rec = list_journal [\<lparr>se_usec = 7, se_cursor = ''x'', se_fields = map (\<lambda>f. (fd_name f, fd_value f)) rec\<rparr>]"

lemma map_of_fields:
  "map_of (map (\<lambda>f. (fd_name f, fd_value f)) rec) name = None \<longleftrightarrow> (\<forall>f\<in>set rec. fd_name f \<noteq> name)"
  "map_of (map (\<lambda>f. (fd_name f, fd_value f)) rec) name = Some v \<Longrightarrow> \<exists>f\<in>set rec. fd_name f = name \<and> v = fd_value f"
  by (auto simp: map_of_eq_None_iff image_image dest!: map_of_SomeD)

lemma holds_record_journal_of: "holds_record (journal_of rec) (False, On 0) rec"
  unfolding holds_record_def journal_of_def
  by (auto simp: list_journal_def standing_def shown_def map_of_fields split: option.split dest!: map_of_fields(2))

theorem user_event_read_back_witness:
  "\<exists>rec. user_record example_log notice example_event = Some rec \<and>
     je_changed_fields (current_entry (journal_of rec) (False, On 0)) = [''hostname'', ''timezone''] \<and>
     je_audience (current_entry (journal_of rec) (False, On 0)) = ''user''"
proof -
  have "valid_user_event example_event"
    by (simp add: valid_user_event_def example_event_def is_identifier_def identifier_char_def safe_text_def
        categories_def char_class)
  then obtain rec where rec: "user_record example_log notice example_event = Some rec"
    by (simp add: user_record_def)
  from user_event_read_back [OF this _ holds_record_journal_of]
  have "je_changed_fields (current_entry (journal_of rec) (False, On 0)) = ue_changed_fields example_event"
    "je_audience (current_entry (journal_of rec) (False, On 0)) = ''user''"
    by (simp_all add: example_log_def Let_def)
  with rec show ?thesis by (auto simp: example_event_def)
qed


lemma developer_value:
  assumes "lb_audience lb = developer" and "holds_record J j (developer_record lb p message ev extra source)"
    and "reserved name" and "CHR ''='' \<notin> set name" and "name \<noteq> []" and "hd name \<noteq> CHR ''_''"
    and "\<forall>f\<in>set (emit lb p message ev [] (Some source)). fd_name f = name \<longrightarrow> fd_value f = v"
    and "(\<exists>f\<in>set (emit lb p message ev [] (Some source)). fd_name f = name) \<or> v = []"
  shows "journal_value J j name = v"
proof (rule journal_value_record [OF assms(2,4-6)])
  show "\<forall>f\<in>set (developer_record lb p message ev extra source). fd_name f = name \<longrightarrow> fd_value f = v"
    using emit_core [of _ lb p message ev extra "Some source"] assms(1,3,7) by (auto simp: developer_record_def)
  show "(\<exists>f\<in>set (developer_record lb p message ev extra source). fd_name f = name) \<or> v = []"
    using assms(8) by (auto simp: developer_record_def emit_def)
qed

lemmas developer_fields = emit_def reserved_def starts_with_def

text \<open>
  C33: whatever extra fields a developer's record carries, the entry read back is a developer entry
  with the message, priority, component, module, event and source location of the call, and without
  any category, actor, action, outcome, subject or changed fields; no query of the public stream
  returns it.
\<close>

theorem developer_record_private:
  assumes "lb_audience lb = developer" and "holds_record J j (developer_record lb p message ev extra source)"
  shows "let e = current_entry J j in
    je_audience e = ''developer'' \<and> (qy_audience q = Some ''user'' \<longrightarrow> \<not> matches_query e q) \<and>
    je_message e = message \<and> je_priority e = p \<and> je_component e = lb_component lb \<and> je_module e = lb_module lb \<and>
    je_event e = ev \<and> je_source_file e = sl_file_name source \<and> je_source_line e = to_string (unat (sl_line source)) \<and>
    je_source_function e = sl_function_name source \<and> je_category e = [] \<and> je_actor e = [] \<and> je_action e = [] \<and>
    je_outcome e = [] \<and> je_subject e = [] \<and> je_changed_fields e = []"
proof -
  note v = developer_value [OF assms]
  have none: "changed_fields [] = []" by (simp add: changed_fields_def starts_with_def)
  have "journal_value J j ''MESSAGE'' = message" by (rule v) (auto simp: developer_fields)
  moreover have "journal_value J j ''PRIORITY'' = to_string (priority_index p)" by (rule v) (auto simp: developer_fields)
  moreover have "journal_value J j ''MNC_COMPONENT'' = lb_component lb" by (rule v) (auto simp: developer_fields)
  moreover have "journal_value J j ''MNC_MODULE'' = lb_module lb" by (rule v) (auto simp: developer_fields)
  moreover have "journal_value J j ''MNC_EVENT'' = ev" by (rule v) (auto simp: developer_fields)
  moreover have "journal_value J j ''MNC_LOG_AUDIENCE'' = ''developer''" by (rule v) (use assms(1) in \<open>auto simp: developer_fields\<close>)
  moreover have "journal_value J j ''CODE_FILE'' = sl_file_name source" by (rule v) (auto simp: developer_fields)
  moreover have "journal_value J j ''CODE_LINE'' = to_string (unat (sl_line source))" by (rule v) (auto simp: developer_fields)
  moreover have "journal_value J j ''CODE_FUNC'' = sl_function_name source" by (rule v) (auto simp: developer_fields)
  moreover have "journal_value J j ''MNC_EVENT_CATEGORY'' = []" "journal_value J j ''MNC_ACTOR'' = []"
    "journal_value J j ''MNC_ACTION'' = []" "journal_value J j ''MNC_OUTCOME'' = []" "journal_value J j ''MNC_SUBJECT'' = []"
    "journal_value J j ''MNC_CHANGED_FIELDS'' = []"
    by (rule v; auto simp: developer_fields)+
  ultimately show ?thesis by (simp add: current_entry_def Let_def none read_priority_index matches_query_def)
qed

theorem developer_record_private_witness:
  "let extra = [\<lparr>fd_name = ''MNC_LOG_AUDIENCE'', fd_value = ''user''\<rparr>];
       rec = developer_record (example_log\<lparr>lb_audience := developer\<rparr>) warning ''probe'' [] extra \<lparr>sl_file_name = ''a.cpp'', sl_line = 3, sl_function_name = ''f''\<rparr>
   in je_audience (current_entry (journal_of rec) (False, On 0)) = ''developer''"
  using developer_record_private [OF _ holds_record_journal_of, of "example_log\<lparr>lb_audience := developer\<rparr>"]
  by (simp add: Let_def)

end
