(* ===== verification/Journal_Json.thy ===== *)
theory Journal_Json
  imports Journal_Reader
begin

text \<open>
  The JSON text of a journal entry (\<open>entry_to_json\<close>) against the grammar of JSON: a reader of
  objects whose values are numbers, strings and arrays of strings.
\<close>

section \<open>Reading JSON\<close>

datatype json = Number int | Text string | Texts "string list"

text \<open>A string after its opening quotation mark, and what follows the closing one.\<close>

definition escapes :: "(char \<times> char) list" where
  "escapes =
     [(quote, quote), (backslash, backslash), (CHR ''/'', CHR ''/''), (CHR ''b'', CHR 0x08), (CHR ''f'', CHR 0x0C),
      (CHR ''n'', CHR 0x0A), (CHR ''r'', CHR 0x0D), (CHR ''t'', CHR 0x09)]"

definition code_point :: "string \<Rightarrow> char option" where
  "code_point s =
     (case scan_digits 16 0 s of (v, rest) \<Rightarrow> if rest = [] \<and> v < 128 then Some (char_of v) else None)"

function json_string :: "string \<Rightarrow> (string \<times> string) option" where
  "json_string [] = None"
| "json_string (c # cs) =
     (if c = quote then Some ([], cs)
      else if c = backslash then
        (if cs = [] then None
         else if hd cs = CHR ''u'' then
           (case code_point (take 4 (tl cs)) of
              None \<Rightarrow> None
            | Some x \<Rightarrow> map_option (\<lambda>(s, rest). (x # s, rest)) (json_string (drop 4 (tl cs))))
         else (case map_of escapes (hd cs) of
              None \<Rightarrow> None
            | Some x \<Rightarrow> map_option (\<lambda>(s, rest). (x # s, rest)) (json_string (tl cs))))
      else if ord c < 0x20 then None
      else map_option (\<lambda>(s, rest). (c # s, rest)) (json_string cs))"
  by pat_completeness auto
termination by (relation "measure length") auto

declare json_string.simps(2) [simp del]

definition json_int :: "string \<Rightarrow> (int \<times> string) option" where
  "json_int s =
     (let t = (if s \<noteq> [] \<and> hd s = CHR ''-'' then tl s else s)
      in case scan_digits 10 0 t of (v, rest) \<Rightarrow>
           if rest = t then None else Some (if t = s then int v else - int v, rest))"

text \<open>The items of an array after its bracket, and the members of an object; \<open>n\<close> bounds their number.\<close>

fun json_items :: "nat \<Rightarrow> string \<Rightarrow> (string list \<times> string) option" where
  "json_items 0 s = None"
| "json_items (Suc n) s =
     (case s of
        c # cs \<Rightarrow>
          if c \<noteq> quote then None
          else Option.bind (json_string cs) (\<lambda>(item, rest).
            case rest of
              d # ds \<Rightarrow>
                if d = CHR '']'' then Some ([item], ds)
                else if d = CHR '','' then map_option (\<lambda>(items, r). (item # items, r)) (json_items n ds)
                else None
            | [] \<Rightarrow> None)
      | [] \<Rightarrow> None)"

definition json_value :: "string \<Rightarrow> (json \<times> string) option" where
  "json_value s =
     (case s of
        [] \<Rightarrow> None
      | c # cs \<Rightarrow>
          if c = quote then map_option (\<lambda>(t, rest). (Text t, rest)) (json_string cs)
          else if c = CHR ''['' then
            (if cs \<noteq> [] \<and> hd cs = CHR '']'' then Some (Texts [], tl cs)
             else map_option (\<lambda>(ts, rest). (Texts ts, rest)) (json_items (length cs) cs))
          else map_option (\<lambda>(i, rest). (Number i, rest)) (json_int s))"

definition json_member :: "string \<Rightarrow> ((string \<times> json) \<times> string) option" where
  "json_member s =
     (case s of
        [] \<Rightarrow> None
      | c # cs \<Rightarrow>
          if c \<noteq> quote then None
          else Option.bind (json_string cs) (\<lambda>(key, rest).
            if rest \<noteq> [] \<and> hd rest = CHR '':'' then map_option (\<lambda>(v, r). ((key, v), r)) (json_value (tl rest)) else None))"

fun json_members :: "nat \<Rightarrow> string \<Rightarrow> ((string \<times> json) list \<times> string) option" where
  "json_members 0 s = None"
| "json_members (Suc n) s =
     Option.bind (json_member s) (\<lambda>(kv, rest).
       case rest of
         d # ds \<Rightarrow>
           if d = CHR ''}'' then Some ([kv], ds)
           else if d = CHR '','' then map_option (\<lambda>(kvs, r). (kv # kvs, r)) (json_members n ds)
           else None
       | [] \<Rightarrow> None)"

definition json_object :: "string \<Rightarrow> (string \<times> json) list option" where
  "json_object s =
     (case s of
        [] \<Rightarrow> None
      | c # cs \<Rightarrow>
          if c \<noteq> CHR ''{'' then None
          else (case json_members (length cs) cs of Some (ms, []) \<Rightarrow> Some ms | _ \<Rightarrow> None))"

section \<open>Strings\<close>

lemma digit_of_hex: "n < 16 \<Longrightarrow> digit_of 16 (hex_char_of n) = Some n"
  by (auto simp: digit_of_def hex_char_of_def char_class of_char_of)

lemma code_point_escape: "n < 32 \<Longrightarrow> code_point [CHR ''0'', CHR ''0'', hex_char_of (n div 16), hex_char_of (n mod 16)] = Some (char_of n)"
proof -
  assume "n < 32"
  moreover have "digit_of 16 (CHR ''0'') = Some 0" by (simp add: digit_of_def char_class)
  moreover have "n div 16 < 16" "n mod 16 < 16" using \<open>n < 32\<close> by auto
  ultimately show ?thesis
    using digit_of_hex [of "n div 16"] digit_of_hex [of "n mod 16"] by (simp add: code_point_def)
qed

lemma char_of_eq: "ord c = n \<Longrightarrow> c = char_of n"
  by auto

lemma control_chars:
  "char_of (8 :: nat) = CHR 0x08" "char_of (12 :: nat) = CHR 0x0C" "char_of (10 :: nat) = CHR 0x0A"
  "char_of (13 :: nat) = CHR 0x0D" "char_of (9 :: nat) = CHR 0x09"
  by code_simp+

lemma json_string_escape:
  "json_string (escape_char c @ rest) = map_option (\<lambda>(s, r). (c # s, r)) (json_string rest)"
proof -
  have marks: "quote \<noteq> backslash" "CHR ''u'' \<noteq> quote" "backslash \<noteq> CHR ''u''" "\<not> ord quote < 0x20" "\<not> ord backslash < 0x20"
    by (simp_all add: quote_def backslash_def)
  consider "c = quote" | "c = backslash" | "ord c = 8" | "ord c = 12" | "ord c = 10" | "ord c = 13" | "ord c = 9"
    | "c \<noteq> quote" "c \<noteq> backslash" "ord c \<notin> {8, 12, 10, 13, 9}" by auto
  then show ?thesis
  proof cases
    case 8
    show ?thesis
    proof (cases "ord c < 0x20")
      case True
      with code_point_escape [of "ord c"] have
        "code_point [CHR ''0'', CHR ''0'', hex_char_of (ord c div 16), hex_char_of (ord c mod 16)] = Some c" by simp
      with 8 True marks show ?thesis by (simp add: escape_char_def unicode_escape_def json_string.simps(2))
    next
      case False
      with 8 show ?thesis by (simp add: escape_char_def json_string.simps(2))
    qed
  qed (use marks in \<open>auto simp: escape_char_def json_string.simps(2) escapes_def quote_def backslash_def control_chars dest!: char_of_eq\<close>)
qed

lemma json_string_scan: "json_string (json_escape s @ quote # rest) = Some (s, rest)"
  by (induction s) (simp_all add: json_escape_def json_string_escape json_string.simps(2))


section \<open>Values\<close>

text \<open>A value and an object, printed.\<close>

fun print_json :: "json \<Rightarrow> string" where
  "print_json (Number i) = print_int i"
| "print_json (Text s) = quoted (json_escape s)"
| "print_json (Texts ts) = ''['' @ print_names 0 ts @ '']''"

definition print_member :: "string \<times> json \<Rightarrow> string" where
  "print_member kv = quoted (json_escape (fst kv)) @ '':'' @ print_json (snd kv)"

fun print_members :: "(string \<times> json) list \<Rightarrow> string" where
  "print_members [] = []"
| "print_members [kv] = print_member kv"
| "print_members (kv # kvs) = print_member kv @ '','' @ print_members kvs"

lemma print_members_Cons:
  "print_members (kv # kvs) = print_member kv @ (if kvs = [] then [] else '','' @ print_members kvs)"
  by (cases kvs) simp_all

lemma print_names_pos: "0 < n \<Longrightarrow> 0 < m \<Longrightarrow> print_names n ns = print_names m ns"
  by (induction ns arbitrary: n m) (simp, metis print_names.simps(2) zero_less_Suc)

lemma print_names_next: "0 < n \<Longrightarrow> print_names n (name # ns) = CHR '','' # print_names 0 (name # ns)"
  using print_names_pos [of "Suc n" 1 ns] by simp

lemma print_names_items:
  "ns \<noteq> [] \<Longrightarrow> length ns \<le> n \<Longrightarrow> json_items n (print_names 0 ns @ CHR '']'' # rest) = Some (ns, rest)"
proof (induction ns arbitrary: n)
  case (Cons name ns)
  then obtain m where n: "n = Suc m" by (cases n) auto
  have mark: "CHR '']'' \<noteq> quote" "CHR '','' \<noteq> quote" by (simp_all add: quote_def)
  show ?case
  proof (cases ns)
    case Nil
    with n json_string_scan [of name "CHR '']'' # rest"] show ?thesis by (simp add: quoted_def)
  next
    case (Cons name' ns')
    have "print_names 0 (name # ns) = quote # json_escape name @ quote # CHR '','' # print_names 0 ns"
      using print_names_next [of 1 name' ns'] unfolding Cons by (simp add: quoted_def)
    moreover have "json_items m (print_names 0 ns @ CHR '']'' # rest) = Some (ns, rest)"
    proof (rule Cons.IH)
      show "ns \<noteq> []" using Cons by simp
      show "length ns \<le> m" using Cons.prems(2) n by simp
    qed
    ultimately show ?thesis
      using json_string_scan [of name "CHR '','' # print_names 0 ns @ CHR '']'' # rest"] n by simp
  qed
qed simp

text \<open>What may follow a value.\<close>

definition closes :: "string \<Rightarrow> bool" where
  "closes rest = (rest \<noteq> [] \<and> hd rest \<in> {CHR '','', CHR ''}''})"

lemma scan_number: "closes rest \<Longrightarrow> scan_digits 10 0 (to_string n @ rest) = (n, rest)"
proof -
  assume "closes rest"
  then obtain c cs where rest: "rest = c # cs" "digit_of 10 c = None"
    by (cases rest) (auto simp: closes_def digit_of_def char_class)
  have "\<forall>c\<in>set (to_string n). isdigit c" using to_string_digits by blast
  from scan_digits_append [OF this, of 0 rest] show ?thesis by (simp add: scan_to_string rest)
qed

lemma json_int_print: "closes rest \<Longrightarrow> json_int (print_int i @ rest) = Some (i, rest)"
proof -
  assume rest: "closes rest"
  have digit: "hd (to_string n @ rest) \<noteq> CHR ''-''" for n
  proof -
    have "isdigit (hd (to_string n))" by (intro to_string_digits [of _ n] hd_in_set) simp
    then show ?thesis by (auto simp: char_class)
  qed
  have more: "rest \<noteq> to_string n @ rest" for n by simp
  show ?thesis
    using scan_number [OF rest, of "nat i"] scan_number [OF rest, of "nat (- i)"] digit [of "nat i"] more
    by (auto simp: json_int_def print_int_def Let_def)
qed


lemma json_value_print:
  assumes "closes rest"
  shows "json_value (print_json v @ rest) = Some (v, rest)"
proof (cases v)
  case (Number i)
  let ?s = "print_int i @ rest"
  have digit: "isdigit (hd (to_string n))" for n by (intro to_string_digits [of _ n] hd_in_set) simp
  have marks: "\<not> isdigit quote" "\<not> isdigit (CHR ''['')" "quote \<noteq> CHR ''-''" by (simp_all add: quote_def isdigit_def)
  have "hd ?s = CHR ''-'' \<or> isdigit (hd ?s)" by (auto simp: print_int_def digit)
  then have "hd ?s \<noteq> quote" "hd ?s \<noteq> CHR ''[''" using marks by auto
  moreover have "?s \<noteq> []" by (simp add: print_int_def)
  ultimately show ?thesis
    using Number json_int_print [OF assms, of i] by (cases ?s) (simp_all add: json_value_def)
next
  case (Text t)
  with json_string_scan [of t rest] show ?thesis by (simp add: json_value_def quoted_def)
next
  case (Texts ts)
  show ?thesis
  proof (cases ts)
    case Nil
    with Texts show ?thesis by (simp add: json_value_def quote_def)
  next
    case (Cons t ts')
    have "length (print_names n ts) \<ge> length ts" for n
    proof (induction ts arbitrary: n)
      case (Cons t ts)
      from Cons.IH [of "Suc n"] show ?case by (simp add: quoted_def)
    qed simp
    from this [of 0] have "length ts \<le> length (print_names 0 ts @ CHR '']'' # rest)" by simp
    from print_names_items [OF _ this] Cons have
      "json_items (length (print_names 0 ts @ CHR '']'' # rest)) (print_names 0 ts @ CHR '']'' # rest) = Some (ts, rest)"
      by simp
    moreover have "hd (print_names 0 ts) = quote" "print_names 0 ts \<noteq> []" by (simp_all add: Cons quoted_def)
    ultimately show ?thesis
      unfolding Texts by (simp add: json_value_def quote_def)
  qed
qed

lemma json_member_print:
  "closes rest \<Longrightarrow> json_member (print_member kv @ rest) = Some (kv, rest)"
  using json_string_scan [of "fst kv" "CHR '':'' # print_json (snd kv) @ rest"] json_value_print [of rest "snd kv"]
  by (simp add: json_member_def print_member_def quoted_def)

lemma json_members_print:
  "kvs \<noteq> [] \<Longrightarrow> length kvs \<le> n \<Longrightarrow> json_members n (print_members kvs @ CHR ''}'' # rest) = Some (kvs, rest)"
proof (induction kvs arbitrary: n)
  case (Cons kv kvs)
  then obtain m where n: "n = Suc m" by (cases n) auto
  show ?case
  proof (cases "kvs = []")
    case True
    with n json_member_print [of "CHR ''}'' # rest" kv] show ?thesis by (simp add: closes_def)
  next
    case False
    with Cons.IH [of m] Cons.prems n json_member_print [of "CHR '','' # print_members kvs @ CHR ''}'' # rest" kv]
    show ?thesis by (simp add: print_members_Cons closes_def)
  qed
qed simp

section \<open>Entries\<close>

definition entry_members :: "entry \<Rightarrow> (string \<times> json) list" where
  "entry_members e =
     [(''timestamp_usec'', Number (microseconds (je_timestamp e))),
      (''cursor'', Text (je_cursor e)),
      (''priority'', Text (priority_name (je_priority e))),
      (''message'', Text (je_message e)),
      (''component'', Text (je_component e)),
      (''module'', Text (je_module e)),
      (''event'', Text (je_event e)),
      (''request_id'', Text (je_request_id e)),
      (''configuration_generation'', Text (je_configuration_generation e)),
      (''unit'', Text (je_unit e)),
      (''executable'', Text (je_executable e)),
      (''source_file'', Text (je_source_file e)),
      (''source_line'', Text (je_source_line e)),
      (''source_function'', Text (je_source_function e)),
      (''audience'', Text (je_audience e)),
      (''category'', Text (je_category e)),
      (''actor'', Text (je_actor e)),
      (''action'', Text (je_action e)),
      (''outcome'', Text (je_outcome e)),
      (''subject'', Text (je_subject e)),
      (''changed_fields'', Texts (je_changed_fields e))]"

lemma escape_plain: "list_all (\<lambda>c. c \<noteq> quote \<and> c \<noteq> backslash \<and> 32 \<le> ord c) s \<Longrightarrow> json_escape s = s"
  by (induction s) (auto simp: json_escape_def escape_char_def)

lemma entry_to_json_members: "entry_to_json e = ''{'' @ print_members (entry_members e) @ ''}''"
proof -
  have keys: "json_escape k = k" if "k \<in> set (map fst (entry_members e))" for k
    using that by (intro escape_plain) (auto simp: entry_members_def quote_def backslash_def)
  have priority: "json_escape (priority_name p) = priority_name p" for p
    by (cases p; intro escape_plain; simp add: priority_name_def priority_names_def quote_def backslash_def)
  show ?thesis
    using keys priority
    by (simp add: entry_to_json_def entry_members_def print_member_def text_field_def quoted_def)
qed

text \<open>
  C35: the JSON text of an entry is one object whose members are exactly the fields of the entry in
  order, whatever bytes the fields contain: no value can end its string, add a member or leave the
  object.
\<close>

theorem entry_json_exact:
  "json_object (entry_to_json e) = Some (entry_members e)"
proof -
  have "length kvs \<le> length (print_members kvs)" for kvs
    by (induction kvs) (auto simp: print_members_Cons print_member_def quoted_def)
  from this [of "entry_members e"] have "length (entry_members e) \<le> length (print_members (entry_members e) @ ''}'')" by simp
  moreover have "entry_members e \<noteq> []" by (simp add: entry_members_def)
  ultimately show ?thesis
    using json_members_print [of "entry_members e" _ "[]"]
    unfolding entry_to_json_members json_object_def by (simp del: json_members.simps)
qed

end
