(* ===== verification/Native_Bus.thy ===== *)
theory Native_Bus
  imports Clock_Files
begin

text \<open>
  The native platform's use of the system bus (backend.cpp): opening it, calls and properties with
  their errors, and starting and stopping a unit until it has settled. The bus, the clock and the
  rest of the operating system are parameters; the calls made and the unit states seen are recorded
  in a trace.
\<close>

section \<open>The machine\<close>

datatype bus_arg = Arg_s string | Arg_b bool | Arg_i int

datatype bus_value = Nothing | Object string | Text_value string | Names "string list"

datatype platform_event =
    Call string string "bus_arg list"
  | Seen string string

text \<open>
  A monotonic clock in milliseconds, the trace, and the state of the operating system. The file
  system is beside it in the daemon's world.
\<close>

record 'b machine =
  mc_steady :: nat
  mc_trace :: "platform_event list"
  mc_os :: 'b

type_synonym 'b host = "'b machine world"

text \<open>What \<open>networkctl\<close>'s description of a link decodes to.\<close>

record address_info =
  ai_Family :: int
  ai_Address :: "8 word list"
  ai_PrefixLength :: "32 word"
  ai_ConfigSource :: string

record route_info =
  ri_Family :: int
  ri_Gateway :: "8 word list"
  ri_DestinationPrefixLength :: "32 word"
  ri_ConfigSource :: string

record dns_info =
  di_Family :: int
  di_Address :: "8 word list"
  di_ConfigSource :: string

record link_info =
  li_NetworkFile :: string
  li_NetworkFileDropins :: "string list"
  li_Addresses :: "address_info list"
  li_Routes :: "route_info list"
  li_DNS :: "dns_info list"
  li_CarrierState :: string

text \<open>
  The operating system. A bus call has a destination, a path, an interface, a method and arguments; a
  failure is a negative error number with an optional message.
\<close>

record 'b os =
  os_open_system :: "'b \<Rightarrow> bool \<times> 'b"
  os_call :: "string \<Rightarrow> string \<Rightarrow> string \<Rightarrow> string \<Rightarrow> bus_arg list \<Rightarrow> 'b \<Rightarrow> ((int \<times> string option) + bus_value) \<times> 'b"
  os_property :: "string \<Rightarrow> string \<Rightarrow> string \<Rightarrow> string \<Rightarrow> 'b \<Rightarrow> ((int \<times> string option) + string option) \<times> 'b"
  os_strerror :: "int \<Rightarrow> string"
  os_elapsed :: "'b \<Rightarrow> nat \<times> 'b"
  os_nametoindex :: "string \<Rightarrow> 'b \<Rightarrow> nat"
  os_of_node :: "string \<Rightarrow> 'b \<Rightarrow> string option"
  os_read_link :: "string \<Rightarrow> link_info option"
  os_ntop6 :: "8 word list \<Rightarrow> string"
  os_sethostname :: "string \<Rightarrow> 'b \<Rightarrow> bool \<times> 'b"
  os_is_regular :: "string \<Rightarrow> 'b \<Rightarrow> bool"
  os_net_entries :: "'b \<Rightarrow> net_entry list"
  os_socket_opens :: "'b \<Rightarrow> bool"
  os_ts_info :: "string \<Rightarrow> 'b \<Rightarrow> (int \<times> 32 word) option"
  os_uname :: "'b \<Rightarrow> string option"
  os_realtime :: "'b \<Rightarrow> (int \<times> int) option"
  os_gmtoff :: "int \<Rightarrow> 'b \<Rightarrow> int"
  os_strftime :: "bool \<Rightarrow> int \<Rightarrow> 'b \<Rightarrow> string"
  os_hwmon :: "'b \<Rightarrow> (string \<times> string list option) list option"
  os_zone_table :: "'b \<Rightarrow> string"
  os_zone_info :: "string \<Rightarrow> int \<Rightarrow> 'b \<Rightarrow> (int \<times> string) option"
  os_system_clock :: "'b \<Rightarrow> int"

definition on_os :: "('b \<Rightarrow> 'a \<times> 'b) \<Rightarrow> ('b host, 'a) io" where
  "on_os f = on_platform (\<lambda>m. case f (mc_os m) of (x, b) \<Rightarrow> (Inr x, m\<lparr>mc_os := b\<rparr>))"

definition ask_os :: "('b \<Rightarrow> 'a) \<Rightarrow> ('b host, 'a) io" where
  "ask_os f = gets (\<lambda>w. f (mc_os (wd_platform w)))"

definition note_event :: "platform_event \<Rightarrow> ('b host, unit) io" where
  "note_event e = on_platform (modify (\<lambda>m. m\<lparr>mc_trace := mc_trace m @ [e]\<rparr>))"

section \<open>Bus calls\<close>

definition open_bus :: "'b os \<Rightarrow> ('b host, unit) io" where
  "open_bus O' = bind (on_os (os_open_system O')) (\<lambda>ok. guard ok (Error unavailable ''system bus unavailable''))"

definition EACCES' :: int where "EACCES' = 13"

definition ETIMEDOUT' :: int where "ETIMEDOUT' = 110"

definition checked :: "'b os \<Rightarrow> (int \<times> string option) + 'a \<Rightarrow> ('b host, 'a) io" where
  "checked O' r =
     (case r of
        Inl (code, message) \<Rightarrow>
          throw (Error (if code = - EACCES' then permission_denied
                        else if code = - ETIMEDOUT' then timeout else apply_failed)
                   (case message of Some m \<Rightarrow> m | None \<Rightarrow> os_strerror O' (- code)))
      | Inr x \<Rightarrow> ret x)"

definition bus_call :: "'b os \<Rightarrow> string \<Rightarrow> string \<Rightarrow> string \<Rightarrow> string \<Rightarrow> bus_arg list \<Rightarrow> ('b host, bus_value) io" where
  "bus_call O' dest path iface member args =
     seq (note_event (Call dest member args))
     (bind (on_os (os_call O' dest path iface member args)) (checked O'))"

definition bus_property :: "'b os \<Rightarrow> string \<Rightarrow> string \<Rightarrow> string \<Rightarrow> string \<Rightarrow> ('b host, string) io" where
  "bus_property O' dest path iface name =
     bind (on_os (os_property O' dest path iface name)) (\<lambda>r.
     bind (checked O' r) (\<lambda>v. ret (case v of None \<Rightarrow> [] | Some s \<Rightarrow> s)))"

definition systemd :: string where "systemd = ''org.freedesktop.systemd1''"

definition systemd_call :: "'b os \<Rightarrow> string \<Rightarrow> bus_arg list \<Rightarrow> ('b host, bus_value) io" where
  "systemd_call O' member args =
     bus_call O' systemd ''/org/freedesktop/systemd1'' ''org.freedesktop.systemd1.Manager'' member args"

section \<open>Units\<close>

definition unitState :: "'b os \<Rightarrow> string \<Rightarrow> ('b host, string) io" where
  "unitState O' unit =
     (if unit = [] then ret ''inactive''
      else bind (systemd_call O' ''LoadUnit'' [Arg_s unit]) (\<lambda>reply.
        case reply of
          Object path \<Rightarrow>
            bind (bus_property O' systemd path ''org.freedesktop.systemd1.Unit'' ''ActiveState'') (\<lambda>st.
            seq (note_event (Seen unit st)) (ret st))
        | _ \<Rightarrow> throw (Error unavailable ''invalid unit reply'')))"

definition unit_settled :: "bool \<Rightarrow> string \<Rightarrow> bool" where
  "unit_settled up state =
     ((up \<and> state = ''active'') \<or> (\<not> up \<and> (state = ''inactive'' \<or> state = ''failed'')))"

definition steady_now :: "'b os \<Rightarrow> ('b host, nat) io" where
  "steady_now O' =
     bind (on_os (os_elapsed O')) (\<lambda>d.
     seq (on_platform (modify (\<lambda>m. m\<lparr>mc_steady := mc_steady m + d\<rparr>)))
       (gets (\<lambda>w. mc_steady (wd_platform w))))"

definition sleep_for :: "nat \<Rightarrow> ('b host, unit) io" where
  "sleep_for ms = on_platform (modify (\<lambda>m. m\<lparr>mc_steady := mc_steady m + ms\<rparr>))"

definition steady :: "'b host \<Rightarrow> nat" where
  "steady w = mc_steady (wd_platform w)"

text \<open>The clock stands still in a bus call and goes on in a sleep and between readings.\<close>

lemma steady_on_os [simp]: "steady (snd (on_os f w)) = steady w"
  by (simp add: steady_def on_os_def on_platform_def split: prod.split)

lemma steady_keeps: "keeps (\<lambda>w. steady w = t) (on_os f)" "keeps (\<lambda>w. steady w = t) (note_event e)"
  "keeps (\<lambda>w. steady w = t) (checked O' r)"
  by (auto simp: keeps_def note_event_def on_platform_def modify_def steady_def checked_def throw_def ret_def
      on_os_def split: sum.splits prod.splits)

lemma keeps_case_value [keeps_rules]:
  assumes "keeps I a" and "\<And>path. keeps I (b path)" and "\<And>s. keeps I (c s)" and "\<And>ns. keeps I (d ns)"
  shows "keeps I (case v of Nothing \<Rightarrow> a | Object path \<Rightarrow> b path | Text_value s \<Rightarrow> c s | Names ns \<Rightarrow> d ns)"
  using assms by (cases v) auto

lemma steady_unitState: "keeps (\<lambda>w. steady w = t) (unitState O' unit)"
  unfolding unitState_def systemd_call_def bus_call_def bus_property_def
  by (intro keeps_rules steady_keeps)

lemma steady_after: "unitState O' unit w = (r, w') \<Longrightarrow> steady w' = steady w"
  using keeps_run [OF steady_unitState, where s = w] by blast

lemma slept: "seq (sleep_for 50) (steady_now O') w = (Inr now, w') \<Longrightarrow> now = steady w' \<and> steady w + 50 \<le> steady w'"
  by (auto simp: seq_def bind_def sleep_for_def steady_now_def on_os_def on_platform_def modify_def gets_def
      steady_def split: prod.splits)

text \<open>\<open>do ... while (now < deadline)\<close>.\<close>

function unit_wait :: "'b os \<Rightarrow> string \<Rightarrow> bool \<Rightarrow> nat \<Rightarrow> 'b host \<Rightarrow> unit result \<times> 'b host" where
  "unit_wait O' name up deadline w =
     (case unitState O' name w of
        (Inl e, w1) \<Rightarrow> (Inl e, w1)
      | (Inr state, w1) \<Rightarrow>
          if unit_settled up state then (Inr (), w1)
          else if up \<and> state = ''failed'' then (Inl (Error apply_failed (''unit failed: '' @ name)), w1)
          else case seq (sleep_for 50) (steady_now O') w1 of
                 (Inl e, w2) \<Rightarrow> (Inl e, w2)
               | (Inr now, w2) \<Rightarrow>
                   if now < deadline then unit_wait O' name up deadline w2
                   else (Inl (Error timeout (''unit transition timed out: '' @ name)), w2))"
  by pat_completeness auto

termination
proof (relation "measure (\<lambda>(O', name, up, deadline, w). deadline - steady w)")
  fix O' :: "'b os" and name up deadline w x w1 y xa state xb w2 now
  assume run: "(xa :: string result, w1) = unitState O' name w" "xa = Inr state"
    and slept': "(xb, w2) = seq (sleep_for 50) (steady_now O') w1" "xb = Inr now" and "now < deadline"
  have "steady w + 50 \<le> steady w2" "now = steady w2"
    using steady_after [OF run(1) [symmetric]] slept [of O' w1 now w2] slept' by simp_all
  with \<open>now < deadline\<close> show "((O', name, up, deadline, w2), (O', name, up, deadline, w)) \<in>
      measure (\<lambda>(O', name, up, deadline, w). deadline - steady w)"
    by simp
qed simp

declare unit_wait.simps [simp del]

text \<open>What one round of the loop keeps, the loop keeps.\<close>

lemma keeps_unit_wait:
  assumes "keeps I (unitState O' name)" and "keeps I (seq (sleep_for 50) (steady_now O'))"
  shows "keeps I (unit_wait O' name up deadline)"
proof -
  have "I w \<Longrightarrow> I (snd (unit_wait O' name up deadline w))" for w
    using assms
  proof (induction O' name up deadline w rule: unit_wait.induct)
    case (1 O' name up deadline w)
    obtain r w1 where r: "unitState O' name w = (r, w1)" by fastforce
    obtain s w2 where s: "seq (sleep_for 50) (steady_now O') w1 = (s, w2)" by fastforce
    note w1 = keeps_run [OF 1(3) r 1(2)] and w2 = keeps_run [OF 1(4) s keeps_run [OF 1(3) r 1(2)]]
    show ?case
      using w1 w2 1(3,4) 1(1) [OF r [symmetric] _ _ _ s [symmetric]]
      by (subst unit_wait.simps) (auto simp: r s split: sum.split)
  qed
  then show ?thesis by (simp add: keeps_def)
qed

definition unit_transition :: "'b os \<Rightarrow> string \<Rightarrow> bool \<Rightarrow> ('b host, unit) io" where
  "unit_transition O' name up =
     bind (unitState O' name) (\<lambda>state.
     if unit_settled up state then ret ()
     else
       bind (systemd_call O' (if up then ''StartUnit'' else ''StopUnit'') [Arg_s name, Arg_s ''replace'']) (\<lambda>_.
       bind (steady_now O') (\<lambda>now.
       unit_wait O' name up (now + 10000))))"

end
