(* ===== verification/Native_Platform.thy ===== *)
theory Native_Platform
  imports Native_Bus Network_Config
begin

text \<open>
  The native platform (class \<open>Native\<close> of backend.cpp): what it discovers and reports, how it
  validates and applies preferences and networks, and the sensors it reads.
\<close>

section \<open>Text\<close>

definition blank :: "char \<Rightarrow> bool" where
  "blank c = (c = CHR '' '' \<or> ord c = 13 \<or> ord c = 10 \<or> ord c = 9)"

definition trim :: "string \<Rightarrow> string" where
  "trim v = rev (dropWhile blank (rev (dropWhile blank v)))"

text \<open>\<open>std::getline\<close> until the end: no line follows a final line feed.\<close>

definition lines_of :: "string \<Rightarrow> string list" where
  "lines_of s = (let ps = split_on line_feed s in if last ps = [] then butlast ps else ps)"

text \<open>\<open>inet_ntop\<close> of an IPv4 address; IPv6 texts are the system's.\<close>

definition AF_INET :: int where "AF_INET = 2"

definition address :: "'b os \<Rightarrow> 8 word list \<Rightarrow> int \<Rightarrow> string" where
  "address O' bytes family =
     (if length bytes \<noteq> (if family = AF_INET then 4 else 16) then []
      else if family = AF_INET then dotted (map unat bytes)
      else os_ntop6 O' bytes)"

section \<open>Links\<close>

definition describe :: "'b os \<Rightarrow> string \<Rightarrow> ('b host, link_info) io" where
  "describe O' name =
     bind (ask_os (os_nametoindex O' name)) (\<lambda>index.
     seq (guard (index \<noteq> 0) (Error unavailable (''interface unavailable: '' @ name)))
     (bind (bus_call O' ''org.freedesktop.network1'' ''/org/freedesktop/network1''
              ''org.freedesktop.network1.Manager'' ''DescribeLink'' [Arg_i (int index)]) (\<lambda>reply.
      case reply of
        Text_value json \<Rightarrow>
          (case os_read_link O' json of
             None \<Rightarrow> throw (Error unavailable ''unsupported networkd description'')
           | Some link \<Rightarrow> ret link)
      | _ \<Rightarrow> throw (Error unavailable ''networkd returned invalid link data''))))"

text \<open>The loop over the lines of a file: the section, and whether DHCP is on.\<close>

definition dhcp_line :: "string \<Rightarrow> string \<times> bool \<Rightarrow> string \<times> bool" where
  "dhcp_line raw st = (case st of (sect, on) \<Rightarrow>
     let line = trim raw in
     if starts_with line ''['' then (line, on)
     else if sect = ''[Network]'' \<and> starts_with line ''DHCP='' then
       (let v = trim (drop 5 line) in (sect, v = ''yes'' \<or> v = ''true'' \<or> v = ''ipv4''))
     else (sect, on))"

fun dhcp_files :: "string list \<Rightarrow> bool \<Rightarrow> ('b host, bool) io" where
  "dhcp_files [] on = ret on"
| "dhcp_files (file # files) on =
     bind (on_fs (readFile read_limit file)) (\<lambda>text.
     dhcp_files files (snd (fold dhcp_line (lines_of text) ([], on))))"

definition dhcpEnabled :: "link_info \<Rightarrow> ('b host, bool) io" where
  "dhcpEnabled link =
     seq (guard (li_NetworkFile link \<noteq> []) (Error unavailable ''interface is not managed by networkd''))
       (dhcp_files (li_NetworkFile link # li_NetworkFileDropins link) False)"

definition interfacePolicy :: "'b os \<Rightarrow> profile \<Rightarrow> string \<Rightarrow> bool \<Rightarrow> ('b host, unit) io" where
  "interfacePolicy O' profile name boot =
     (case find (\<lambda>p. ip_name p = name) (pf_interfaces profile) of
        None \<Rightarrow> throw (Error invalid_argument ''interface is not managed by this product'')
      | Some p \<Rightarrow>
          bind (ask_os (os_of_node O' name)) (\<lambda>node.
          if boot \<and> node = None then ret ()
          else bind (ask_os (os_nametoindex O' name)) (\<lambda>index.
            if index = 0 then throw (Error invalid_argument ''interface hardware identity mismatch'')
            else if ip_device_tree_node p \<noteq> [] then
              (case node of
                 None \<Rightarrow> throw (StdException ''cannot make canonical path'')
               | Some n \<Rightarrow>
                   guard (\<not> (n \<noteq> ip_device_tree_node p)) (Error invalid_argument ''interface hardware identity mismatch''))
            else ret ())))"

section \<open>Discovery\<close>

fun static_addresses :: "'b os \<Rightarrow> address_info list \<Rightarrow> network_config \<Rightarrow> network_config result" where
  "static_addresses O' [] n = Inr n"
| "static_addresses O' (a # as) n =
     (if ai_Family a = AF_INET \<and> ai_ConfigSource a = ''static'' then
        (if nc_mode n = dhcp \<or> nc_address n \<noteq> []
         then Inl (Error unsupported ''migration cannot represent mixed or multiple IPv4 addresses'')
         else static_addresses O' as
                (n\<lparr>nc_address := address O' (ai_Address a) (ai_Family a), nc_prefix_length := ucast (ai_PrefixLength a)\<rparr>))
      else static_addresses O' as n)"

definition static_route :: "'b os \<Rightarrow> route_info \<Rightarrow> network_config \<Rightarrow> network_config" where
  "static_route O' r n =
     (if ri_Family r = AF_INET \<and> ri_DestinationPrefixLength r = 0 \<and> ri_ConfigSource r = ''static'' \<and> ri_Gateway r \<noteq> []
      then n\<lparr>nc_gateway := address O' (ri_Gateway r) (ri_Family r)\<rparr> else n)"

definition static_dns :: "'b os \<Rightarrow> dns_info \<Rightarrow> network_config \<Rightarrow> network_config" where
  "static_dns O' d n =
     (if di_Family d = AF_INET \<and> di_ConfigSource d = ''static''
      then n\<lparr>nc_dns_servers := nc_dns_servers n @ [address O' (di_Address d) (di_Family d)]\<rparr> else n)"

definition discover_interface :: "'b os \<Rightarrow> profile \<Rightarrow> interface_policy \<Rightarrow> ('b host, network_config) io" where
  "discover_interface O' profile policy =
     seq (interfacePolicy O' profile (ip_name policy) False)
     (bind (describe O' (ip_name policy)) (\<lambda>link.
     bind (dhcpEnabled link) (\<lambda>on.
     bind (of_result (static_addresses O' (li_Addresses link)
             (default_network_config\<lparr>nc_interface := ip_name policy, nc_mode := if on then dhcp else static_ipv4\<rparr>))) (\<lambda>n.
     ret (fold (static_dns O') (li_DNS link) (fold (static_route O') (li_Routes link) n))))))"

definition ssh_running :: "'b os \<Rightarrow> profile \<Rightarrow> ('b host, bool) io" where
  "ssh_running O' profile =
     bind (unitState O' (pf_ssh_socket profile)) (\<lambda>socket.
     if socket = ''active'' then ret True
     else bind (unitState O' (pf_ssh_service profile)) (\<lambda>service. ret (service = ''active'')))"

definition hostname_property :: "'b os \<Rightarrow> ('b host, string) io" where
  "hostname_property O' =
     bus_property O' ''org.freedesktop.hostname1'' ''/org/freedesktop/hostname1'' ''org.freedesktop.hostname1'' ''Hostname''"

definition timezone_property :: "'b os \<Rightarrow> ('b host, string) io" where
  "timezone_property O' =
     bus_property O' ''org.freedesktop.timedate1'' ''/org/freedesktop/timedate1'' ''org.freedesktop.timedate1'' ''Timezone''"

definition native_discover :: "'b os \<Rightarrow> profile \<Rightarrow> ('b host, configuration) io" where
  "native_discover O' profile =
     seq (open_bus O')
     (bind (hostname_property O') (\<lambda>hostname.
     bind (timezone_property O') (\<lambda>zone.
     bind (ssh_running O' profile) (\<lambda>ssh.
     bind (map_io (discover_interface O' profile) (pf_interfaces profile)) (\<lambda>network.
     ret ((pf_defaults profile)
       \<lparr>cf_system := \<lparr>pr_hostname = hostname, pr_ssh_enabled = ssh, pr_network = network\<rparr>,
        cf_time := (cf_time (pf_defaults profile))\<lparr>tp_timezone := if zone = [] then ''UTC'' else zone\<rparr>\<rparr>))))))"

section \<open>Status\<close>

definition unquote :: "string \<Rightarrow> string" where
  "unquote s =
     (if s \<noteq> [] \<and> hd s = quote \<and> last s = quote then take (length s - 2) (drop 1 s) else s)"

definition pretty_name :: "string \<Rightarrow> string \<Rightarrow> string" where
  "pretty_name line found =
     (if starts_with line ''PRETTY_NAME='' then unquote (trim (drop 12 line)) else found)"

definition link_status :: "'b os \<Rightarrow> string \<Rightarrow> string \<Rightarrow> link_info \<Rightarrow> network_status" where
  "link_status O' name mac link =
     \<lparr>ns_interface = name, ns_mac_address = mac, ns_carrier = li_CarrierState link = ''carrier'',
      ns_addresses = concat (map (\<lambda>a. let ip = address O' (ai_Address a) (ai_Family a) in
          if ip \<noteq> [] then [ip @ ''/'' @ to_string (unat (ai_PrefixLength a))] else []) (li_Addresses link)),
      ns_gateway = fold (\<lambda>r g. if ri_Family r = AF_INET \<and> ri_DestinationPrefixLength r = 0 \<and> ri_Gateway r \<noteq> []
          then address O' (ri_Gateway r) (ri_Family r) else g) (li_Routes link) [],
      ns_dns_servers = filter (\<lambda>ip. ip \<noteq> []) (map (\<lambda>d. address O' (di_Address d) (di_Family d)) (li_DNS link))\<rparr>"

definition native_ports :: "'b os \<Rightarrow> profile \<Rightarrow> 'b \<Rightarrow> ptp_interface list" where
  "native_ports O' profile b =
     discoverPtpInterfaces profile (os_net_entries O' b)
       (timestampCapabilities (os_socket_opens O' b) (\<lambda>name. os_ts_info O' name b))"

definition native_status :: "'b os \<Rightarrow> profile \<Rightarrow> ('b host, system_status) io" where
  "native_status O' profile =
     seq (open_bus O')
     (bind (ask_os (os_uname O')) (\<lambda>release.
     bind (on_fs (readFile read_limit ''/etc/os-release'')) (\<lambda>text.
     bind (ask_os (native_ports O' profile)) (\<lambda>ports.
     bind (ssh_running O' profile) (\<lambda>ssh.
     bind (map_io (\<lambda>p. bind (describe O' (ip_name p)) (\<lambda>link.
         bind (on_fs (readFile read_limit (''/sys/class/net/'' @ ip_name p @ ''/address''))) (\<lambda>mac.
         ret (link_status O' (ip_name p) (trim mac) link)))) (pf_interfaces profile)) (\<lambda>network.
     ret \<lparr>ss_configuration = default_configuration, ss_network = network, ss_ptp_interfaces = ports,
          ss_irig_selectable = pf_irig_units profile \<noteq> [], ss_ssh_listening = ssh,
          ss_kernel_release = (case release of None \<Rightarrow> [] | Some r \<Rightarrow> r),
          ss_operating_system = fold pretty_name (lines_of text) []\<rparr>))))))"


section \<open>Time\<close>

text \<open>\<open>std::setw(n)\<close> with \<open>std::setfill('0')\<close>.\<close>

definition pad :: "nat \<Rightarrow> string \<Rightarrow> string" where
  "pad n s = replicate (n - length s) (CHR ''0'') @ s"

definition format_time :: "string \<Rightarrow> int \<Rightarrow> int option \<Rightarrow> string" where
  "format_time calendar nsec offset =
     calendar @ ''.'' @ pad 3 (to_string (nat (nsec div 1000000))) @
     (case offset of
        None \<Rightarrow> ''Z''
      | Some seconds \<Rightarrow>
          (let magnitude = nat (abs seconds) in
           (if seconds < 0 then ''-'' else ''+'') @ pad 2 (to_string (magnitude div 3600)) @ '':'' @
           pad 2 (to_string ((magnitude div 60) mod 60))))"

definition zoneinfo :: string where "zoneinfo = ''/usr/share/zoneinfo/''"

definition read_symlink :: "string \<Rightarrow> (fs, string) io" where
  "read_symlink p =
     bind (gets (\<lambda>f. content f p)) (\<lambda>c. case c of
       None \<Rightarrow> throw (StdException ''cannot read symbolic link'') | Some target \<Rightarrow> ret target)"

definition runtime_zone :: "profile \<Rightarrow> string \<Rightarrow> ('b host, string) io" where
  "runtime_zone profile zone =
     (if pf_runtime_etc_directory profile = [] then ret zone
      else bind (on_fs (read_symlink (path_join (pf_runtime_etc_directory profile) ''localtime''))) (\<lambda>target.
        ret (if starts_with target zoneinfo then drop (length zoneinfo) target else zone)))"

definition native_time :: "'b os \<Rightarrow> profile \<Rightarrow> ('b host, time_status) io" where
  "native_time O' profile =
     seq (open_bus O')
     (bind (timezone_property O') (\<lambda>property.
     bind (runtime_zone profile property) (\<lambda>zone.
     bind (ask_os (os_realtime O')) (\<lambda>clock.
     case clock of
       None \<Rightarrow> throw (Error unavailable ''wall clock unavailable'')
     | Some (sec, nsec) \<Rightarrow>
         bind (on_fs bootMilliseconds) (\<lambda>uptime.
         bind (ask_os (\<lambda>b. (os_gmtoff O' sec b, os_strftime O' True sec b, os_strftime O' False sec b)))
           (\<lambda>(offset, utc, local).
         ret \<lparr>ts_unix_time_ms = word_of_int (sec * 1000 + nsec div 1000000),
              ts_utc_time = format_time utc nsec None, ts_local_time = format_time local nsec (Some offset),
              ts_timezone = (if zone = [] then ''UTC'' else zone),
              ts_utc_offset_seconds = word_of_int offset, ts_uptime_ms = uptime\<rparr>))))))"

definition native_timezones :: "'b os \<Rightarrow> ('b host, string list) io" where
  "native_timezones O' =
     seq (open_bus O')
     (bind (bus_call O' ''org.freedesktop.timedate1'' ''/org/freedesktop/timedate1''
              ''org.freedesktop.timedate1'' ''ListTimezones'' []) (\<lambda>reply.
      case reply of Names zones \<Rightarrow> ret zones | _ \<Rightarrow> throw (Error unavailable ''invalid timezone list'')))"

section \<open>Validation\<close>

definition native_validateConfiguration :: "'b os \<Rightarrow> profile \<Rightarrow> configuration \<Rightarrow> ('b host, unit) io" where
  "native_validateConfiguration O' profile c =
     seq (of_result (validate c))
     (seq (guard (\<not> (length (pr_network (cf_system c)) \<noteq> length (pf_interfaces profile)))
             (Error invalid_argument ''supply all managed interfaces''))
     (seq (for_io (\<lambda>n. interfacePolicy O' profile (nc_interface n) False) (pr_network (cf_system c)))
     (bind (native_timezones O') (\<lambda>zones.
     seq (guard (tp_timezone (cf_time c) \<in> set zones) (Error invalid_argument ''timezone is not installed''))
     (bind (ask_os (native_ports O' profile)) (\<lambda>ports.
     seq (of_result (validatePtpSelection (cf_time c) ports))
     (guard (\<not> (tp_synchronization (cf_time c) = ''irig'' \<and> pf_irig_units profile = []))
        (Error unsupported ''IRIG source profile is unavailable''))))))))"

section \<open>Applying preferences\<close>

definition hostname_file :: "profile \<Rightarrow> string" where
  "hostname_file profile =
     (if pf_runtime_etc_directory profile = [] then ''/etc/hostname''
      else path_join (pf_runtime_etc_directory profile) ''hostname'')"

definition native_bootHostname :: "'b os \<Rightarrow> profile \<Rightarrow> string \<Rightarrow> ('b host, unit) io" where
  "native_bootHostname O' profile hostname =
     seq (on_fs (atomicWrite (hostname_file profile) (hostname @ [line_feed])))
     (seq (catch (on_fs set_permissions) (\<lambda>_. throw (Error apply_failed ''cannot set hostname file permissions'')))
     (bind (on_os (os_sethostname O' hostname)) (\<lambda>ok.
      guard ok (Error apply_failed ''cannot set boot hostname''))))"

text \<open>
  A symbolic link is a file with its target as contents; only \<open>read_symlink\<close> reads one. Replacing it
  is not synchronised by the code.
\<close>

definition create_symlink :: "string \<Rightarrow> node \<Rightarrow> (fs, unit) io" where
  "create_symlink target n =
     bind (gets (\<lambda>f. (fs_names f n, fs_fresh f))) (\<lambda>(old, i).
       if old \<noteq> None then throw (StdException ''cannot create symlink: File exists'')
       else filesystem_call (\<lambda>f.
         f\<lparr>fs_names := (fs_names f)(n := Some i), fs_data := (fs_data f)(i := target),
           fs_synced := (fs_synced f)(i := None), fs_fresh := Suc i\<rparr>))"

definition rename_path :: "node \<Rightarrow> node \<Rightarrow> (fs, unit) io" where
  "rename_path a b = filesystem_call (\<lambda>f. f\<lparr>fs_names := (fs_names f)(b := fs_names f a, a := None)\<rparr>)"

definition zone_target :: "string \<Rightarrow> string" where
  "zone_target zone = (if starts_with zone ''/'' then zone else zoneinfo @ zone)"

definition runtimeTimezone :: "'b os \<Rightarrow> profile \<Rightarrow> string \<Rightarrow> ('b host, unit) io" where
  "runtimeTimezone O' profile zone =
     bind (ask_os (os_is_regular O' (zone_target zone))) (\<lambda>regular.
     seq (guard (\<not> (\<not> regular \<or> starts_with zone ''/'' \<or> find_str ''..'' zone \<noteq> None))
            (Error invalid_argument ''invalid timezone''))
     (let path = path_join (pf_runtime_etc_directory profile) ''localtime''
      in bind (on_fs randomId) (\<lambda>rid.
         seq (on_fs (create_symlink (zone_target zone) (locate (path @ ''.'' @ rid))))
           (on_fs (rename_path (locate (path @ ''.'' @ rid)) (locate path))))))"

definition native_clockBootPolicy :: "'b os \<Rightarrow> profile \<Rightarrow> time_preferences \<Rightarrow> ('b host, unit) io" where
  "native_clockBootPolicy O' profile time =
     seq (cond (pf_runtime_etc_directory profile \<noteq> []) (runtimeTimezone O' profile (tp_timezone time)))
     (bind (on_fs (writeClockPolicy profile time ''/run'')) (\<lambda>_. ret ()))"

definition ssh_marker :: "profile \<Rightarrow> string" where
  "ssh_marker profile = path_join (path_join (pf_runtime_root profile) ''system'') ''ssh-disabled''"

definition native_sshBootPolicy :: "profile \<Rightarrow> bool \<Rightarrow> ('b host, unit) io" where
  "native_sshBootPolicy profile enabled =
     (if enabled then on_fs (durableRemove (ssh_marker profile))
      else on_fs (atomicWrite (ssh_marker profile) (''disabled'' @ [line_feed])))"

definition network_call :: "'b os \<Rightarrow> string \<Rightarrow> bus_arg list \<Rightarrow> ('b host, unit) io" where
  "network_call O' member args =
     bind (bus_call O' ''org.freedesktop.network1'' ''/org/freedesktop/network1''
             ''org.freedesktop.network1.Manager'' member args) (\<lambda>_. ret ())"

definition reloadNetwork :: "'b os \<Rightarrow> network_config list \<Rightarrow> ('b host, unit) io" where
  "reloadNetwork O' configs =
     seq (open_bus O')
     (seq (network_call O' ''Reload'' [])
     (for_io (\<lambda>c. bind (ask_os (os_nametoindex O' (nc_interface c))) (\<lambda>index.
        network_call O' ''ReconfigureLink'' [Arg_i (int index)])) configs))"

definition network_file :: "string \<Rightarrow> string" where
  "network_file name = path_join ''/run/systemd/network'' (''10-mnc-'' @ name @ ''.network'')"

definition write_network :: "'b os \<Rightarrow> profile \<Rightarrow> network_config list \<Rightarrow> bool \<Rightarrow> network_config \<Rightarrow> ('b host, unit) io" where
  "write_network O' profile configs boot c =
     seq (interfacePolicy O' profile (nc_interface c) boot)
     (bind (of_result (renderNetwork c (\<exists>d\<in>set configs. nc_preferred_default d))) (\<lambda>rendered.
     seq (on_fs (atomicWrite (network_file (nc_interface c)) rendered))
       (on_fs set_permissions)))"

definition native_network :: "'b os \<Rightarrow> profile \<Rightarrow> network_config list \<Rightarrow> bool \<Rightarrow> ('b host, unit) io" where
  "native_network O' profile configs boot =
     seq (of_result (validateNetwork configs))
     (seq (guard (\<not> (length configs \<noteq> length (pf_interfaces profile)))
             (Error invalid_argument ''supply all managed interfaces''))
     (seq (on_fs (create_directories (locate ''/run/systemd/network'')))
     (seq (on_fs set_permissions)
     (seq (for_io (write_network O' profile configs boot) configs)
       (cond (\<not> boot) (reloadNetwork O' configs))))))"

definition name_calls :: "'b os \<Rightarrow> configuration \<Rightarrow> ('b host, unit) io" where
  "name_calls O' c =
     bind (bus_call O' ''org.freedesktop.timedate1'' ''/org/freedesktop/timedate1'' ''org.freedesktop.timedate1''
             ''SetTimezone'' [Arg_s (tp_timezone (cf_time c)), Arg_b False]) (\<lambda>_.
     bind (bus_call O' ''org.freedesktop.hostname1'' ''/org/freedesktop/hostname1'' ''org.freedesktop.hostname1''
             ''SetStaticHostname'' [Arg_s (pr_hostname (cf_system c)), Arg_b False]) (\<lambda>_.
     bind (bus_call O' ''org.freedesktop.hostname1'' ''/org/freedesktop/hostname1'' ''org.freedesktop.hostname1''
             ''SetHostname'' [Arg_s (pr_hostname (cf_system c)), Arg_b False]) (\<lambda>_. ret ())))"

definition native_preferences :: "'b os \<Rightarrow> profile \<Rightarrow> configuration \<Rightarrow> ('b host, unit) io" where
  "native_preferences O' profile c =
     seq (open_bus O')
     (seq (if pf_runtime_etc_directory profile \<noteq> []
           then seq (runtimeTimezone O' profile (tp_timezone (cf_time c)))
                  (native_bootHostname O' profile (pr_hostname (cf_system c)))
           else name_calls O' c)
     (bind (on_fs (writeClockPolicy profile (cf_time c) ''/run'')) (\<lambda>changed.
     bind (of_result (clockUnits profile (cf_time c))) (\<lambda>clocks.
     seq (for_io (\<lambda>name. unit_transition O' name False) (cu_stop clocks))
     (seq (cond (cc_servers changed \<and> tp_synchronization (cf_time c) = ''ntp'')
             (for_io (\<lambda>name. unit_transition O' name False) (pf_ntp_units profile)))
     (seq (cond (cc_network changed) (reloadNetwork O' (pr_network (cf_system c))))
     (seq (for_io (\<lambda>name. unit_transition O' name True) (cu_start clocks))
     (seq (native_sshBootPolicy profile (pr_ssh_enabled (cf_system c)))
     (seq (unit_transition O' (pf_ssh_socket profile) (pr_ssh_enabled (cf_system c)))
       (cond (\<not> pr_ssh_enabled (cf_system c)) (unit_transition O' (pf_ssh_service profile) False)))))))))))"

definition native_power :: "'b os \<Rightarrow> power_action \<Rightarrow> ('b host, unit) io" where
  "native_power O' action =
     seq (open_bus O')
     (bind (bus_call O' ''org.freedesktop.login1'' ''/org/freedesktop/login1'' ''org.freedesktop.login1.Manager''
             (if action = reboot then ''Reboot'' else ''PowerOff'') [Arg_b False]) (\<lambda>_. ret ()))"

section \<open>Sensors and links\<close>

text \<open>What a handler of \<open>const Error &\<close> catches; other exceptions go on.\<close>

definition catch_error :: "('s, 'a) io \<Rightarrow> 'a \<Rightarrow> ('s, 'a) io" where
  "catch_error m x = catch m (\<lambda>e. case e of Error c t \<Rightarrow> ret x | _ \<Rightarrow> throw e)"

definition observe_port :: "interface_policy \<Rightarrow> ('b host, network_status list) io" where
  "observe_port policy =
     catch_error
       (bind (on_fs (readFile 32 (''/sys/class/net/'' @ ip_name policy @ ''/flags''))) (\<lambda>raw.
        let flags = trim raw;
            flag_text = (if starts_with flags ''0x'' then drop 2 flags else flags)
        in case from_chars_unsigned 16 flag_text of
             None \<Rightarrow> ret []
           | Some (numeric, _) \<Rightarrow>
               if even numeric then ret []
               else bind (on_fs (readFile 8 (''/sys/class/net/'' @ ip_name policy @ ''/carrier''))) (\<lambda>c.
                 let carrier = trim c in
                 if carrier \<noteq> ''0'' \<and> carrier \<noteq> ''1'' then ret []
                 else ret [\<lparr>ns_interface = ip_name policy, ns_mac_address = [], ns_carrier = carrier = ''1'',
                            ns_addresses = [], ns_gateway = [], ns_dns_servers = []\<rparr>]))) []"

definition native_networkLinks :: "profile \<Rightarrow> ('b host, network_status list) io" where
  "native_networkLinks profile = bind (map_io observe_port (pf_interfaces profile)) (\<lambda>ls. ret (concat ls))"

text \<open>\<open>std::from_chars\<close> of a whole text into a 64-bit signed integer.\<close>

definition parse_int64 :: "string \<Rightarrow> int option" where
  "parse_int64 s =
     (let negative = s \<noteq> [] \<and> hd s = CHR ''-''; t = (if negative then tl s else s)
      in case scan_digits 10 0 t of (v, rest) \<Rightarrow>
           if rest \<noteq> [] \<or> t = [] then None
           else let i = (if negative then - int v else int v)
                in if - (2 ^ 63) \<le> i \<and> i < 2 ^ 63 then Some i else None)"

fun set_reading :: "string \<Rightarrow> int \<Rightarrow> temperature list \<Rightarrow> temperature list" where
  "set_reading label n [] = []"
| "set_reading label n (t # ts) =
     (if te_label t = label then t\<lparr>te_millidegrees_c := Some n\<rparr> # ts else t # set_reading label n ts)"

definition read_sensor :: "string \<Rightarrow> string \<Rightarrow> temperature list \<Rightarrow> ('b host, temperature list) io" where
  "read_sensor device name result =
     (if \<not> starts_with name ''temp'' \<or> \<not> ends_with name ''_label'' then ret result
      else catch_error
        (bind (on_fs (readFile 256 (path_join device name))) (\<lambda>raw.
         let label = trim raw in
         if label \<notin> te_label ` set result then ret result
         else bind (on_fs (readFile 128 (path_join device (take (length name - 6) name @ ''_input'')))) (\<lambda>v.
           case parse_int64 (trim v) of
             None \<Rightarrow> ret result
           | Some n \<Rightarrow> ret (set_reading label n result)))) result)"

fun fold_io :: "('a \<Rightarrow> 'c \<Rightarrow> ('s, 'c) io) \<Rightarrow> 'a list \<Rightarrow> 'c \<Rightarrow> ('s, 'c) io" where
  "fold_io f [] acc = ret acc"
| "fold_io f (x # xs) acc = bind (f x acc) (fold_io f xs)"

definition read_device :: "string \<times> string list option \<Rightarrow> temperature list \<Rightarrow> ('b host, temperature list) io" where
  "read_device d result =
     (case d of (device, None) \<Rightarrow> ret result | (device, Some names) \<Rightarrow> fold_io (read_sensor device) names result)"

definition native_temperatures :: "'b os \<Rightarrow> profile \<Rightarrow> ('b host, temperature list) io" where
  "native_temperatures O' profile =
     bind (ask_os (os_hwmon O')) (\<lambda>devices.
     case devices of
       None \<Rightarrow> throw (Error unavailable ''hardware monitors unavailable'')
     | Some ds \<Rightarrow>
         fold_io read_device ds
           (map (\<lambda>s. \<lparr>te_zone = sp_zone s, te_label = sp_label s, te_millidegrees_c = None\<rparr>) (pf_sensors profile)))"

end
