(* ===== verification/Timezone_Catalog.thy ===== *)
theory Timezone_Catalog
  imports Native_Platform "HOL-Library.List_Lexorder" "HOL-Library.Char_ord"
begin

text \<open>
  The timezone catalogue (timezone_catalog.cpp): the coordinates in the zone table and the list of
  installed zones with their offsets and places. The zone database and floating-point arithmetic are
  parameters; a \<open>double\<close> is only passed on.
\<close>

section \<open>Coordinates\<close>

text \<open>\<open>std::from_chars\<close> into an \<open>int\<close>, for texts too short to overflow; -1 for anything else.\<close>

definition whole_number :: "string \<Rightarrow> int" where
  "whole_number s =
     (let negative = s \<noteq> [] \<and> hd s = CHR ''-''; t = (if negative then tl s else s)
      in case scan_digits 10 0 t of (v, rest) \<Rightarrow>
           if rest \<noteq> [] \<or> t = [] then -1 else if negative then - int v else int v)"

type_synonym angle = "bool \<Rightarrow> int \<Rightarrow> int \<Rightarrow> int \<Rightarrow> double"

definition coordinate :: "angle \<Rightarrow> string \<Rightarrow> nat \<Rightarrow> double option" where
  "coordinate fl s degrees =
     (if s = [] \<or> (hd s \<noteq> CHR ''+'' \<and> hd s \<noteq> CHR ''-'') then None
      else
        let negative = hd s = CHR ''-''; t = tl s
        in if length t \<noteq> degrees + 2 \<and> length t \<noteq> degrees + 4 then None
           else
             let d = whole_number (take degrees t);
                 m = whole_number (take 2 (drop degrees t));
                 sec = (if length t = degrees + 4 then whole_number (drop (degrees + 2) t) else 0);
                 maximum = (if degrees = 2 then 90 else 180)
             in if d < 0 \<or> d > maximum \<or> m < 0 \<or> m \<ge> 60 \<or> sec < 0 \<or> sec \<ge> 60 \<or>
                   (d = maximum \<and> (m \<noteq> 0 \<or> sec \<noteq> 0)) then None
                else Some (fl negative d m sec))"

section \<open>The zone table\<close>

text \<open>White space of the C locale, and the words \<open>operator>>\<close> reads.\<close>

definition isspace :: "char \<Rightarrow> bool" where
  "isspace c = (c = CHR '' '' \<or> (9 \<le> ord c \<and> ord c \<le> 13))"

function words_of :: "string \<Rightarrow> string list" where
  "words_of s =
     (let t = dropWhile isspace s in
      if t = [] then [] else takeWhile (\<lambda>c. \<not> isspace c) t # words_of (dropWhile (\<lambda>c. \<not> isspace c) t))"
  by pat_completeness auto

termination
proof (relation "measure length")
  fix s :: string and t
  assume t: "t = dropWhile isspace s" "t \<noteq> []"
  then have "\<not> isspace (hd t)" by (simp add: hd_dropWhile)
  with t(2) have "length (dropWhile (\<lambda>c. \<not> isspace c) t) < length t"
    by (cases t) (auto simp: length_dropWhile_le le_imp_less_Suc)
  moreover have "length t \<le> length s" using t(1) by (simp add: length_dropWhile_le)
  ultimately show "(dropWhile (\<lambda>c. \<not> isspace c) t, s) \<in> measure length" by simp
qed simp

declare words_of.simps [simp del]

definition sign_char :: "char \<Rightarrow> bool" where
  "sign_char c = (c = CHR ''+'' \<or> c = CHR ''-'')"

definition table_line :: "angle \<Rightarrow> string \<Rightarrow> (string \<times> timezone_location) option" where
  "table_line fl line =
     (if line = [] \<or> hd line = CHR ''#'' then None
      else case words_of line of
        country # coordinates # zone # _ \<Rightarrow>
          (let first = takeWhile (\<lambda>c. \<not> sign_char c) (tl coordinates);
               latitude = hd coordinates # first; longitude = drop (length latitude) coordinates
           in if longitude = [] then None
              else case (coordinate fl latitude 2, coordinate fl longitude 3) of
                (Some lat, Some lon) \<Rightarrow> Some (zone, \<lparr>tl_latitude = lat, tl_longitude = lon\<rparr>)
              | _ \<Rightarrow> None)
      | _ \<Rightarrow> None)"

text \<open>The map keeps the first line of an identifier.\<close>

definition zone_locations :: "angle \<Rightarrow> string \<Rightarrow> string \<rightharpoonup> timezone_location" where
  "zone_locations fl table = map_of (List.map_filter (table_line fl) (lines_of table))"

section \<open>The catalogue\<close>

definition to_int32 :: "int \<Rightarrow> int" where
  "to_int32 i = sint (word_of_int i :: 32 word)"

definition catalog_entry :: "(string \<Rightarrow> int \<Rightarrow> (int \<times> string) option) \<Rightarrow> int \<Rightarrow> (string \<rightharpoonup> timezone_location) \<Rightarrow>
    string \<Rightarrow> timezone" where
  "catalog_entry zone_info instant locations name =
     (case zone_info name instant of
        None \<Rightarrow> \<lparr>tz_id = name, tz_utc_offset_seconds = None, tz_location = None\<rparr>
      | Some (offset, canonical) \<Rightarrow>
          \<lparr>tz_id = name, tz_utc_offset_seconds = Some (to_int32 offset),
           tz_location = (case locations name of None \<Rightarrow> locations canonical | Some l \<Rightarrow> Some l)\<rparr>)"

definition readTimezoneCatalog :: "angle \<Rightarrow> (string \<Rightarrow> int \<Rightarrow> (int \<times> string) option) \<Rightarrow> string list \<Rightarrow> int \<Rightarrow>
    string \<Rightarrow> timezone_catalog" where
  "readTimezoneCatalog fl zone_info installed instant table =
     \<lparr>tc_generated_at_unix_ms = truncate_to_ms instant,
      tc_zones = map (catalog_entry zone_info instant (zone_locations fl table)) (remdups_adj (sort installed))\<rparr>"

definition native_timezoneCatalog :: "angle \<Rightarrow> 'b os \<Rightarrow> ('b host, timezone_catalog) io" where
  "native_timezoneCatalog fl O' =
     bind (native_timezones O') (\<lambda>installed.
     bind (ask_os (\<lambda>b. (os_system_clock O' b, os_zone_table O' b, \<lambda>name t. os_zone_info O' name t b)))
       (\<lambda>(instant, table, zone_info). ret (readTimezoneCatalog fl zone_info installed instant table)))"

section \<open>Properties\<close>

text \<open>A position on the globe: degrees, minutes and seconds within their ranges, at most the maximum.\<close>

definition on_globe :: "int \<Rightarrow> int \<Rightarrow> int \<Rightarrow> int \<Rightarrow> bool" where
  "on_globe maximum d m s =
     (0 \<le> d \<and> 0 \<le> m \<and> m < 60 \<and> 0 \<le> s \<and> s < 60 \<and> 3600 * d + 60 * m + s \<le> 3600 * maximum)"

lemma coordinate_Some:
  assumes "coordinate fl s n = Some x"
  shows "\<exists>neg d m sec. x = fl neg d m sec \<and> on_globe (if n = 2 then 90 else 180) d m sec"
  using assms
  by (fastforce simp: coordinate_def Let_def on_globe_def split: if_splits)

lemma table_line_Some:
  assumes "table_line fl line = Some (zone, l)"
  shows "\<exists>n d m s n' d' m' s'. tl_latitude l = fl n d m s \<and> on_globe 90 d m s \<and>
    tl_longitude l = fl n' d' m' s' \<and> on_globe 180 d' m' s'"
proof -
  from assms obtain a b where "coordinate fl a 2 = Some (tl_latitude l)" "coordinate fl b 3 = Some (tl_longitude l)"
    by (auto simp: table_line_def Let_def split: if_splits list.splits option.splits)
  from coordinate_Some [OF this(1)] coordinate_Some [OF this(2)] show ?thesis by fastforce
qed

lemma zone_locations_Some:
  assumes "zone_locations fl table zone = Some l"
  shows "\<exists>line\<in>set (lines_of table). table_line fl line = Some (zone, l)"
  using map_of_SomeD [OF assms [unfolded zone_locations_def]]
  by (auto simp: List.map_filter_def)

lemma sorted_distinct_adjacent: "sorted xs \<Longrightarrow> distinct (remdups_adj xs)"
  by (induction xs rule: remdups_adj.induct) auto

lemma sorted_names: "remdups_adj (sort xs) = sorted_list_of_set (set xs)"
  by (rule sorted_distinct_set_unique) (simp_all add: sorted_distinct_adjacent)

text \<open>A place that a line of the table gives to one of the names, on the globe.\<close>

definition located :: "angle \<Rightarrow> string \<Rightarrow> string set \<Rightarrow> timezone_location \<Rightarrow> bool" where
  "located fl table names l =
     ((\<exists>line\<in>set (lines_of table). \<exists>zone\<in>names. table_line fl line = Some (zone, l)) \<and>
      (\<exists>n d m s. tl_latitude l = fl n d m s \<and> on_globe 90 d m s) \<and>
      (\<exists>n d m s. tl_longitude l = fl n d m s \<and> on_globe 180 d m s))"

lemma locations_located: "zone_locations fl table zone = Some l \<Longrightarrow> zone \<in> names \<Longrightarrow> located fl table names l"
  unfolding located_def using zone_locations_Some table_line_Some by fast

text \<open>
  C38: the catalogue has exactly one entry for each installed zone, in order of the names, whatever
  the zone table and the database contain. A zone unknown to the database has neither offset nor
  place; a known one has the database's offset at the instant, as a 32-bit number, and its place, if
  any, is that of a line of the zone table for the zone or the zone it links to, with a latitude of at
  most 90 and a longitude of at most 180 degrees.
\<close>

theorem timezone_catalog_exact:
  "map tz_id (tc_zones (readTimezoneCatalog fl zone_info installed instant table)) = sorted_list_of_set (set installed) \<and>
   (\<forall>z\<in>set (tc_zones (readTimezoneCatalog fl zone_info installed instant table)).
      case zone_info (tz_id z) instant of
        None \<Rightarrow> tz_utc_offset_seconds z = None \<and> tz_location z = None
      | Some (offset, canonical) \<Rightarrow>
          tz_utc_offset_seconds z = Some (to_int32 offset) \<and>
          (\<forall>l. tz_location z = Some l \<longrightarrow> located fl table {tz_id z, canonical} l))"
proof (intro conjI ballI)
  have ids: "tz_id \<circ> catalog_entry zone_info instant ls = (\<lambda>n. n)" for ls
    by (rule ext) (simp add: catalog_entry_def split: option.split)
  then show "map tz_id (tc_zones (readTimezoneCatalog fl zone_info installed instant table)) = sorted_list_of_set (set installed)"
    by (simp add: readTimezoneCatalog_def sorted_names)
next
  fix z
  assume "z \<in> set (tc_zones (readTimezoneCatalog fl zone_info installed instant table))"
  then obtain name where z: "z = catalog_entry zone_info instant (zone_locations fl table) name"
    by (auto simp: readTimezoneCatalog_def)
  then have name: "tz_id z = name" by (simp add: catalog_entry_def split: option.split)
  show "case zone_info (tz_id z) instant of
        None \<Rightarrow> tz_utc_offset_seconds z = None \<and> tz_location z = None
      | Some (offset, canonical) \<Rightarrow>
          tz_utc_offset_seconds z = Some (to_int32 offset) \<and>
          (\<forall>l. tz_location z = Some l \<longrightarrow> located fl table {tz_id z, canonical} l)"
    by (auto simp: name z catalog_entry_def locations_located split: option.splits)
qed

text \<open>Floating-point numbers stand for themselves in an example.\<close>

definition example_angle :: angle where
  "example_angle negative d m s = word_of_int ((if negative then -1 else 1) * (3600 * d + 60 * m + s))"

definition example_table :: string where
  "example_table = ''# comment'' @ [line_feed] @ ''CA +4339-07923 America/Toronto'' @ [line_feed] @
     ''NP +2743+08519 Asia/Kathmandu'' @ [line_feed] @ ''XX invalid UTC'' @ [line_feed]"

definition example_zones :: "string \<Rightarrow> int \<Rightarrow> (int \<times> string) option" where
  "example_zones name t =
     (if name = ''UTC'' then Some (0, ''Etc/UTC'') else if name = ''America/Toronto'' then Some (-18000, name)
      else if name = ''Canada/Eastern'' then Some (-18000, ''America/Toronto'') else None)"

definition example_catalog :: timezone_catalog where
  "example_catalog = readTimezoneCatalog example_angle example_zones
     [''UTC'', ''Canada/Eastern'', ''Not/Installed'', ''UTC''] 0 example_table"

lemma example_catalog_zones: "tc_zones example_catalog =
   [\<lparr>tz_id = ''Canada/Eastern'', tz_utc_offset_seconds = Some (-18000),
      tz_location = Some \<lparr>tl_latitude = 157140, tl_longitude = - 285780\<rparr>\<rparr>,
    \<lparr>tz_id = ''Not/Installed'', tz_utc_offset_seconds = None, tz_location = None\<rparr>,
    \<lparr>tz_id = ''UTC'', tz_utc_offset_seconds = Some 0, tz_location = None\<rparr>]"
  by code_simp

theorem timezone_catalog_exact_witness:
  "map tz_id (tc_zones example_catalog) = sorted_list_of_set {''Canada/Eastern'', ''Not/Installed'', ''UTC''} \<and>
   located example_angle example_table {''Canada/Eastern'', ''America/Toronto''}
     \<lparr>tl_latitude = 157140, tl_longitude = - 285780\<rparr>"
  using timezone_catalog_exact [of example_angle example_zones "[''UTC'', ''Canada/Eastern'', ''Not/Installed'', ''UTC'']"
      0 example_table, folded example_catalog_def]
  by (simp add: example_catalog_zones insert_commute) (simp add: example_zones_def)

end
