(* ===== verification/Clock_Handover.thy ===== *)
theory Clock_Handover
  imports Native_Platform Scenario
begin

text \<open>
  Applying preferences on the native platform: the old time source is down before a new one is
  started. The proof follows the trace of bus calls and observed unit states.
\<close>

section \<open>Traces\<close>

definition trace :: "'b host \<Rightarrow> platform_event list" where
  "trace w = mc_trace (wd_platform w)"

text \<open>What was added to a trace satisfies \<open>G\<close>.\<close>

definition traced :: "platform_event list \<Rightarrow> (platform_event list \<Rightarrow> bool) \<Rightarrow> 'b host \<Rightarrow> bool" where
  "traced T G w = (\<exists>t. trace w = T @ t \<and> G t)"

named_theorems trace_keeps \<open>operations that keep a property of the trace\<close>

lemma traced_note: "(\<And>t. G t \<Longrightarrow> G (t @ [e])) \<Longrightarrow> keeps (traced T G) (note_event e)"
  by (fastforce simp: keeps_def traced_def trace_def note_event_def on_platform_def modify_def)

lemma traced_silent [trace_keeps]:
  "keeps (traced T G) (on_os f)" "keeps (traced T G) (on_fs m)" "keeps (traced T G) (ask_os g)"
  "keeps (traced T G) (checked O' r)" "keeps (traced T G) (sleep_for ms)" "keeps (traced T G) (steady_now O')"
  by (auto simp: keeps_def traced_def trace_def on_os_def on_platform_def on_fs_def ask_os_def gets_def checked_def
      throw_def ret_def sleep_for_def modify_def steady_now_def seq_def bind_def
      split: prod.splits sum.splits)

lemma traced_open [trace_keeps]: "keeps (traced T G) (open_bus O')"
  unfolding open_bus_def by (intro keeps_rules trace_keeps)

definition start_call :: "platform_event \<Rightarrow> bool" where
  "start_call e = (\<exists>args. e = Call systemd ''StartUnit'' args)"

lemma traced_call:
  assumes "\<And>t. G t \<Longrightarrow> G (t @ [Call dest member args])"
  shows "keeps (traced T G) (bus_call O' dest path iface member args)"
  unfolding bus_call_def using assms by (intro keeps_rules trace_keeps traced_note)

lemma traced_property [trace_keeps]: "keeps (traced T G) (bus_property O' dest path iface name)"
  unfolding bus_property_def by (intro keeps_rules trace_keeps)

lemma traced_unitState:
  assumes "\<And>t e. G t \<Longrightarrow> \<not> start_call e \<Longrightarrow> G (t @ [e])"
  shows "keeps (traced T G) (unitState O' unit)"
  unfolding unitState_def systemd_call_def
  by (intro keeps_rules trace_keeps traced_call traced_note assms) (simp_all add: start_call_def)

lemma traced_unit_wait:
  assumes "\<And>t e. G t \<Longrightarrow> \<not> start_call e \<Longrightarrow> G (t @ [e])"
  shows "keeps (traced T G) (unit_wait O' name up deadline)"
  by (intro keeps_unit_wait traced_unitState assms keeps_rules trace_keeps)

lemma traced_stop:
  assumes "\<And>t e. G t \<Longrightarrow> \<not> start_call e \<Longrightarrow> G (t @ [e])"
  shows "keeps (traced T G) (unit_transition O' name False)"
  unfolding unit_transition_def systemd_call_def
  by (intro keeps_rules trace_keeps traced_unitState traced_unit_wait traced_call)
     (simp_all add: assms start_call_def)

lemma traced_start:
  assumes "\<And>t e. G t \<Longrightarrow> G (t @ [e])"
  shows "keeps (traced T G) (unit_transition O' name up)"
  unfolding unit_transition_def systemd_call_def
  by (intro keeps_rules trace_keeps traced_unitState traced_unit_wait traced_call) (simp_all add: assms)

section \<open>Units that are down\<close>

definition seen_down :: "string \<Rightarrow> platform_event list \<Rightarrow> bool" where
  "seen_down u t = (u = [] \<or> Seen u ''inactive'' \<in> set t \<or> Seen u ''failed'' \<in> set t)"

lemma traced_both: "traced T G w \<Longrightarrow> traced T H w \<Longrightarrow> traced T (\<lambda>t. G t \<and> H t) w"
  by (auto simp: traced_def)

lemma traced_mono: "traced T G w \<Longrightarrow> (\<And>t. G t \<Longrightarrow> H t) \<Longrightarrow> traced T H w"
  by (auto simp: traced_def)

lemma wp_note:
  "wp (note_event e) Q R w = Q () (w\<lparr>wd_platform := (wd_platform w)\<lparr>mc_trace := trace w @ [e]\<rparr>\<rparr>)"
  by (simp add: wp_def note_event_def on_platform_def modify_def trace_def)

lemma unitState_seen:
  fixes w :: "'b host"
  assumes "traced T (\<lambda>_. True) w"
  shows "wp (unitState O' u) (\<lambda>st w'. unit_settled False st \<longrightarrow> traced T (seen_down u) w') (\<lambda>_ _. True) w"
proof (cases "u = []")
  case True
  with assms show ?thesis by (simp add: unitState_def wp_ret seen_down_def [abs_def])
next
  case False
  have noted: "wp (seq (note_event (Seen u st)) (ret st))
      (\<lambda>st w'. unit_settled False st \<longrightarrow> traced T (seen_down u) w') (\<lambda>_ _. True) v" if "traced T (\<lambda>_. True) v" for st v
    using that by (auto simp: wp_seq wp_ret wp_note unit_settled_def traced_def trace_def seen_down_def)
  have "keeps (traced T (\<lambda>_. True)) (systemd_call O' ''LoadUnit'' [Arg_s u])"
    unfolding systemd_call_def by (rule traced_call) simp
  then show ?thesis
    unfolding unitState_def wp_if wp_bind if_not_P [OF False]
  proof (rule keeps_then [where I = "traced T (\<lambda>_. True)", OF _ assms])
    fix reply and v :: "'b host"
    assume v: "traced T (\<lambda>_. True) v"
    show "wp (case reply of Object path \<Rightarrow>
            bind (bus_property O' systemd path ''org.freedesktop.systemd1.Unit'' ''ActiveState'') (\<lambda>st.
            seq (note_event (Seen u st)) (ret st))
        | _ \<Rightarrow> throw (Error unavailable ''invalid unit reply''))
        (\<lambda>st w'. unit_settled False st \<longrightarrow> traced T (seen_down u) w') (\<lambda>_ _. True) v"
      by (cases reply) (auto simp: wp_throw wp_bind intro: keeps_then [OF traced_property v] noted)
  qed simp
qed

lemma unit_wait_seen:
  "traced T (\<lambda>_. True) w \<Longrightarrow> unit_wait O' u False deadline w = (Inr (), w') \<Longrightarrow> traced T (seen_down u) w'"
proof (induction O' u False deadline w rule: unit_wait.induct)
  case (1 O' u deadline w)
  obtain r w1 where r: "unitState O' u w = (r, w1)" by fastforce
  have w1: "traced T (\<lambda>_. True) w1"
    using keeps_run [OF traced_unitState r 1(2)] by simp
  obtain s w2 where s: "seq (sleep_for 50) (steady_now O') w1 = (s, w2)" by fastforce
  have "keeps (traced T (\<lambda>_. True)) (seq (sleep_for 50) (steady_now O'))" by (intro keeps_rules trace_keeps)
  from keeps_run [OF this s w1] have w2: "traced T (\<lambda>_. True) w2" .
  note seen = unitState_seen [OF 1(2), of O' u, unfolded wp_run [of "unitState O' u" w r w1, OF r]]
  show ?case
    using 1(3) seen 1(1) [OF r [symmetric] _ _ _ s [symmetric] _ _ w2]
    by (subst (asm) unit_wait.simps) (auto simp: r s split: sum.splits if_splits)
qed

lemma stop_seen:
  fixes w :: "'b host"
  assumes "traced T (\<lambda>_. True) w" and "unit_transition O' u False w = (Inr (), w')"
  shows "traced T (seen_down u) w'"
proof -
  obtain r w1 where r: "unitState O' u w = (r, w1)" by fastforce
  have w1: "traced T (\<lambda>_. True) w1"
    using keeps_run [OF traced_unitState r assms(1)] by simp
  let ?before = "systemd_call O' ''StopUnit'' [Arg_s u, Arg_s ''replace'']"
  have waits: "wp (bind (steady_now O') (\<lambda>now. unit_wait O' u False (now + 10000)))
      (\<lambda>_. traced T (seen_down u)) (\<lambda>_ _. True) v" if v: "traced T (\<lambda>_. True) v" for v :: "'b host"
    unfolding wp_bind
  proof (rule keeps_then [OF traced_silent(6) v])
    fix now and v' :: "'b host"
    assume "traced T (\<lambda>_. True) v'"
    then show "wp (unit_wait O' u False (now + 10000)) (\<lambda>_. traced T (seen_down u)) (\<lambda>_ _. True) v'"
      by (intro wp_eqI) (auto dest: unit_wait_seen)
  qed simp
  have "keeps (traced T (\<lambda>_. True)) ?before"
    unfolding systemd_call_def by (rule traced_call) simp
  then have "wp (bind ?before (\<lambda>_. bind (steady_now O') (\<lambda>now. unit_wait O' u False (now + 10000))))
      (\<lambda>_. traced T (seen_down u)) (\<lambda>_ _. True) w1"
    unfolding wp_bind [of ?before] by (rule keeps_then [where s = w1]) (simp_all add: w1 waits)
  then show ?thesis
    using assms(2) unitState_seen [OF assms(1), of O' u, unfolded wp_run [of "unitState O' u" w r w1, OF r]]
    by (auto simp: unit_transition_def bind_def [of "unitState O' u"] r ret_def dest: wp_Inr split: sum.splits if_splits)
qed

section \<open>The order of the handover\<close>

text \<open>Before any unit is started: no start call, and the units of \<open>D\<close> have been seen down.\<close>

definition before_start :: "string set \<Rightarrow> platform_event list \<Rightarrow> bool" where
  "before_start D t = ((\<forall>e\<in>set t. \<not> start_call e) \<and> (\<forall>u\<in>D. seen_down u t))"

text \<open>Every start call comes after the units of \<open>D\<close> have been seen down.\<close>

definition handed_over :: "string set \<Rightarrow> platform_event list \<Rightarrow> bool" where
  "handed_over D t = (\<forall>t1 args t2. t = t1 @ Call systemd ''StartUnit'' args # t2 \<longrightarrow> (\<forall>u\<in>D. seen_down u t1))"

lemma seen_down_append: "seen_down u t \<Longrightarrow> seen_down u (t @ t')"
  by (auto simp: seen_down_def)

lemma before_start_append: "before_start D t \<Longrightarrow> \<not> start_call e \<Longrightarrow> before_start D (t @ [e])"
  by (auto simp: before_start_def seen_down_append)

lemma before_start_handed: "before_start D t \<Longrightarrow> handed_over E t"
  by (auto simp: before_start_def handed_over_def start_call_def)

lemma handed_append:
  assumes "(\<forall>u\<in>D. seen_down u t) \<and> handed_over D t"
  shows "(\<forall>u\<in>D. seen_down u (t @ [e])) \<and> handed_over D (t @ [e])"
  using assms by (auto simp: handed_over_def append_Cons_snoc seen_down_append)

lemma stops_seen:
  fixes w :: "'b host"
  assumes "traced T (before_start D) w"
  shows "wp (for_io (\<lambda>name. unit_transition O' name False) names)
    (\<lambda>_. traced T (before_start (D \<union> set names))) (\<lambda>_. traced T (before_start D)) w"
  using assms
proof (induction names arbitrary: D w)
  case Nil
  then show ?case by (simp add: wp_ret)
next
  case (Cons u names)
  have kept: "keeps (traced T (before_start D)) (unit_transition O' u False)"
    by (rule traced_stop) (rule before_start_append)
  show ?case
    unfolding for_io.simps wp_seq
  proof (rule wp_eqI)
    fix x w'
    assume run: "unit_transition O' u False w = (Inr x, w')"
    have "traced T (before_start (insert u D)) w'"
      using traced_both [OF keeps_run [OF kept run Cons.prems] stop_seen [of T w O' u w']] run
        traced_mono [OF Cons.prems]
      by (auto elim: traced_mono simp: before_start_def)
    from Cons.IH [OF this]
    show "wp (for_io (\<lambda>name. unit_transition O' name False) names) (\<lambda>_. traced T (before_start (D \<union> set (u # names))))
        (\<lambda>_. traced T (before_start D)) w'"
      by (rule wp_mono) (auto elim: traced_mono simp: before_start_def)
  next
    fix e w'
    assume "unit_transition O' u False w = (Inl e, w')"
    from keeps_run [OF kept this Cons.prems] show "traced T (before_start D) w'" .
  qed
qed

text \<open>The operations that never start a unit.\<close>

lemma keeps_before_quiet:
  "keeps (traced T (before_start D)) (reloadNetwork O' configs)"
  "keeps (traced T (before_start D)) (name_calls O' c)"
  unfolding reloadNetwork_def network_call_def name_calls_def
  by (intro keeps_rules trace_keeps traced_call; simp add: before_start_append start_call_def systemd_def)+

lemma traced_files [trace_keeps]:
  "keeps (traced T G) (runtimeTimezone O' profile zone)"
  "keeps (traced T G) (native_bootHostname O' profile hostname)"
  "keeps (traced T G) (native_sshBootPolicy profile enabled)"
  unfolding runtimeTimezone_def native_bootHostname_def native_sshBootPolicy_def Let_def
  by (intro keeps_rules trace_keeps)+

lemma keeps_wp_any: "keeps I m \<Longrightarrow> I s \<Longrightarrow> (\<And>s'. I s' \<Longrightarrow> P s') \<Longrightarrow> wp m (\<lambda>_. P) (\<lambda>_. P) s"
  by (simp add: wp_state keepsD)

lemma finished_handover:
  fixes w :: "'b host"
  assumes "traced T (before_start D) w"
  shows "wp (seq (for_io (\<lambda>name. unit_transition O' name True) names)
     (seq (native_sshBootPolicy profile enabled)
     (seq (unit_transition O' socket enabled)
       (cond (\<not> enabled) (unit_transition O' service False)))))
    (\<lambda>_. traced T (handed_over D)) (\<lambda>_. traced T (handed_over D)) w"
proof (rule keeps_wp_any)
  let ?I = "traced T (\<lambda>t. (\<forall>u\<in>D. seen_down u t) \<and> handed_over D t)"
  have units: "keeps ?I (unit_transition O' name up)" for name up
    by (rule traced_start) (rule handed_append)
  show "keeps ?I (seq (for_io (\<lambda>name. unit_transition O' name True) names)
     (seq (native_sshBootPolicy profile enabled)
     (seq (unit_transition O' socket enabled)
       (cond (\<not> enabled) (unit_transition O' service False)))))"
    by (intro keeps_rules trace_keeps units)
  show "?I w" using assms by (auto elim!: traced_mono simp: before_start_handed before_start_def)
qed (auto elim: traced_mono)

lemma units_handed_over:
  fixes w :: "'b host"
  assumes "traced T (before_start {}) w"
  shows "wp (seq (for_io (\<lambda>name. unit_transition O' name False) (cu_stop clocks))
     (seq (cond restart (for_io (\<lambda>name. unit_transition O' name False) ntp_units))
     (seq (cond reload (reloadNetwork O' configs))
     (seq (for_io (\<lambda>name. unit_transition O' name True) (cu_start clocks))
     (seq (native_sshBootPolicy profile enabled)
     (seq (unit_transition O' socket enabled)
       (cond (\<not> enabled) (unit_transition O' service False))))))))
    (\<lambda>_. traced T (handed_over (set (cu_stop clocks)))) (\<lambda>_. traced T (handed_over (set (cu_stop clocks)))) w"
    (is "wp (seq ?stop (seq ?restart (seq ?reload ?rest))) ?Q ?R w")
proof -
  let ?D = "set (cu_stop clocks)" and ?B = "\<lambda>D. traced T (before_start D) :: 'b host \<Rightarrow> bool"
  have stopped: "keeps (?B D) (for_io (\<lambda>name. unit_transition O' name False) names)" for names D
    by (intro keeps_rules traced_stop before_start_append)
  have quiet: "keeps (?B ?D) (seq ?restart ?reload)"
    by (intro keeps_rules stopped keeps_before_quiet)
  have late: "?B D v \<Longrightarrow> traced T (handed_over ?D) v" for D v
    by (auto elim: traced_mono simp: before_start_handed)
  have "wp (seq ?restart ?reload) (\<lambda>_. wp ?rest ?Q ?R) ?R v" if "?B ?D v" for v
    using quiet that by (rule keeps_then) (auto intro: finished_handover late)
  then have rest: "wp (seq ?restart (seq ?reload ?rest)) ?Q ?R v" if "?B ?D v" for v
    unfolding wp_seq [of ?restart] wp_seq [of ?reload] using that .
  show ?thesis
    unfolding wp_seq [of ?stop]
    using stops_seen [OF assms, of O' "cu_stop clocks"]
    by (elim wp_mono) (auto intro: late rest)
qed

section \<open>Properties\<close>

text \<open>Either no unit was started, or every start comes after the units to be stopped were seen down.\<close>

definition safe_handover :: "profile \<Rightarrow> time_preferences \<Rightarrow> platform_event list \<Rightarrow> bool" where
  "safe_handover profile time t =
     ((\<forall>e\<in>set t. \<not> start_call e) \<or>
      (\<exists>u. clockUnits profile time = Inr u \<and> handed_over (set (cu_stop u)) t))"

lemma preferences_traced:
  fixes w :: "'b host"
  shows "wp (native_preferences O' profile c) (\<lambda>_. traced (trace w) (safe_handover profile (cf_time c)))
    (\<lambda>_. traced (trace w) (safe_handover profile (cf_time c))) w"
    (is "wp _ (\<lambda>_. ?S) (\<lambda>_. ?S) w")
proof -
  let ?B = "traced (trace w) (before_start {}) :: 'b host \<Rightarrow> bool"
  let ?names = "if pf_runtime_etc_directory profile \<noteq> []
    then seq (runtimeTimezone O' profile (tp_timezone (cf_time c)))
           (native_bootHostname O' profile (pr_hostname (cf_system c)))
    else name_calls O' c"
  have start: "?B w" by (auto simp: traced_def before_start_def)
  have quiet: "?B v \<Longrightarrow> ?S v" for v
    by (auto elim!: traced_mono simp: before_start_def safe_handover_def)
  have over: "clockUnits profile (cf_time c) = Inr u \<Longrightarrow> traced (trace w) (handed_over (set (cu_stop u))) v \<Longrightarrow> ?S v" for u v
    by (auto elim!: traced_mono simp: safe_handover_def)
  have head: "keeps ?B ?names" "keeps ?B (on_fs (writeClockPolicy profile (cf_time c) ''/run''))"
    by (intro keeps_rules trace_keeps keeps_before_quiet)+
  show ?thesis
    unfolding native_preferences_def wp_seq [of "open_bus O'"] wp_seq [of ?names] wp_bind wp_of_result
    by (rule keeps_then [OF traced_open start] keeps_then [OF head(1)] keeps_then [OF head(2)] quiet | assumption)+
       (auto split: sum.split intro: quiet wp_mono [OF units_handed_over] over)
qed

text \<open>
  C10: the old time source is down before the new one is started. However applying preferences
  ends, each start call it has sent comes after every unit that has to be stopped was observed
  inactive or failed in the same run; so no two time sources are made to run together, and a unit that
  cannot be stopped in time prevents the start.
\<close>

theorem clock_handover:
  "\<exists>t. mc_trace (wd_platform (snd (native_preferences O' profile c w))) = mc_trace (wd_platform w) @ t \<and>
     (\<forall>t1 args t2. t = t1 @ Call systemd ''StartUnit'' args # t2 \<longrightarrow>
        (\<exists>u. clockUnits profile (cf_time c) = Inr u \<and> (\<forall>n\<in>set (cu_stop u). seen_down n t1)))"
  using preferences_traced [of O' profile c w]
  by (fastforce simp: wp_state traced_def trace_def safe_handover_def handed_over_def start_call_def)

text \<open>A small machine: its state is the list of active units.\<close>

definition example_os :: "string list os" where
  "example_os =
     \<lparr>os_open_system = (\<lambda>b. (True, b)),
      os_call = (\<lambda>dest path iface member args b.
        case args of
          Arg_s unit # _ \<Rightarrow>
            (if member = ''LoadUnit'' then (Inr (Object unit), b)
             else if member = ''StartUnit'' then (Inr (Object unit), unit # b)
             else if member = ''StopUnit'' then (Inr (Object unit), filter (\<lambda>u. u \<noteq> unit) b)
             else (Inr Nothing, b))
        | _ \<Rightarrow> (Inr Nothing, b)),
      os_property = (\<lambda>dest path iface name b. (Inr (Some
        (if name = ''Hostname'' then ''device'' else if name = ''Timezone'' then ''UTC''
         else if path \<in> set b then ''active'' else ''inactive'')), b)),
      os_strerror = (\<lambda>_. []), os_elapsed = (\<lambda>b. (1, b)), os_nametoindex = (\<lambda>_ _. 2), os_of_node = (\<lambda>_ _. None),
      os_read_link = (\<lambda>_. None), os_ntop6 = (\<lambda>_. []), os_sethostname = (\<lambda>_ b. (True, b)),
      os_is_regular = (\<lambda>_ _. True), os_net_entries = (\<lambda>_. []), os_socket_opens = (\<lambda>_. True),
      os_ts_info = (\<lambda>_ _. None), os_uname = (\<lambda>_. None), os_realtime = (\<lambda>_. Some (0, 0)), os_gmtoff = (\<lambda>_ _. 0),
      os_strftime = (\<lambda>_ _ _. []), os_hwmon = (\<lambda>_. None), os_zone_table = (\<lambda>_. []), os_zone_info = (\<lambda>_ _ _. None),
      os_system_clock = (\<lambda>_. 0)\<rparr>"

definition example_host :: "string list host" where
  "example_host = \<lparr>wd_fs = empty_fs, wd_platform =
     \<lparr>mc_steady = 0, mc_trace = [], mc_os = [''systemd-timesyncd.service'']\<rparr>\<rparr>"

definition irig_profile :: profile where
  "irig_profile = default_profile\<lparr>pf_irig_units := [''irig.service'']\<rparr>"

definition irig_configuration :: configuration where
  "irig_configuration = default_configuration
     \<lparr>cf_time := default_time_preferences\<lparr>tp_synchronization := ''irig''\<rparr>\<rparr>"

lemma example_stop:
  "mc_os (wd_platform w) = [''systemd-timesyncd.service''] \<Longrightarrow>
   unit_transition example_os ''systemd-timesyncd.service'' False w =
     (Inr (), w\<lparr>wd_platform := (wd_platform w)\<lparr>mc_os := [], mc_steady := mc_steady (wd_platform w) + 1,
        mc_trace := mc_trace (wd_platform w) @
          [Call systemd ''LoadUnit'' [Arg_s ''systemd-timesyncd.service''],
           Seen ''systemd-timesyncd.service'' ''active'',
           Call systemd ''StopUnit'' [Arg_s ''systemd-timesyncd.service'', Arg_s ''replace''],
           Call systemd ''LoadUnit'' [Arg_s ''systemd-timesyncd.service''],
           Seen ''systemd-timesyncd.service'' ''inactive'']\<rparr>\<rparr>)"
  by (simp add: unit_transition_def unitState_def systemd_call_def bus_call_def bus_property_def on_os_def
      on_platform_def note_event_def modify_def bind_def seq_def ret_def checked_def example_os_def unit_settled_def
      steady_now_def gets_def unit_wait.simps)

lemma example_start:
  "mc_os (wd_platform w) = [] \<Longrightarrow>
   Call systemd ''StartUnit'' [Arg_s ''irig.service'', Arg_s ''replace''] \<in> set (trace (snd
     (unit_transition example_os ''irig.service'' True w)))"
  by (simp add: unit_transition_def unitState_def systemd_call_def bus_call_def bus_property_def on_os_def
      on_platform_def note_event_def modify_def bind_def seq_def ret_def checked_def example_os_def unit_settled_def
      steady_now_def gets_def unit_wait.simps trace_def)

lemma example_units: "clockUnits irig_profile (cf_time irig_configuration) =
    Inr \<lparr>cu_stop = [''systemd-timesyncd.service''], cu_start = [''irig.service'']\<rparr>"
  by code_simp

lemma example_start_sent:
  assumes "mc_os (wd_platform w) = []"
  shows "wp (seq (for_io (\<lambda>name. unit_transition example_os name True) [''irig.service''])
     (seq (native_sshBootPolicy profile enabled)
     (seq (unit_transition example_os socket enabled)
       (cond (\<not> enabled) (unit_transition example_os service False)))))
    (\<lambda>_. traced [] (\<lambda>t. \<exists>e\<in>set t. start_call e)) (\<lambda>_. traced [] (\<lambda>t. \<exists>e\<in>set t. start_call e)) w"
    (is "wp (seq ?start ?rest) (\<lambda>_. ?S) (\<lambda>_. ?S) w")
proof -
  have "wp (unit_transition example_os ''irig.service'' True) (\<lambda>_. ?S) (\<lambda>_. ?S) w"
    using example_start [OF assms] by (force simp: wp_state traced_def start_call_def)
  moreover have "keeps ?S ?rest"
    by (intro keeps_rules trace_keeps traced_start) auto
  ultimately show ?thesis
    unfolding for_io.simps wp_seq wp_ret keeps_wp by (auto elim: wp_mono)
qed

definition same_machine :: "'b host \<Rightarrow> 'b host \<Rightarrow> bool" where
  "same_machine w v = (wd_fs v = wd_fs w \<and> mc_os (wd_platform v) = mc_os (wd_platform w))"

lemma example_calls:
  "wp (open_bus example_os) (\<lambda>_. same_machine w) (\<lambda>_ _. False) w"
  "wp (name_calls example_os c) (\<lambda>_. same_machine w) (\<lambda>_ _. False) w"
  "wp (reloadNetwork example_os []) (\<lambda>_. same_machine w) (\<lambda>_ _. False) w"
  by (simp_all add: open_bus_def name_calls_def reloadNetwork_def network_call_def bus_call_def on_os_def
      on_platform_def note_event_def modify_def bind_def seq_def ret_def checked_def example_os_def guard_def
      wp_def same_machine_def)

lemma irig_policy:
  "wp (writeClockPolicy irig_profile (cf_time irig_configuration) ''/run'') (\<lambda>_ _. True) (\<lambda>_ _. False) empty_fs"
proof (rule quiet_writeClockPolicy)
  show "valid_runtime_root (pf_runtime_root irig_profile)"
    by (simp add: irig_profile_def default_defs valid_runtime_root_def parent_def filename_def path_of_def runtime_chars_def)
  show "wf_time (cf_time irig_configuration)"
    by (simp add: irig_configuration_def wf_time_def default_defs valid_timezone_def timezone_char_def char_class starts_with_def)
qed (simp_all add: quiet_def empty_fs_def calm_def irig_profile_def irig_configuration_def default_defs)

lemma example_start_reached:
  "wp (native_preferences example_os irig_profile irig_configuration)
     (\<lambda>_. traced [] (\<lambda>t. \<exists>e\<in>set t. start_call e)) (\<lambda>_. traced [] (\<lambda>t. \<exists>e\<in>set t. start_call e)) example_host"
proof -
  have plain: "pf_runtime_etc_directory irig_profile = []" "pr_network (cf_system irig_configuration) = []"
    "tp_synchronization (cf_time irig_configuration) \<noteq> ''ntp''"
    by (simp_all add: irig_profile_def irig_configuration_def default_defs)
  let ?S = "traced [] (\<lambda>t. \<exists>e\<in>set t. start_call e) :: string list host \<Rightarrow> bool"
  have stopped: "wp (for_io (\<lambda>name. unit_transition example_os name False) [''systemd-timesyncd.service''])
      (\<lambda>_ v. mc_os (wd_platform v) = []) (\<lambda>_ _. False) w" if "mc_os (wd_platform w) = [''systemd-timesyncd.service'']" for w
    using that by (simp add: wp_seq wp_ret wp_run [OF example_stop])
  have reload: "wp (cond b (reloadNetwork example_os [])) (\<lambda>_ v. mc_os (wd_platform v) = []) (\<lambda>_ _. False) w"
    if "mc_os (wd_platform w) = []" for b w
    using that example_calls(3) [of w] by (auto simp: wp_cond same_machine_def elim: wp_mono)
  have policy: "wp (on_fs (writeClockPolicy irig_profile (cf_time irig_configuration) ''/run''))
      (\<lambda>_ v. mc_os (wd_platform v) = [''systemd-timesyncd.service'']) (\<lambda>_ _. False) w"
    if "same_machine example_host w" for w
    using irig_policy that
    by (intro on_fs_wp) (auto simp: same_machine_def example_host_def elim!: wp_mono)
  have names: "wp (name_calls example_os irig_configuration) (\<lambda>_. same_machine example_host) (\<lambda>_ _. False) w"
    if "same_machine example_host w" for w
    using example_calls(2) [of irig_configuration w] that by (auto simp: same_machine_def elim: wp_mono)
  have tail: "wp (seq (for_io (\<lambda>name. unit_transition example_os name False) [''systemd-timesyncd.service''])
      (seq (cond False m) (seq (cond b' (reloadNetwork example_os [])) (seq (for_io (\<lambda>name. unit_transition example_os name True) [''irig.service''])
        (seq (native_sshBootPolicy profile enabled) (seq (unit_transition example_os socket enabled)
          (cond (\<not> enabled) (unit_transition example_os service False))))))))
      (\<lambda>_. ?S) (\<lambda>_. ?S) w" if "mc_os (wd_platform w) = [''systemd-timesyncd.service'']" for b' m profile enabled socket service w
    unfolding wp_seq [of "for_io (\<lambda>name. unit_transition example_os name False) _"] wp_seq [of "cond _ _"] wp_cond [of False]
    by (rule wp_mono [OF stopped [OF that]]) (auto simp del: for_io.simps elim!: wp_mono [OF reload] intro: example_start_sent)
  show ?thesis
    unfolding native_preferences_def plain wp_seq [of "open_bus _"] wp_seq [of "if _ then _ else name_calls _ _"]
      wp_bind wp_of_result example_units sum.case clock_units.select_convs
    using plain(3)
    by (auto simp del: for_io.simps
        intro!: wp_mono [OF example_calls(1)] wp_mono [OF names] wp_mono [OF policy] tail)
qed

theorem clock_handover_witness:
  "\<exists>t1 args t2. mc_trace (wd_platform (snd (native_preferences example_os irig_profile irig_configuration example_host)))
       = t1 @ Call systemd ''StartUnit'' args # t2 \<and> seen_down ''systemd-timesyncd.service'' t1"
proof -
  let ?t = "mc_trace (wd_platform (snd (native_preferences example_os irig_profile irig_configuration example_host)))"
  from example_start_reached obtain e where "e \<in> set ?t" "start_call e"
    by (auto simp: wp_state traced_def trace_def)
  then obtain t1 args t2 where t: "?t = t1 @ Call systemd ''StartUnit'' args # t2"
    by (auto simp: start_call_def dest!: split_list)
  have "mc_trace (wd_platform example_host) = []" by (simp add: example_host_def)
  with t have "seen_down ''systemd-timesyncd.service'' t1"
    using clock_handover [of example_os irig_profile irig_configuration example_host] by (simp add: example_units)
  with t show ?thesis by blast
qed

end
