(* ===== verification/Native_Device.thy ===== *)
theory Native_Device
  imports Timezone_Catalog Clock_Handover
begin

text \<open>
  The daemon on the native platform: the backend, the storage primitives and the native platform's
  operations on one file system. None of the files the platform writes is the journal, so the
  invariant of the device holds for the composed program.
\<close>

section \<open>Writes elsewhere\<close>

text \<open>A file another operation leaves alone: its name in memory, on the disk, and its contents.\<close>

definition same_file :: "node \<Rightarrow> fs \<Rightarrow> fs \<Rightarrow> bool" where
  "same_file n f f' =
     (fs_names f' n = fs_names f n \<and> (fs_disk f' n = fs_disk f n \<or> fs_disk f' n = fs_names f n) \<and>
      (\<forall>i. fs_names f n = Some i \<or> fs_disk f n = Some i \<longrightarrow>
         fs_data f' i = fs_data f i \<and> fs_synced f' i = fs_synced f i))"

lemma same_file_holds: "holds n P f \<Longrightarrow> same_file n f f' \<Longrightarrow> wf_fs f' \<Longrightarrow> holds n P f'"
  by (cases "fs_names f n"; cases "fs_disk f n")
     (auto simp: holds_def same_file_def node_content_def survives_def survivor_def)

lemma atomicWrite_same_file:
  assumes "wf_fs f" and "plain p" and "lasting n" and "n \<noteq> locate p"
  shows "wp (atomicWrite p text) (\<lambda>_. same_file n f) (\<lambda>_. same_file n f) f"
proof -
  have tmp: "n \<noteq> locate (p @ CHR ''.'' # s @ ''.tmp'')" if "list_all hex_char s" "length s = 32" for s
    using lasting_temporary [OF assms(2) that(1) _ assms(3)] that(2) by fastforce
  have fresh: "fs_names f n \<noteq> Some (fs_fresh f)" "fs_disk f n \<noteq> Some (fs_fresh f)"
    using assms(1) by (auto simp: wf_fs_def)
  show ?thesis
    unfolding atomicWrite_def create_directories_def open_new_def Let_def replace_file_def fsync_def
      rename_def syncDirectory_def unlink_def
    by (simp only: wp_rules case_prod_conv split: if_split
        | intro wp_call wp_randomId wp_write_all conjI impI
        | use fresh assms(4) tmp in \<open>auto simp: same_file_def entries_def\<close>)+
qed

lemma atomicWrite_elsewhere_holds:
  assumes "plain p" and "lasting n" and "n \<noteq> locate p"
  shows "keeps (holds n P) (atomicWrite p text)"
proof (rule keepsI)
  fix f assume f: "holds n P f"
  then have "wf_fs f" by (simp add: holds_def)
  note both = wp_conj [OF atomicWrite_same_file [OF this assms] atomicWrite_spec [OF this assms(1)]]
  show "wp (atomicWrite p text) (\<lambda>_. holds n P) (\<lambda>_. holds n P) f"
    by (rule wp_mono [OF both]) (auto simp: write_spec_def intro: same_file_holds [OF f])
qed

lemma locate_journal: "locate (path_join d ''state.json'') = locate d @ [''state.json'']"
  by (rule locate_plain_name) (simp add: plain_name_def)

lemma lasting_journal: "lasting (journal_node p)"
  by (simp add: journal_node_def journal_path_def locate_journal lasting_def ends_with_def)

lemma apart_journal: "plain_name nm \<Longrightarrow> nm \<noteq> ''state.json'' \<Longrightarrow> locate (path_join d nm) \<noteq> journal_node p"
  by (simp add: journal_node_def journal_path_def locate_journal locate_plain_name(1))

lemma write_apart:
  assumes "plain_name nm" and "nm \<noteq> ''state.json''"
  shows "keeps (holds (journal_node p) P) (atomicWrite (path_join d nm) text)"
  using atomicWrite_elsewhere_holds [OF locate_plain_name(2) [OF assms(1)] lasting_journal] apart_journal [OF assms] by metis

section \<open>The native operations keep the journal\<close>

named_theorems journal_keeps \<open>operations that keep a property of the journal's file\<close>

lemma journal_calls [journal_keeps]:
  "keeps (holds n P) set_permissions" "keeps (holds n P) (create_directories d)" "keeps (holds n P) (missing_directories m)"
  "keeps (holds n P) (node_exists m)" "keeps (holds n P) (readFile limit p)" "keeps (holds n P) (durableRemove p)"
  "keeps (holds n P) bootMilliseconds" "keeps (holds n P) (read_symlink p)"
  unfolding set_permissions_def create_directories_def node_exists_def read_symlink_def
  by (intro keeps_rules keeps_simple_call readFile_holds durableRemove_holds bootMilliseconds_holds
      keepsI wp_missing_directories; simp split: option.split add: wp_rules)+

lemma readableWrite_apart:
  assumes "plain_name nm" and "nm \<noteq> ''state.json''"
  shows "keeps (holds (journal_node p) P) (readableWrite (path_join d nm) v)"
  unfolding readableWrite_def by (intro keeps_rules journal_keeps write_apart assms)

lemma plain_targets: "plain_name ''50-mnc-time.conf''" "plain_name ''90-mnc-time.conf''" "plain_name ''hostname''"
  "plain_name ''ssh-disabled''" "mode \<in> set modes \<Longrightarrow> plain_name (mode @ ''-disabled'')"
  by (auto simp: plain_name_def modes_def)

lemma server_policy_join: "server_policy runtime = path_join (path_join runtime ''systemd/timesyncd.conf.d'') ''90-mnc-time.conf''"
  using path_join_join [of "''systemd/timesyncd.conf.d''" runtime "''90-mnc-time.conf''"] by (simp add: server_policy_def)

lemma ports_apart: "keeps (holds (journal_node p) P) (port_policies time runtime changed ports)"
  by (induction ports arbitrary: changed)
     (auto simp: port_policy_def plain_targets intro!: keeps_rules journal_keeps readableWrite_apart)

lemma policy_apart [journal_keeps]: "keeps (holds (journal_node p) P) (writeClockPolicy profile time runtime)"
proof -
  have mode: "keeps (holds (journal_node p) P) (mode_step profile time runtime mode)" if "mode \<in> set modes" for mode
    unfolding mode_step_def mode_marker_def using that
    by (intro keeps_rules journal_keeps write_apart plain_targets) (auto simp: modes_def)
  then have markers: "keeps (holds (journal_node p) P) (for_io (mode_step profile time runtime) [''ntp'', ''ptp'', ''irig''])"
    by (simp add: modes_def keeps_seq keeps_ret)
  show ?thesis
    unfolding writeClockPolicy_def server_policy_join
    by (intro keeps_seq [OF markers] keeps_seq keeps_bind keeps_of_result keeps_guard keeps_ret ports_apart
        readableWrite_apart plain_targets) simp
qed

lemma symlink_apart:
  assumes "m \<noteq> n"
  shows "keeps (holds n P) (create_symlink target m)"
proof (rule keepsI)
  fix f assume f: "holds n P f"
  then have fresh: "fs_names f n \<noteq> Some (fs_fresh f)" "fs_disk f n \<noteq> Some (fs_fresh f)" "wf_fs f"
    by (auto simp: holds_def wf_fs_def)
  have "holds n P (f\<lparr>fs_schedule := x, fs_names := (fs_names f)(m := Some (fs_fresh f)),
      fs_data := (fs_data f)(fs_fresh f := target), fs_synced := (fs_synced f)(fs_fresh f := None), fs_fresh := Suc (fs_fresh f)\<rparr>)" for x
  proof (rule same_file_holds [OF f])
    show "wf_fs (f\<lparr>fs_schedule := x, fs_names := (fs_names f)(m := Some (fs_fresh f)),
      fs_data := (fs_data f)(fs_fresh f := target), fs_synced := (fs_synced f)(fs_fresh f := None), fs_fresh := Suc (fs_fresh f)\<rparr>)"
      using fresh(3) by (auto simp: wf_fs_def less_Suc_eq)
  qed (use fresh assms in \<open>auto simp: same_file_def\<close>)
  with f show "wp (create_symlink target m) (\<lambda>_. holds n P) (\<lambda>_. holds n P) f"
    unfolding create_symlink_def by (auto simp: wp_rules intro!: wp_call)
qed

lemma rename_apart:
  assumes "a \<noteq> n" and "b \<noteq> n"
  shows "keeps (holds n P) (rename_path a b)"
  unfolding rename_path_def
proof (rule keeps_simple_call)
  fix f assume f: "holds n P f"
  show "holds n P (f\<lparr>fs_names := (fs_names f)(b := fs_names f a, a := None)\<rparr>)"
    by (rule same_file_holds [OF f]) (use f assms in \<open>auto simp: same_file_def holds_def wf_fs_def\<close>)
qed

lemma path_join_append: "path_join d nm @ s = path_join d (nm @ s)"
  by (simp add: path_join_def)

lemma on_fs_bind: "bind (on_fs m) (\<lambda>x. on_fs (k x)) = on_fs (bind m k)"
  by (rule ext) (simp add: bind_def on_fs_def split: prod.split sum.split)

lemma on_fs_seq: "seq (on_fs m) (on_fs n) = on_fs (seq m n)"
  unfolding seq_def by (rule on_fs_bind)

lemma safe_platform [journal_keeps]:
  "keeps (journal_safe dec p) (on_os f)" "keeps (journal_safe dec p) (ask_os g)" "keeps (journal_safe dec p) (note_event e)"
  unfolding on_os_def ask_os_def note_event_def by (intro keeps_on_platform keeps_gets)+

lemma timezone_apart [journal_keeps]:
  "keeps (journal_safe dec p) (runtimeTimezone O' profile zone)"
proof -
  let ?path = "path_join (pf_runtime_etc_directory profile) ''localtime''"
  have link: "keeps (holds (journal_node p) P) (bind randomId (\<lambda>rid.
      seq (create_symlink (zone_target zone) (locate (?path @ ''.'' @ rid)))
        (rename_path (locate (?path @ ''.'' @ rid)) (locate ?path))))" for P
  proof (rule keepsI)
    fix f assume f: "holds (journal_node p) P f"
    have "locate (?path @ ''.'' @ rid) \<noteq> journal_node p" "locate ?path \<noteq> journal_node p" if "list_all hex_char rid" for rid
      using hex_no_slash [OF that]
      by (simp_all add: path_join_append apart_journal plain_name_def)
    then have "keeps (holds (journal_node p) P) (seq (create_symlink (zone_target zone) (locate (?path @ ''.'' @ rid)))
        (rename_path (locate (?path @ ''.'' @ rid)) (locate ?path)))" if "list_all hex_char rid" for rid
      using that by (intro keeps_rules symlink_apart rename_apart) auto
    with f show "wp (bind randomId (\<lambda>rid. seq (create_symlink (zone_target zone) (locate (?path @ ''.'' @ rid)))
        (rename_path (locate (?path @ ''.'' @ rid)) (locate ?path)))) (\<lambda>_. holds (journal_node p) P) (\<lambda>_. holds (journal_node p) P) f"
      unfolding wp_bind by (auto intro!: wp_randomId simp: keeps_wp)
  qed
  show ?thesis
    unfolding runtimeTimezone_def Let_def on_fs_seq on_fs_bind
    by (intro keeps_rules journal_keeps keeps_on_fs link)
qed

lemma safe_files [journal_keeps]:
  "keeps (journal_safe dec p) (on_fs (readFile limit path))" "keeps (journal_safe dec p) (on_fs set_permissions)"
  "keeps (journal_safe dec p) (on_fs (create_directories d))" "keeps (journal_safe dec p) (on_fs (durableRemove path))"
  "keeps (journal_safe dec p) (on_fs (writeClockPolicy profile time runtime))"
  "keeps (journal_safe dec p) (on_fs (read_symlink path))" "keeps (journal_safe dec p) (on_fs bootMilliseconds)"
  by (intro keeps_on_fs journal_keeps)+

lemma safe_write:
  "plain_name nm \<Longrightarrow> nm \<noteq> ''state.json'' \<Longrightarrow> keeps (journal_safe dec p) (on_fs (atomicWrite (path_join d nm) text))"
  by (intro keeps_on_fs write_apart)

lemma safe_bus [journal_keeps]:
  "keeps (journal_safe dec p) (open_bus O')" "keeps (journal_safe dec p) (bus_call O' dest path iface member args)"
  "keeps (journal_safe dec p) (bus_property O' dest path iface name)" "keeps (journal_safe dec p) (steady_now O')"
  "keeps (journal_safe dec p) (sleep_for ms)"
  unfolding open_bus_def bus_call_def bus_property_def checked_def steady_now_def sleep_for_def
  by (intro keeps_rules journal_keeps keeps_on_platform; auto split: sum.split intro: keeps_rules)+

lemma safe_units [journal_keeps]:
  "keeps (journal_safe dec p) (unitState O' name)" "keeps (journal_safe dec p) (unit_transition O' name up)"
proof -
  show st: "keeps (journal_safe dec p) (unitState O' name)" for name
    unfolding unitState_def systemd_call_def by (intro keeps_rules journal_keeps)
  show "keeps (journal_safe dec p) (unit_transition O' name up)"
    unfolding unit_transition_def systemd_call_def by (intro keeps_rules journal_keeps st keeps_unit_wait)
qed

lemma safe_links [journal_keeps]:
  "keeps (journal_safe dec p) (describe O' name)" "keeps (journal_safe dec p) (interfacePolicy O' profile name boot)"
  "keeps (journal_safe dec p) (dhcpEnabled link)"
proof -
  have "keeps (journal_safe dec p) (dhcp_files files on)" for files on
    by (induction files arbitrary: on) (auto intro: keeps_rules journal_keeps)
  then show "keeps (journal_safe dec p) (dhcpEnabled link)"
    unfolding dhcpEnabled_def by (intro keeps_rules)
  show "keeps (journal_safe dec p) (interfacePolicy O' profile name boot)"
    unfolding interfacePolicy_def
    by (auto split: option.split intro!: keeps_bind keeps_ret keeps_throw keeps_guard journal_keeps)
  show "keeps (journal_safe dec p) (describe O' name)"
    unfolding describe_def
    by (intro keeps_rules journal_keeps) (auto split: option.split intro: keeps_rules)
qed

lemma safe_names [journal_keeps]:
  "keeps (journal_safe dec p) (native_bootHostname O' profile hostname)"
  "keeps (journal_safe dec p) (native_sshBootPolicy profile enabled)"
proof -
  have "hostname_file profile = path_join (if pf_runtime_etc_directory profile = [] then ''/etc'' else pf_runtime_etc_directory profile) ''hostname''"
    by (simp add: hostname_file_def path_join_def)
  then show "keeps (journal_safe dec p) (native_bootHostname O' profile hostname)"
    unfolding native_bootHostname_def
    by (simp only:) (intro keeps_rules journal_keeps safe_write plain_targets; simp)
  show "keeps (journal_safe dec p) (native_sshBootPolicy profile enabled)"
    unfolding native_sshBootPolicy_def ssh_marker_def
    by (intro keeps_rules journal_keeps safe_write plain_targets) simp
qed

lemma keeps_for_each: "(\<And>x. x \<in> set xs \<Longrightarrow> keeps I (f x)) \<Longrightarrow> keeps I (for_io f xs)"
  by (induction xs) (auto intro: keeps_rules)

lemma network_file_name: "validInterfaceName name \<Longrightarrow> plain_name (''10-mnc-'' @ name @ ''.network'')"
  by (auto simp: plain_name_def validInterfaceName_def list_all_iff name_char_def char_class)

lemma safe_network [journal_keeps]:
  "keeps (journal_safe dec p) (reloadNetwork O' configs)" "keeps (journal_safe dec p) (native_network O' profile configs boot)"
proof -
  show reload: "keeps (journal_safe dec p) (reloadNetwork O' configs)" for configs
    unfolding reloadNetwork_def network_call_def by (intro keeps_rules journal_keeps)
  show "keeps (journal_safe dec p) (native_network O' profile configs boot)"
  proof (cases "validateNetwork configs")
    case (Inl e)
    then show ?thesis by (simp add: native_network_def keeps_def seq_def bind_def of_result_def)
  next
    case (Inr u)
    then have valid: "validInterfaceName (nc_interface c)" if "c \<in> set configs" for c
      using that validateNetwork_Inr [of configs] by (simp add: wf_network_def wf_interface_def)
    have "keeps (journal_safe dec p) (for_io (write_network O' profile configs boot) configs)"
      unfolding write_network_def network_file_def
      by (intro keeps_for_each keeps_rules journal_keeps safe_write network_file_name valid) simp_all
    then show ?thesis
      unfolding native_network_def by (intro keeps_seq keeps_of_result keeps_guard keeps_cond journal_keeps reload)
  qed
qed

lemma safe_queries [journal_keeps]:
  "keeps (journal_safe dec p) (native_discover O' profile)" "keeps (journal_safe dec p) (native_status O' profile)"
  "keeps (journal_safe dec p) (native_networkLinks profile)" "keeps (journal_safe dec p) (native_validateConfiguration O' profile c)"
proof -
  show "keeps (journal_safe dec p) (native_discover O' profile)"
    unfolding native_discover_def discover_interface_def ssh_running_def hostname_property_def timezone_property_def
    by (intro keeps_rules journal_keeps)
  show "keeps (journal_safe dec p) (native_status O' profile)"
    unfolding native_status_def ssh_running_def by (intro keeps_rules journal_keeps)
  have "keeps (journal_safe dec p) (observe_port policy)" for policy
    unfolding observe_port_def catch_error_def Let_def
    by (intro keeps_rules journal_keeps) (auto split: option.split exn.split intro!: keeps_rules journal_keeps)
  then show "keeps (journal_safe dec p) (native_networkLinks profile)"
    unfolding native_networkLinks_def by (intro keeps_rules)
  show "keeps (journal_safe dec p) (native_validateConfiguration O' profile c)"
    unfolding native_validateConfiguration_def native_timezones_def by (intro keeps_rules journal_keeps)
qed

lemma safe_effects [journal_keeps]:
  "keeps (journal_safe dec p) (native_preferences O' profile c)" "keeps (journal_safe dec p) (native_clockBootPolicy O' profile time)"
  "keeps (journal_safe dec p) (native_power O' action)"
  unfolding native_preferences_def native_clockBootPolicy_def native_power_def name_calls_def
  by (intro keeps_rules journal_keeps)+

section \<open>The program\<close>

text \<open>
  The surroundings of the backend in the program: \<open>nativePlatform(profile)\<close>, the storage primitives and
  the journal sink.
\<close>

definition host_env :: "(state \<Rightarrow> string result) \<Rightarrow> (string \<Rightarrow> state result) \<Rightarrow> (string \<Rightarrow> (bool \<times> bool) option) \<Rightarrow>
    (string \<Rightarrow> 8 word list option) \<Rightarrow> angle \<Rightarrow> (field list \<Rightarrow> 'b machine \<Rightarrow> bool \<times> 'b machine) \<Rightarrow> 'b os \<Rightarrow> profile \<Rightarrow>
    'b host env" where
  "host_env enc dec readStatus sha256 fl sink O' profile =
     \<lparr>en_discover = native_discover O' profile,
      en_status = native_status O' profile,
      en_time = native_time O' profile,
      en_networkLinks = native_networkLinks profile,
      en_timezones = native_timezones O',
      en_timezoneCatalog = native_timezoneCatalog fl O',
      en_temperatures = native_temperatures O' profile,
      en_validateConfiguration = native_validateConfiguration O' profile,
      en_preferences = native_preferences O' profile,
      en_bootHostname = native_bootHostname O' profile,
      en_network = native_network O' profile,
      en_sshBootPolicy = native_sshBootPolicy profile,
      en_clockBootPolicy = native_clockBootPolicy O' profile,
      en_power = native_power O',
      en_clock = on_fs bootMilliseconds,
      en_createStateDirectory = (\<lambda>d. on_fs (createStateDirectory d)),
      en_exists = (\<lambda>p. on_fs (node_exists (locate p))),
      en_readFile = (\<lambda>p. on_fs (readFile read_limit p)),
      en_atomicWrite = (\<lambda>p js. on_fs (atomicWrite p js)),
      en_durableRemove = (\<lambda>p. on_fs (durableRemove p)),
      en_fileHash = (\<lambda>p. on_fs (fileHash sha256 read_limit p)),
      en_randomId = on_fs randomId,
      en_sink = (\<lambda>fs w. case sink fs (wd_platform w) of (ok, m) \<Rightarrow> (ok, w\<lparr>wd_platform := m\<rparr>)),
      en_encodeState = enc, en_decodeState = dec, en_readStorageStatus = readStatus\<rparr>"

locale native_host = journal_codec encodeState decodeState
  for encodeState :: "state \<Rightarrow> string result" and decodeState :: "string \<Rightarrow> state result" +
  fixes readStatus :: "string \<Rightarrow> (bool \<times> bool) option" and sha256 :: "string \<Rightarrow> 8 word list option"
    and fl :: angle and sink :: "field list \<Rightarrow> 'b machine \<Rightarrow> bool \<times> 'b machine" and O' :: "'b os" and profile :: profile
begin

sublocale storage: native encodeState decodeState readStatus sha256 P profile for P :: "'b machine env"
  by unfold_locales

sublocale stable_storage "host_env encodeState decodeState readStatus sha256 fl sink O' profile" profile
  "journal_safe decodeState profile"
proof (unfold_locales, goal_cases)
  case (11 w fs)
  then show ?case by (auto simp: host_env_def journal_safe_def split: prod.split)
next
  case (19 s js)
  then show ?case
    unfolding host_env_def
    by (simp add: storage.journal_text_encoded plain_journal journal_node_def atomicWrite_holds keeps_on_fs)
next
  case (20 w js w' s)
  then show ?case using storage.read_journal by (simp add: host_env_def)
qed (simp_all add: host_env_def journal_keeps keeps_on_fs fileHash_holds randomId_holds keeps_exists keeps_create)

lemma host_inv:
  "wf_profile profile \<Longrightarrow>
   lifecycle (host_env encodeState decodeState readStatus sha256 fl sink O' profile) profile
     (journal_safe decodeState profile) (Up b) \<Longrightarrow>
   state_inv (bk_state b) \<and> journal_safe decodeState profile (bk_world b)"
  using lifecycle_inv [of "Up b"] by (simp add: inv_def)

end

interpretation plain_host: native_host plain_encode plain_decode readStatus sha256 fl sink O' profile
  for readStatus :: "string \<Rightarrow> (bool \<times> bool) option" and sha256 :: "string \<Rightarrow> 8 word list option"
    and fl :: angle and sink :: "field list \<Rightarrow> 'b machine \<Rightarrow> bool \<times> 'b machine" and O' :: "'b os" and profile :: profile
  by unfold_locales

section \<open>Properties\<close>

text \<open>
  C5: the invariant of the device holds for the program as it is composed: with the native platform,
  whose operations write hostname, timezone, clock, SSH and network files to the same file system, and
  whatever the bus and the kernel answer, a serving backend has at most one operation in progress, its
  configured and proposed networks are valid, and so is every journal that can be found after a power loss.
\<close>

theorem native_device_invariant:
  assumes "\<And>s t js. encodeState s = Inr js \<Longrightarrow> decodeState js = Inr t \<Longrightarrow> t = s"
    and "wf_profile p"
    and "lifecycle (host_env encodeState decodeState readStatus sha256 fl sink O' p) p (journal_safe decodeState p) (Up b)"
  shows "state_inv (bk_state b) \<and> journal_safe decodeState p (bk_world b)"
  by (rule native_host.host_inv [OF native_host.intro [OF journal_codec.intro] assms(2,3)]) (rule assms(1))

definition host_profile :: profile where
  "host_profile = example_profile\<lparr>pf_interfaces := []\<rparr>"

definition example_host_env :: "string list host env" where
  "example_host_env = host_env plain_encode plain_decode (\<lambda>_. Some (True, True)) example_sha example_angle
     (\<lambda>_ m. (True, m)) example_os host_profile"

lemma host_discovers:
  "wp (native_discover example_os host_profile) (\<lambda>c v'. wf_configuration c \<and> wd_fs v' = wd_fs v) (\<lambda>_ _. False) v"
proof -
  let ?c = "\<lambda>ssh. default_configuration
     \<lparr>cf_system := \<lparr>pr_hostname = ''device'', pr_ssh_enabled = ssh, pr_network = []\<rparr>,
      cf_time := default_time_preferences\<lparr>tp_timezone := ''UTC''\<rparr>\<rparr>"
  have "validate (?c True) = Inr ()" "validate (?c False) = Inr ()" by code_simp+
  then have valid: "wf_configuration (?c ssh)" for ssh by (cases ssh) (simp_all add: validate_Inr)
  have unit: "wp (unitState example_os u) (\<lambda>_ v'. wd_fs v' = wd_fs v) (\<lambda>_ _. False) v" for u v
    by (simp add: unitState_def systemd_call_def bus_call_def bus_property_def on_os_def on_platform_def note_event_def
        modify_def bind_def seq_def ret_def checked_def example_os_def wp_def)
  have ssh: "wp (ssh_running example_os host_profile) (\<lambda>_ v'. wd_fs v' = wd_fs v) (\<lambda>_ _. False) v" for v
    unfolding ssh_running_def wp_bind by (rule wp_mono [OF unit]) (auto simp: wp_rules intro!: wp_mono [OF unit])
  have names: "wp (open_bus example_os) (\<lambda>_ v'. wd_fs v' = wd_fs v) (\<lambda>_ _. False) v"
    "wp (hostname_property example_os) (\<lambda>h v'. h = ''device'' \<and> wd_fs v' = wd_fs v) (\<lambda>_ _. False) v"
    "wp (timezone_property example_os) (\<lambda>z v'. z = ''UTC'' \<and> wd_fs v' = wd_fs v) (\<lambda>_ _. False) v" for v
    by (simp_all add: open_bus_def hostname_property_def timezone_property_def bus_property_def on_os_def on_platform_def
        guard_def bind_def ret_def checked_def example_os_def wp_def)
  have profile: "pf_interfaces host_profile = []" "pf_defaults host_profile = default_configuration"
    "cf_time default_configuration = default_time_preferences"
    by (simp_all add: host_profile_def example_profile_def default_profile_def default_configuration_def)
  show ?thesis
    unfolding native_discover_def profile wp_seq wp_bind map_io.simps
    by (rule wp_mono [OF names(1)], rule wp_mono [OF names(2)], rule wp_mono [OF names(3)], rule wp_mono [OF ssh])
       (auto simp: wp_rules valid)
qed

theorem native_device_invariant_witness:
  "\<exists>b. lifecycle example_host_env host_profile (journal_safe plain_decode host_profile) (Up b) \<and>
     state_inv (bk_state b) \<and> journal_safe plain_decode host_profile (bk_world b)"
proof -
  have "\<exists>b. lifecycle example_host_env host_profile (journal_safe plain_decode host_profile) (Up b)"
  proof (rule fresh_lifecycle)
    show "wp (en_discover example_host_env) (\<lambda>c v'. wf_configuration c \<and> wd_fs v' = wd_fs v) (\<lambda>_ _. False) v" for v
      by (simp add: example_host_env_def host_env_def host_discovers)
    show "journal_safe plain_decode host_profile example_host" by (rule empty_safe) (simp add: example_host_def)
  qed (simp_all add: example_host_env_def host_env_def host_profile_def example_profile_def default_profile_def example_host_def)
  then obtain b where b: "lifecycle example_host_env host_profile (journal_safe plain_decode host_profile) (Up b)" by blast
  have "wf_profile host_profile" using wf_example by (simp add: wf_profile_def host_profile_def)
  from native_device_invariant [OF _ this b [unfolded example_host_env_def]] plain.faithful
  have "state_inv (bk_state b) \<and> journal_safe plain_decode host_profile (bk_world b)" by blast
  with b show ?thesis by blast
qed

end
