(* ===== verification/Network_Files.thy ===== *)
theory Network_Files
  imports Native_Device
begin

text \<open>
  Applying a network on the native platform: when it returns, each managed interface has exactly the
  file rendered for it; an invalid network changes nothing.
\<close>

definition some_preferred :: "network_config list \<Rightarrow> bool" where
  "some_preferred configs = (\<exists>d\<in>set configs. nc_preferred_default d)"

definition network_pin :: "network_config list \<Rightarrow> network_config \<Rightarrow> node \<times> string option" where
  "network_pin configs c =
     (locate (network_file (nc_interface c)),
      case renderNetwork c (some_preferred configs) of Inl e \<Rightarrow> None | Inr text \<Rightarrow> Some text)"

lemma network_place:
  assumes "validInterfaceName name"
  shows "locate (network_file name) = locate ''/run/systemd/network'' @ [''10-mnc-'' @ name @ ''.network'']"
    and "plain (network_file name)" and "lasting (locate (network_file name))"
proof -
  note place = locate_plain_name [OF network_file_name [OF assms], of "''/run/systemd/network''"]
  show "locate (network_file name) = locate ''/run/systemd/network'' @ [''10-mnc-'' @ name @ ''.network'']"
    and "plain (network_file name)"
    using place by (simp_all add: network_file_def)
  show "lasting (locate (network_file name))"
    using place(1) by (simp add: network_file_def lasting_def ends_with_def)
qed

lemma same_files:
  "keeps (\<lambda>v. wd_fs v = f) (on_platform m)" "keeps (\<lambda>v. wd_fs v = f) (ask_os g)" "keeps (\<lambda>v. wd_fs v = f) (on_os h)"
  "keeps (\<lambda>v. wd_fs v = f) (note_event e)"
  by (auto simp: keeps_def on_platform_def ask_os_def gets_def on_os_def note_event_def split: prod.splits)

lemma keeps_files: "keeps I m \<Longrightarrow> keeps (\<lambda>v. I (wd_fs v)) (on_fs m)"
  by (auto simp: keeps_def on_fs_def split: prod.split)

lemma same_files_policy: "keeps (\<lambda>v. wd_fs v = f) (interfacePolicy O' profile name boot)"
  unfolding interfacePolicy_def
  by (auto split: option.split intro!: keeps_bind keeps_ret keeps_throw keeps_guard same_files)

lemma same_files_reload: "keeps (\<lambda>v. wd_fs v = f) (reloadNetwork O' configs)"
proof -
  have "keeps (\<lambda>v. wd_fs v = f) (checked O' r)" for r :: "(int \<times> string option) + bus_value"
    unfolding checked_def by (auto split: sum.split intro: keeps_rules)
  then show ?thesis
    unfolding reloadNetwork_def network_call_def bus_call_def open_bus_def by (intro keeps_rules same_files)
qed

lemma pins_write_network:
  assumes "pins xs (wd_fs w)" and "validInterfaceName (nc_interface c)"
    and "locate (network_file (nc_interface c)) \<notin> fst ` set xs"
  shows "wp (write_network O' profile configs boot c)
    (\<lambda>_ v. pins (network_pin configs c # xs) (wd_fs v) \<and> (\<exists>text. renderNetwork c (some_preferred configs) = Inr text))
    (\<lambda>_ _. True) w"
proof -
  note place = network_place [OF assms(2)]
  have "\<forall>(n, t)\<in>set xs. n = locate (network_file (nc_interface c)) \<longrightarrow> t = Some s" for s
    using assms(3) by force
  note written = pins_write [OF _ place(2,3) this]
  have written_file: "wp (seq (on_fs (atomicWrite (network_file (nc_interface c)) s)) (on_fs set_permissions))
      (\<lambda>_ v. pins ((locate (network_file (nc_interface c)), Some s) # xs) (wd_fs v)) (\<lambda>_ _. True) v"
    if "wd_fs v = wd_fs w" for s v
    unfolding on_fs_seq wp_seq
    using assms(1) that
    by (intro on_fs_wp, simp only: wp_seq)
       (rule wp_mono [OF written], auto intro: keeps_then [OF pins_permissions(1)])
  show ?thesis
    unfolding write_network_def wp_seq [of "interfacePolicy _ _ _ _"] some_preferred_def [symmetric]
    by (rule keeps_then [OF same_files_policy [of "wd_fs w"]])
       (auto simp: wp_bind wp_of_result network_pin_def intro!: wp_mono [OF written_file] split: sum.split)
qed

lemma pins_write_networks:
  assumes "pins xs (wd_fs w)" and "\<forall>c\<in>set cs. validInterfaceName (nc_interface c)" and "distinct (map nc_interface cs)"
    and "\<forall>c\<in>set cs. locate (network_file (nc_interface c)) \<notin> fst ` set xs"
  shows "wp (for_io (write_network O' profile configs boot) cs)
    (\<lambda>_ v. pins (rev (map (network_pin configs) cs) @ xs) (wd_fs v) \<and>
       (\<forall>c\<in>set cs. \<exists>text. renderNetwork c (some_preferred configs) = Inr text)) (\<lambda>_ _. True) w"
  using assms
proof (induction cs arbitrary: xs w)
  case Nil
  then show ?case by (simp add: wp_ret)
next
  case (Cons c cs)
  have rest: "wp (for_io (write_network O' profile configs boot) cs)
      (\<lambda>_ v. pins (rev (map (network_pin configs) cs) @ network_pin configs c # xs) (wd_fs v) \<and>
        (\<forall>c\<in>set cs. \<exists>text. renderNetwork c (some_preferred configs) = Inr text)) (\<lambda>_ _. True) v"
    if "pins (network_pin configs c # xs) (wd_fs v)" for v
  proof (rule Cons.IH [OF that])
    show "\<forall>d\<in>set cs. locate (network_file (nc_interface d)) \<notin> fst ` set (network_pin configs c # xs)"
    proof
      fix d assume d: "d \<in> set cs"
      from Cons.prems(3) have "nc_interface c \<notin> nc_interface ` set cs" by simp
      with d have "nc_interface d \<noteq> nc_interface c" by (metis imageI)
      with Cons.prems d show "locate (network_file (nc_interface d)) \<notin> fst ` set (network_pin configs c # xs)"
        by (simp add: network_pin_def network_place(1))
    qed
  qed (use Cons.prems in simp_all)
  show ?case
    unfolding for_io.simps wp_seq
    by (rule wp_mono [OF pins_write_network]) (use Cons.prems rest in \<open>auto elim!: wp_mono\<close>)
qed

section \<open>Properties\<close>


definition example_network :: "network_config list" where
  "example_network = [default_network_config\<lparr>nc_interface := ''eth0'', nc_mode := dhcp\<rparr>]"

lemma example_network_valid: "validateNetwork example_network = Inr ()"
  by code_simp

lemma example_network_renders:
  "\<exists>s. renderNetwork (default_network_config\<lparr>nc_interface := ''eth0'', nc_mode := dhcp\<rparr>) b = Inr s"
  using example_network_valid by (simp add: renderNetwork_def example_network_def Let_def)

lemma example_network_applied:
  "wp (native_network example_os example_profile example_network True) (\<lambda>_ _. True) (\<lambda>_ _. False) example_host"
proof -
  have policy: "wp (interfacePolicy example_os example_profile ''eth0'' True) (\<lambda>_ v. v = w) (\<lambda>_ _. False) w" for w
    by (simp add: interfacePolicy_def example_profile_def ask_os_def example_os_def wp_rules)
  obtain s where s: "renderNetwork (default_network_config\<lparr>nc_interface := ''eth0'', nc_mode := dhcp\<rparr>)
      (\<exists>d\<in>set example_network. nc_preferred_default d) = Inr s"
    using example_network_renders by blast
  have calls: "wp (on_fs (create_directories d)) (\<lambda>_ v. calm (wd_fs v) \<and> fs_names (wd_fs v) = (\<lambda>_. None)) (\<lambda>_ _. False) w"
    "wp (on_fs set_permissions) (\<lambda>_ v. calm (wd_fs v) \<and> fs_names (wd_fs v) = (\<lambda>_. None)) (\<lambda>_ _. False) w"
    if "calm (wd_fs w) \<and> fs_names (wd_fs w) = (\<lambda>_. None)" for w d
    unfolding create_directories_def set_permissions_def using that by (intro on_fs_wp wp_calm_call; simp)+
  have saved: "wp (seq (on_fs (atomicWrite p s)) (on_fs set_permissions)) (\<lambda>_ _. True) (\<lambda>_ _. False) w"
    if "calm (wd_fs w) \<and> fs_names (wd_fs w) = (\<lambda>_. None)" for w p
    unfolding on_fs_seq using that
    by (intro on_fs_wp) (auto simp: wp_seq set_permissions_def intro!: wp_calm_atomicWrite wp_calm_call)
  have one: "wp (write_network example_os example_profile example_network True
        (default_network_config\<lparr>nc_interface := ''eth0'', nc_mode := dhcp\<rparr>)) (\<lambda>_ _. True) (\<lambda>_ _. False) w"
    if "calm (wd_fs w) \<and> fs_names (wd_fs w) = (\<lambda>_. None)" for w
    unfolding write_network_def wp_seq [of "interfacePolicy _ _ _ _"] wp_bind wp_of_result s sum.case
    using that by (auto intro!: wp_mono [OF policy] saved)
  have "calm (wd_fs example_host) \<and> fs_names (wd_fs example_host) = (\<lambda>_. None)" "length example_network = length (pf_interfaces example_profile)"
    by (simp_all add: example_host_def empty_fs_good empty_fs_def calm_def example_network_def example_profile_def)
  then show ?thesis
    unfolding native_network_def wp_seq wp_of_result example_network_valid sum.case
    by (auto simp: wp_guard wp_cond wp_seq wp_ret example_network_def intro!: wp_mono [OF calls(1)] wp_mono [OF calls(2)])
       (auto simp: example_network_def [symmetric] wp_ret wp_cond intro!: wp_mono [OF one])
qed


end
