(* ===== verification/Program.thy ===== *)
theory Program
  imports Network_Files Daemon Service Profile
begin

text \<open>
  The program (main.cpp): the command line, the boot run, and the daemon as a service whose worker
  thread serves the bus. The whole of it runs on the native host; every run of it, however it ends,
  is a stretch of the life of the device.
\<close>

section \<open>The daemon as a service\<close>

text \<open>
  The daemon's object. The worker's thread and the main thread share \<open>failed_\<close>, which the main thread
  only reads, in \<open>health\<close>, and the stop request. The rounds are what the worker finds on the bus
  between two looks of the main thread at it, and the worker's request to stop is one of those of other
  threads that a turn of the service may find; an object that is no \<open>std::exception\<close> ends the process.
\<close>

record 'w daemon =
  dm_backend :: "'w backend"
  dm_failed :: bool
  dm_aborted :: bool
  dm_rounds :: "bus_event list list"

definition worker_round :: "'w env \<Rightarrow> surroundings \<Rightarrow> ('w daemon, unit) io" where
  "worker_round E S = (\<lambda>d.
     if dm_failed d \<or> dm_aborted d then (Inr (), d)
     else case dm_rounds d of
         [] \<Rightarrow> (Inr (), d)
       | events # rounds \<Rightarrow>
           (case worker E S events (dm_backend d) of
              (Inl e, b) \<Rightarrow> (Inr (), d\<lparr>dm_backend := b, dm_aborted := True, dm_rounds := rounds\<rparr>)
            | (Inr failed, b) \<Rightarrow> (Inr (), d\<lparr>dm_backend := b, dm_failed := failed, dm_rounds := rounds\<rparr>)))"

definition daemon_health :: "'w daemon \<Rightarrow> health" where
  "daemon_health d =
     \<lparr>hl_healthy = \<not> dm_failed d,
      hl_summary = (if dm_failed d then ''system worker failed'' else ''system manager ready'')\<rparr>"

definition on_backend :: "('w backend, 'a) io \<Rightarrow> ('w daemon, 'a) io" where
  "on_backend m = (\<lambda>d. case m (dm_backend d) of (r, b) \<Rightarrow> (r, d\<lparr>dm_backend := b\<rparr>))"

definition daemon_hooks :: "'w env \<Rightarrow> surroundings \<Rightarrow> bool \<Rightarrow> bool \<Rightarrow> 'w daemon hooks" where
  "daemon_hooks E S bus_open registered =
     \<lparr>hk_on_start = on_backend (on_start E bus_open registered),
      hk_on_reload = ret (),
      hk_on_stop = (\<lambda>d. snd (worker_round E S d)),
      hk_health = seq (worker_round E S) (gets daemon_health)\<rparr>"

datatype ending = Exited int | Aborted

definition daemon_run :: "'w env \<Rightarrow> surroundings \<Rightarrow> bool \<Rightarrow> bool \<Rightarrow> bool \<Rightarrow> turn list \<Rightarrow> 'w daemon \<Rightarrow>
    (ending \<times> 'w daemon) option" where
  "daemon_run E S bus_open registered signals_blocked turns d =
     map_option (\<lambda>(code, s).
         (if dm_aborted (sv_world s) then Aborted else Exited (if dm_failed (sv_world s) then 1 else code), sv_world s))
       (execute (daemon_hooks E S bus_open registered) signals_blocked turns
          \<lparr>sv_name = ''MNC system manager'', sv_stop_requested = False, sv_reload_requested = False, sv_trace = [],
           sv_world = d\<rparr>)"

section \<open>The main function\<close>

definition caught :: "exn \<Rightarrow> ending" where
  "caught e = (case e of UnknownException \<Rightarrow> Aborted | _ \<Rightarrow> Exited 1)"

text \<open>\<open>lstat\<close> and the files of the profile on the host.\<close>

definition lstat :: "string \<Rightarrow> (fs, string + file_stat) io" where
  "lstat p =
     bind next_outcome (\<lambda>out. case out of
        Interrupted \<Rightarrow> ret (Inl ''Interrupted system call'')
      | Failed err \<Rightarrow> ret (Inl err)
      | Removed _ err \<Rightarrow> ret (Inl err)
      | PowerLoss \<Rightarrow> ret (Inl ''power loss'')
      | _ \<Rightarrow> gets (\<lambda>f. case fs_stat f (locate p) of
          None \<Rightarrow> Inl ''No such file or directory''
        | Some (regular, uid, mode) \<Rightarrow> Inr \<lparr>fs_regular = regular, fs_uid = uid, fs_mode = mode\<rparr>))"

definition host_files :: "'p world files" where
  "host_files = \<lparr>fl_lstat = (\<lambda>p. on_fs (lstat p)), fl_readFile = (\<lambda>p. on_fs (readFile read_limit p))\<rparr>"

record script =
  sc_bus_open :: bool
  sc_registered :: bool
  sc_signals_blocked :: bool
  sc_turns :: "turn list"
  sc_rounds :: "bus_event list list"

definition serve_profile :: "(profile \<Rightarrow> 'w env) \<Rightarrow> surroundings \<Rightarrow> script \<Rightarrow> bool \<Rightarrow> profile \<Rightarrow> 'w \<Rightarrow> (ending \<times> 'w) option" where
  "serve_profile E S c boot profile w =
     (case make_backend (E profile) profile w of
        (Inl e, w') \<Rightarrow> Some (caught e, w')
      | (Inr b, _) \<Rightarrow>
          if boot then
            (case bootstrap (E profile) b of
               (Inl e, b') \<Rightarrow> Some (caught e, bk_world b')
             | (Inr _, b') \<Rightarrow> Some (Exited 0, bk_world b'))
          else
            map_option (\<lambda>(r, d). (r, bk_world (dm_backend d)))
              (daemon_run (E profile) S (sc_bus_open c) (sc_registered c) (sc_signals_blocked c) (sc_turns c)
                 \<lparr>dm_backend = b, dm_failed = False, dm_aborted = False, dm_rounds = sc_rounds c\<rparr>))"

definition main_program :: "profile glaze \<Rightarrow> boot_preferences glaze \<Rightarrow> (profile \<Rightarrow> 'p world env) \<Rightarrow> surroundings \<Rightarrow> script \<Rightarrow>
    string list \<Rightarrow> 'p world \<Rightarrow> (ending \<times> 'p world) option" where
  "main_program gp gb E S c arguments w =
     (case configure host_files gp gb arguments w of
        (Inl e, w') \<Rightarrow> Some (caught e, w')
      | (Inr (boot, profile), w') \<Rightarrow> serve_profile E S c boot profile w')"

section \<open>The service keeps what its hooks keep\<close>

lemma keeps_on_world: "keeps I m \<Longrightarrow> keeps (\<lambda>s. I (sv_world s)) (on_world m)"
  by (auto simp: keeps_def on_world_def split: prod.split)

lemma keeps_service:
  "keeps (\<lambda>s. I (sv_world s)) (record_event x)" "keeps (\<lambda>s. I (sv_world s)) request_stop"
  "keeps (\<lambda>s. I (sv_world s)) request_reload" "keeps (\<lambda>s. I (sv_world s)) (modify (\<lambda>s. s\<lparr>sv_reload_requested := r\<rparr>))"
  by (simp_all add: keeps_def record_event_def request_stop_def request_reload_def modify_def)

lemma keeps_turn:
  assumes "keeps I (hk_on_reload H)" and "keeps I (hk_health H)"
  shows "keeps (\<lambda>s. I (sv_world s)) (turn_step H t)"
  unfolding turn_step_def reload_step_def
  by (auto intro!: keeps_rules keeps_on_world keeps_service assms split: wait.split signal.split)

lemma serve_keeps:
  assumes "keeps I (hk_on_reload H)" and "keeps I (hk_health H)"
  shows "I (sv_world s) \<Longrightarrow> serve H turns code s = Some (r, s') \<Longrightarrow> I (sv_world s')"
proof (induction turns arbitrary: code s)
  case (Cons t turns)
  obtain r1 s1 where step: "turn_step H t s = (r1, s1)" by fastforce
  have "I (sv_world s1)" using keeps_run [OF keeps_turn [OF assms] step] Cons.prems(1) .
  with Cons step show ?case by (auto split: if_splits sum.splits)
qed (auto split: if_splits)

text \<open>How a service ends: not started, failed at the start, or with all that its hooks keep after a start.\<close>

lemma execute_world:
  assumes "keeps I (hk_on_reload H)" and "keeps I (hk_health H)" and "\<And>w. I w \<Longrightarrow> I (hk_on_stop H w)"
    and "execute H blocked turns s = Some (code, s')"
    and "\<And>w. hk_on_start H (sv_world s) = (Inr (), w) \<Longrightarrow> I w"
  shows "sv_world s' = sv_world s \<or> (\<exists>e. hk_on_start H (sv_world s) = (Inl e, sv_world s')) \<or> I (sv_world s')"
proof -
  have up: "keeps (\<lambda>s. I (sv_world s)) (start_up H)"
    unfolding start_up_def by (intro keeps_rules keeps_on_world keeps_service assms)
  obtain r w1 where on: "hk_on_start H (sv_world s) = (r, w1)" by fastforce
  show ?thesis
  proof (cases r)
    case (Inl e)
    with on assms(4) show ?thesis
      by (auto simp: execute_def seq_def bind_def on_world_def shut_down_def fail_with_def split: if_splits)
  next
    case (Inr u)
    with on assms(5) have "I w1" by simp
    with up have started: "I (sv_world (snd (start_up H (s\<lparr>sv_world := w1, sv_trace := sv_trace s @ [Started]\<rparr>))))"
      by (simp add: keeps_def)
    with on Inr assms(4) show ?thesis
      by (auto simp: execute_def seq_def bind_def on_world_def record_event_def modify_def shut_down_def fail_with_def
          split: if_splits prod.splits sum.splits option.splits intro: assms(3) dest!: serve_keeps [OF assms(1,2), rotated])
  qed
qed

section \<open>The program on the native host\<close>

lemma safe_reports [journal_keeps]:
  "keeps (journal_safe dec p) (native_time O' profile)" "keeps (journal_safe dec p) (native_timezones O')"
  "keeps (journal_safe dec p) (native_timezoneCatalog fl O')" "keeps (journal_safe dec p) (native_temperatures O' profile)"
proof -
  show "keeps (journal_safe dec p) (native_time O' profile)"
    unfolding native_time_def timezone_property_def runtime_zone_def
    by (intro keeps_rules journal_keeps) (auto split: option.split prod.split intro!: keeps_rules journal_keeps)
  show zones: "keeps (journal_safe dec p) (native_timezones O')"
    unfolding native_timezones_def by (intro keeps_rules journal_keeps)
  show "keeps (journal_safe dec p) (native_timezoneCatalog fl O')"
    unfolding native_timezoneCatalog_def
    by (intro keeps_rules journal_keeps zones) (auto split: prod.split intro: keeps_rules)
  have sensor: "keeps (journal_safe dec p) (read_sensor device name result)" for device name result
    unfolding read_sensor_def catch_error_def Let_def
    by (auto intro!: keeps_rules journal_keeps split: option.split exn.split)
  have folded: "keeps (journal_safe dec p) (fold_io f xs acc)" if "\<And>x acc. keeps (journal_safe dec p) (f x acc)"
    for f :: "'x \<Rightarrow> temperature list \<Rightarrow> ('b host, temperature list) io" and xs acc
    using that by (induction xs arbitrary: acc) (auto intro: keeps_rules)
  have "keeps (journal_safe dec p) (read_device d result)" for d result
    unfolding read_device_def by (auto split: prod.split option.split intro!: keeps_rules folded sensor)
  then show "keeps (journal_safe dec p) (native_temperatures O' profile)"
    unfolding native_temperatures_def
    by (intro keeps_rules journal_keeps) (auto split: option.split intro!: keeps_rules folded)
qed

lemma safe_configure: "keeps (journal_safe dec p) (configure host_files gp gb arguments)"
proof -
  have "keeps (holds n P) (lstat path)" for n P path
    unfolding lstat_def by (rule keeps_bind [OF keeps_next_outcome]) (auto split: outcome.split intro: keeps_rules)
  then have lstat: "keeps (journal_safe dec p) (on_fs (lstat path))" for path by (rule keeps_on_fs)
  have trusted: "keeps (journal_safe dec p) (check_trusted host_files path what message)" for path what message
    unfolding check_trusted_def host_files_def
    by (auto intro!: keeps_rules lstat split: sum.split)
  have "keeps (journal_safe dec p) (parse_arguments host_files gb boot profile arguments)" for boot profile arguments
  proof (induction "host_files :: 'a world files" gb boot profile arguments rule: parse_arguments.induct)
    case (2 gb boot profile argument rest)
    then show ?case
      by (auto simp: loadBootPreferences_def host_files_def intro!: keeps_rules trusted [unfolded host_files_def] journal_keeps)
  qed (simp add: keeps_rules)
  then show ?thesis
    unfolding configure_def loadProfile_def
    by (intro keeps_rules trusted) (auto simp: host_files_def intro: journal_keeps)
qed

text \<open>A platform that serves: every run of the program on it is a stretch of the life of the device.\<close>

context served_platform
begin

lemma serving_round:
  assumes "wf_profile profile"
  shows "keeps (\<lambda>d. serving (dm_backend d)) (worker_round E S)"
  unfolding keeps_def worker_round_def
  using keepsD [OF serving_worker [OF assms]]
  by (auto split: list.split prod.split sum.split) (metis snd_conv)+

lemma started_daemon:
  assumes "lifecycle E profile G (Down w)" and "make_backend E profile w = (Inr b, w')"
  shows "on_start E bus_open registered b = (Inr (), b') \<Longrightarrow> serving b'"
    and "on_start E bus_open registered b = (Inl e, b') \<Longrightarrow> lifecycle E profile G (Down (bk_world b'))"
  using lifecycle.started [OF assms] lifecycle.start_failed [OF assms] lifecycle.stopped
  by (auto simp: on_start_def seq_def bind_def guard_def ret_def throw_def split: prod.splits sum.splits if_splits)

lemma run_lifecycle:
  assumes "wf_profile profile" and "lifecycle E profile G (Down w)" and "make_backend E profile w = (Inr b, w')"
    and "daemon_run E S bus_open registered blocked turns
      \<lparr>dm_backend = b, dm_failed = False, dm_aborted = False, dm_rounds = rounds\<rparr> = Some (r, d)"
  shows "lifecycle E profile G (Down (bk_world (dm_backend d)))"
proof -
  let ?H = "daemon_hooks E S bus_open registered" and ?I = "\<lambda>d. serving (dm_backend d)"
  let ?d = "\<lparr>dm_backend = b, dm_failed = False, dm_aborted = False, dm_rounds = rounds\<rparr>"
  from assms(4) obtain code s' where run: "execute ?H blocked turns
      \<lparr>sv_name = ''MNC system manager'', sv_stop_requested = False, sv_reload_requested = False, sv_trace = [], sv_world = ?d\<rparr>
      = Some (code, s')" and d: "d = sv_world s'"
    by (auto simp: daemon_run_def)
  have hooks: "keeps ?I (hk_on_reload ?H)" "keeps ?I (hk_health ?H)" "\<And>d. ?I d \<Longrightarrow> ?I (hk_on_stop ?H d)"
    using serving_round [OF assms(1), of S] by (auto simp: daemon_hooks_def keeps_def [of ?I "worker_round E S"] intro: keeps_rules)
  have begun: "?I d'" if "hk_on_start ?H ?d = (Inr (), d')" for d'
    using that started_daemon(1) [OF assms(2,3)] by (auto simp: daemon_hooks_def on_backend_def split: prod.splits)
  have "G (bk_world b)"
    using make_backend_fair [OF _ _ assms(3)] lifecycle_inv [OF assms(2,1)] assms(1) by (simp add: wf_profile_def fair_def)
  then have unstarted: "lifecycle E profile G (Down (bk_world (dm_backend ?d)))" by (simp add: lifecycle.off)
  have failed: "lifecycle E profile G (Down (bk_world (dm_backend d')))" if "hk_on_start ?H ?d = (Inl e, d')" for e d'
    using that started_daemon(2) [OF assms(2,3)] by (auto simp: daemon_hooks_def on_backend_def split: prod.splits)
  from execute_world [OF hooks run] begun have
    "d = ?d \<or> (\<exists>e. hk_on_start ?H ?d = (Inl e, d)) \<or> ?I d" by (simp add: d)
  then show ?thesis using unstarted failed lifecycle.stopped by blast
qed

lemma serve_lifecycle:
  assumes "wf_profile profile" and "G w" and "E' profile = E" and "serve_profile E' S c boot profile w = Some (r, w')"
  shows "lifecycle E profile G (Down w')"
proof -
  have off: "lifecycle E profile G (Down w)" using assms(2) by (rule lifecycle.off)
  show ?thesis
    using assms(4) lifecycle.construct_failed [OF off] lifecycle.booted [OF off] run_lifecycle [OF assms(1) off]
    by (auto simp: serve_profile_def assms(3) split: prod.splits sum.splits if_splits)
qed

end

context native_host
begin

sublocale program: served_platform "host_env encodeState decodeState readStatus sha256 fl sink O' profile" profile
  "journal_safe decodeState profile"
  by unfold_locales (simp_all add: host_env_def journal_keeps)

lemmas program_serves = program.serve_lifecycle

end

text \<open>The write-ahead discipline holds for the program on this host, too.\<close>

interpretation host_journal: write_ahead "host_env plain_encode decodeState readStatus sha256 fl sink O' profile" profile
  for decodeState :: "string \<Rightarrow> state result" and readStatus :: "string \<Rightarrow> (bool \<times> bool) option"
    and sha256 :: "string \<Rightarrow> 8 word list option" and fl :: angle
    and sink :: "field list \<Rightarrow> 'b machine \<Rightarrow> bool \<times> 'b machine" and O' :: "'b os" and profile :: profile
  by unfold_locales (simp add: host_env_def plain_encode_def)

lemma host_effects_follow_journal:
  assumes "process (traced_env (journal_path p) (host_env plain_encode decodeState readStatus sha256 fl sink O' p)) p t b"
    and "ghost t = (None, False, [])"
    and "e \<in> set (tr_log (bk_world b))"
  shows "covered (host_env plain_encode decodeState readStatus sha256 fl sink O' p) e"
  using assms by (rule host_journal.effects_covered)

section \<open>Properties\<close>


text \<open>A boot run ends.\<close>

lemma boot_ends: "\<exists>r w'. serve_profile E S c True profile w = Some (r, w')"
  by (auto simp: serve_profile_def split: prod.split sum.split)

text \<open>A host with a product profile.\<close>

definition installed_fs :: fs where
  "installed_fs = empty_fs\<lparr>fs_stat := (\<lambda>_. Some (True, 0, 420)),
     fs_names := (\<lambda>n. if n = locate ''/usr/share/mnc/system/profile.json'' then Some 0 else None),
     fs_data := (\<lambda>_. ''x''), fs_synced := (\<lambda>_. Some ''x''), fs_fresh := 1\<rparr>"

definition installed_host :: "string list host" where
  "installed_host = example_host\<lparr>wd_fs := installed_fs\<rparr>"

definition example_script :: script where
  "example_script = \<lparr>sc_bus_open = True, sc_registered = True, sc_signals_blocked = True, sc_turns = [], sc_rounds = []\<rparr>"

abbreviation example_host_envs :: "profile \<Rightarrow> string list host env" where
  "example_host_envs \<equiv> host_env plain_encode plain_decode (\<lambda>_. Some (True, True)) example_sha example_angle (\<lambda>_ m. (True, m)) example_os"

lemma installed_configures:
  "configure host_files one_profile no_glaze [''--bootstrap''] installed_host = (Inr (True, example_profile_with [''/data/app'']), installed_host)"
proof -
  have "check_profile (example_profile_with [''/data/app'']) = Inr ()" by code_simp
  moreover have "readFile read_limit ''/usr/share/mnc/system/profile.json'' installed_fs = (Inr ''x'', installed_fs)"
    by (simp add: readFile_def bind_def gets_def node_content_def read_blocks.simps next_outcome_def
        installed_fs_def empty_fs_def read_limit_def)
  moreover have "lstat p installed_fs = (Inr (Inr \<lparr>fs_regular = True, fs_uid = 0, fs_mode = 420\<rparr>), installed_fs)" for p
    by (simp add: lstat_def bind_def gets_def next_outcome_def installed_fs_def empty_fs_def)
  ultimately show ?thesis
    by (simp add: configure_def loadProfile_def check_trusted_def host_files_def one_profile_def trusted_file_def
        seq_def bind_def ret_def guard_def of_result_def decode_def max_message_size_def on_fs_def installed_host_def)
qed

lemma installed_safe: "journal_safe dec (example_profile_with paths) installed_host"
proof -
  have "journal_node (example_profile_with paths) \<noteq> locate ''/usr/share/mnc/system/profile.json''"
    by (simp add: journal_node_def journal_path_def locate_journal) (code_simp)
  then show ?thesis
    by (simp add: journal_safe_def holds_def installed_host_def installed_fs_def empty_fs_def wf_fs_def node_content_def
        survives_def survivor_def)
qed


end
