(* ===== verification/Sysmon.thy ===== *)
theory Sysmon
  imports Profile "HOL-Library.List_Lexorder" "HOL-Library.Char_ord"
begin

text \<open>
  The read-only monitor of the Xilinx AMS sensors (sysmon.cpp): it finds the matching IIO devices and
  takes one reading of each of their channels. The kernel's files, the wall clock and floating-point
  arithmetic are parameters, and the files may change between any two accesses; the accesses are
  recorded in a log.
\<close>

section \<open>Readings\<close>

record reading =
  rd_id :: string
  rd_device :: string
  rd_source_channel :: string
  rd_label :: string
  rd_domain :: string
  rd_kind :: string
  rd_unit :: string
  rd_value :: "double option"
  rd_sampled_at_unix_ms :: int
  rd_status :: string
  rd_error :: string

record snapshot =
  sn_status :: string
  sn_error :: string
  sn_sampled_at_unix_ms :: int
  sn_readings :: "reading list"

definition default_snapshot :: snapshot where
  "default_snapshot = \<lparr>sn_status = ''unavailable'', sn_error = [], sn_sampled_at_unix_ms = 0, sn_readings = []\<rparr>"

record selector =
  se_compatible :: string
  se_device_tree_node :: string

definition default_selector :: selector where
  "default_selector = \<lparr>se_compatible = ''xlnx,zynqmp-ams'', se_device_tree_node = []\<rparr>"

section \<open>The kernel's files\<close>

datatype access = Opened string "string option" | Probed string

record 's iio_state =
  is_log :: "access list"
  is_kernel :: 's

text \<open>
  Opening gives the contents and whether reading them failed; a listing gives the names and whether
  it ended without an error; asking whether a file exists may fail. A number is parsed from the front
  of a text.
\<close>

record 's iio =
  ii_open :: "string \<Rightarrow> 's \<Rightarrow> (string \<times> bool) option \<times> 's"
  ii_exists :: "string \<Rightarrow> 's \<Rightarrow> bool option \<times> 's"
  ii_entries :: "string \<Rightarrow> 's \<Rightarrow> (string list \<times> bool) \<times> 's"
  ii_canonical :: "string \<Rightarrow> 's \<Rightarrow> string option \<times> 's"
  ii_now :: "'s \<Rightarrow> int \<times> 's"
  ii_parse :: "string \<Rightarrow> (double \<times> string) option"
  ii_isfinite :: "double \<Rightarrow> bool"
  ii_positive :: "double \<Rightarrow> bool"
  ii_zero :: double
  ii_scaled :: "double \<Rightarrow> double \<Rightarrow> double \<Rightarrow> double"
  ii_thousandth :: "double \<Rightarrow> double"

type_synonym ('s, 'a) iio_io = "('s iio_state, 'a) io"

definition on_kernel :: "('s \<Rightarrow> 'a \<times> 's) \<Rightarrow> ('s, 'a) iio_io" where
  "on_kernel f = (\<lambda>w. case f (is_kernel w) of (x, k) \<Rightarrow> (Inr x, w\<lparr>is_kernel := k\<rparr>))"

definition log_access :: "access \<Rightarrow> ('s, unit) iio_io" where
  "log_access a = modify (\<lambda>w. w\<lparr>is_log := is_log w @ [a]\<rparr>)"

definition iio_now :: "'s iio \<Rightarrow> ('s, int) iio_io" where
  "iio_now I = bind (on_kernel (ii_now I)) (\<lambda>ns. ret (truncate_to_ms ns))"

definition trailing :: "char \<Rightarrow> bool" where
  "trailing c = (ord c = 10 \<or> ord c = 13 \<or> c = CHR '' '')"

definition attribute_value :: "(string \<times> bool) option \<Rightarrow> string result" where
  "attribute_value r =
     (case r of
        None \<Rightarrow> Inl (StdException ''attribute unreadable'')
      | Some (contents, bad) \<Rightarrow>
          if bad \<or> length contents \<ge> 4097 then Inl (StdException ''attribute invalid or too large'')
          else Inr (rev (dropWhile trailing (rev contents))))"

definition read_attribute :: "'s iio \<Rightarrow> string \<Rightarrow> ('s, string) iio_io" where
  "read_attribute I path =
     bind (on_kernel (ii_open I path)) (\<lambda>r.
     seq (log_access (Opened path (case attribute_value r of Inl _ \<Rightarrow> None | Inr v \<Rightarrow> Some v)))
       (of_result (attribute_value r)))"

definition number :: "'s iio \<Rightarrow> string \<Rightarrow> ('s, double) iio_io" where
  "number I path =
     bind (read_attribute I path) (\<lambda>s.
     case ii_parse I s of
       None \<Rightarrow> throw (StdException ''invalid numeric attribute'')
     | Some (v, rest) \<Rightarrow>
         if rest \<noteq> [] \<or> \<not> ii_isfinite I v then throw (StdException ''invalid numeric attribute'') else ret v)"

definition hasAttribute :: "'s iio \<Rightarrow> string \<Rightarrow> ('s, bool) iio_io" where
  "hasAttribute I path =
     seq (log_access (Probed path))
     (bind (on_kernel (ii_exists I path)) (\<lambda>r.
      case r of None \<Rightarrow> throw (StdException ''attribute inaccessible'') | Some b \<Rightarrow> ret b))"

definition attribute :: "'s iio \<Rightarrow> string \<Rightarrow> string \<Rightarrow> string \<Rightarrow> string \<Rightarrow> ('s, string) iio_io" where
  "attribute I device channel kind ending =
     bind (hasAttribute I (path_join device (channel @ ending))) (\<lambda>found.
     ret (if found then path_join device (channel @ ending) else path_join device (''in_'' @ kind @ ending)))"

definition nul :: char where "nul = CHR 0x00"

function compatible_loop :: "string \<Rightarrow> string \<Rightarrow> bool" where
  "compatible_loop expected s =
     (if s = [] then False
      else takeWhile (\<lambda>c. c \<noteq> nul) s = expected \<or>
        (case dropWhile (\<lambda>c. c \<noteq> nul) s of [] \<Rightarrow> False | _ # rest \<Rightarrow> compatible_loop expected rest))"
  by pat_completeness auto

termination
proof (relation "measure (length \<circ> snd)")
  fix expected s c rest
  assume "dropWhile (\<lambda>c. c \<noteq> nul) s = c # rest"
  then have "length (c # rest) \<le> length s" using length_dropWhile_le [of "\<lambda>c. c \<noteq> nul" s] by simp
  then show "((expected, rest), expected, s) \<in> measure (length \<circ> snd)" by simp
qed simp

declare compatible_loop.simps [simp del]

definition compatible_node :: "'s iio \<Rightarrow> string \<Rightarrow> string \<Rightarrow> ('s, bool) iio_io" where
  "compatible_node I node expected =
     bind (read_attribute I (path_join node ''compatible'')) (\<lambda>values. ret (compatible_loop expected values))"

section \<open>Channels\<close>

definition sensor_domain :: "string \<Rightarrow> string" where
  "sensor_domain label =
     (if starts_with label ''VCC_PS'' \<or> starts_with label ''PS_'' \<or> label = ''Temp_LPD'' \<or> label = ''Temp_FPD'' then ''PS''
      else if label \<in> {''VCCINT'', ''VCCAUX'', ''VCCBRAM'', ''VCCAMS'', ''Temp_PL''} then ''PL''
      else ''unknown'')"

definition channel_of :: "string \<Rightarrow> string \<Rightarrow> bool" where
  "channel_of kind channel =
     (starts_with channel (''in_'' @ kind) \<and>
      (let index = drop (length (''in_'' @ kind)) channel in index \<noteq> [] \<and> list_all isdigit index))"

definition channelKind :: "string \<Rightarrow> string" where
  "channelKind channel =
     (if channel_of ''voltage'' channel then ''voltage'' else if channel_of ''temp'' channel then ''temp'' else [])"

text \<open>The map of the channels, by its keys: the kind is a function of the channel.\<close>

definition add_channel :: "string \<Rightarrow> string \<Rightarrow> string list \<Rightarrow> string list" where
  "add_channel name ending channels =
     (if ends_with name ending then
        let base = take (length name - length ending) name
        in if channelKind base \<noteq> [] \<and> base \<notin> set channels then insort base channels else channels
      else channels)"

fun channel_entries :: "string list \<Rightarrow> string list \<Rightarrow> string list result" where
  "channel_entries [] channels = Inr channels"
| "channel_entries (name # names) channels =
     (let found = fold (add_channel name) [''_raw'', ''_input'', ''_label''] channels
      in if length found > 256 then Inl (StdException ''too many AMS channels'') else channel_entries names found)"

text \<open>\<open>directory_iterator\<close>: an error in a listing surfaces after the entries before it.\<close>

definition after_listing :: "bool \<Rightarrow> 'a result \<Rightarrow> 'a result" where
  "after_listing complete r =
     (case r of Inl e \<Rightarrow> Inl e | Inr x \<Rightarrow> if complete then Inr x else Inl (StdException ''directory iterator error''))"

definition degree_sign :: string where "degree_sign = [char_of (0xC2 :: nat), char_of (0xB0 :: nat)]"

definition new_reading :: "string \<Rightarrow> string \<Rightarrow> reading" where
  "new_reading identity channel =
     \<lparr>rd_id = identity @ ''/'' @ channel, rd_device = identity, rd_source_channel = channel, rd_label = channel,
      rd_domain = ''unknown'',
      rd_kind = (if channelKind channel = ''temp'' then ''temperature'' else ''voltage''),
      rd_unit = (if channelKind channel = ''temp'' then degree_sign @ ''C'' else ''V''),
      rd_value = None, rd_sampled_at_unix_ms = 0, rd_status = ''unavailable'', rd_error = []\<rparr>"

definition channel_label :: "'s iio \<Rightarrow> string \<Rightarrow> string \<Rightarrow> ('s, string) iio_io" where
  "channel_label I device channel =
     bind (hasAttribute I (path_join device (channel @ ''_label''))) (\<lambda>found.
     if found then
       bind (read_attribute I (path_join device (channel @ ''_label''))) (\<lambda>v. ret (if v \<noteq> [] then v else channel))
     else ret channel)"

definition channel_raw :: "'s iio \<Rightarrow> string \<Rightarrow> string \<Rightarrow> ('s, double) iio_io" where
  "channel_raw I device channel =
     bind (number I (path_join device (channel @ ''_raw''))) (\<lambda>raw.
     bind (attribute I device channel (channelKind channel) ''_scale'') (\<lambda>scale_file.
     bind (number I scale_file) (\<lambda>scale.
     bind (attribute I device channel (channelKind channel) ''_offset'') (\<lambda>offset_file.
     bind (hasAttribute I offset_file) (\<lambda>found.
     bind (if found then number I offset_file else ret (ii_zero I)) (\<lambda>offset.
     if \<not> ii_positive I scale then throw (StdException ''invalid channel scale'')
     else ret (ii_scaled I raw offset scale)))))))"

definition channel_value :: "'s iio \<Rightarrow> string \<Rightarrow> string \<Rightarrow> ('s, double) iio_io" where
  "channel_value I device channel =
     bind (hasAttribute I (path_join device (channel @ ''_input''))) (\<lambda>found.
     bind (if found then number I (path_join device (channel @ ''_input'')) else channel_raw I device channel) (\<lambda>v.
     if \<not> ii_isfinite I (ii_thousandth I v) then throw (StdException ''converted value overflow'')
     else ret (ii_thousandth I v)))"

text \<open>The body of the loop over the channels: what was set before an exception stays.\<close>

definition take_reading :: "'s iio \<Rightarrow> string \<Rightarrow> string \<Rightarrow> string \<Rightarrow> ('s, reading) iio_io" where
  "take_reading I device identity channel =
     bind (catch
       (bind (channel_label I device channel) (\<lambda>label.
        let reading = (new_reading identity channel)\<lparr>rd_label := label, rd_domain := sensor_domain label\<rparr>
        in catch
          (bind (channel_value I device channel) (\<lambda>v. ret (reading\<lparr>rd_value := Some v, rd_status := ''ok''\<rparr>)))
          (\<lambda>e. ret (reading\<lparr>rd_error := exn_what e\<rparr>))))
       (\<lambda>e. ret ((new_reading identity channel)\<lparr>rd_error := exn_what e\<rparr>))) (\<lambda>reading.
     bind (iio_now I) (\<lambda>now. ret (reading\<lparr>rd_sampled_at_unix_ms := now\<rparr>)))"

definition sampleDevice :: "'s iio \<Rightarrow> string \<Rightarrow> string \<Rightarrow> ('s, reading list) iio_io" where
  "sampleDevice I device identity =
     bind (on_kernel (ii_entries I device)) (\<lambda>(names, complete).
     bind (of_result (after_listing complete (channel_entries names []))) (\<lambda>channels.
     map_io (take_reading I device identity) channels))"

section \<open>The snapshot\<close>

fun device_entries :: "string list \<Rightarrow> string list \<Rightarrow> string list result" where
  "device_entries [] devices = Inr devices"
| "device_entries (name # names) devices =
     (let found = (if starts_with name ''iio:device'' then devices @ [name] else devices)
      in if length found > 64 then Inl (StdException ''too many IIO devices'') else device_entries names found)"

definition identity_of :: "string \<Rightarrow> string" where
  "identity_of canonical =
     (case find_str ''/base/'' canonical of
        None \<Rightarrow> filename (path_of canonical)
      | Some base \<Rightarrow> drop (base + 6) canonical)"

definition matching_device :: "'s iio \<Rightarrow> selector \<Rightarrow> string \<Rightarrow> ('s, reading list) iio_io" where
  "matching_device I selector device =
     bind (hasAttribute I (path_join device ''of_node'')) (\<lambda>found.
     let node = (if found then path_join device ''of_node'' else path_join device ''device/of_node'') in
     bind (compatible_node I node (se_compatible selector)) (\<lambda>ok.
     if \<not> ok then ret []
     else bind (on_kernel (ii_canonical I node)) (\<lambda>c.
       case c of
         None \<Rightarrow> throw (StdException ''cannot make canonical path'')
       | Some canonical \<Rightarrow>
           if se_device_tree_node selector \<noteq> [] \<and> filename (path_of canonical) \<noteq> se_device_tree_node selector then ret []
           else sampleDevice I device (identity_of canonical))))"

definition visit_device :: "'s iio \<Rightarrow> selector \<Rightarrow> string \<Rightarrow> ('s, reading list) iio_io" where
  "visit_device I selector device =
     bind (catch (bind (read_attribute I (path_join device ''name'')) (\<lambda>n. ret (Some n))) (\<lambda>_. ret None)) (\<lambda>name.
     if name \<noteq> Some ''xilinx-ams'' then ret [] else matching_device I selector device)"

text \<open>The readings taken so far stay in the snapshot when a device fails.\<close>

fun visit_devices :: "'s iio \<Rightarrow> selector \<Rightarrow> string list \<Rightarrow> reading list \<Rightarrow> ('s, exn option \<times> reading list) iio_io" where
  "visit_devices I selector [] readings = ret (None, readings)"
| "visit_devices I selector (device # devices) readings =
     bind (catch (bind (visit_device I selector device) (\<lambda>rs. ret (Inr rs))) (\<lambda>e. ret (Inl e))) (\<lambda>r.
     case r of
       Inl e \<Rightarrow> ret (Some e, readings)
     | Inr rs \<Rightarrow> visit_devices I selector devices (readings @ rs))"

definition failed_snapshot :: "int \<Rightarrow> reading list \<Rightarrow> snapshot" where
  "failed_snapshot t readings =
     \<lparr>sn_status = (if readings = [] then ''unavailable'' else ''partial''),
      sn_error = ''AMS discovery or channel enumeration failed'', sn_sampled_at_unix_ms = t, sn_readings = readings\<rparr>"

definition complete_snapshot :: "int \<Rightarrow> reading list \<Rightarrow> snapshot" where
  "complete_snapshot t readings =
     \<lparr>sn_status = (if readings = [] then ''unavailable''
                   else if list_all (\<lambda>r. rd_value r \<noteq> None) readings then ''ok'' else ''partial''),
      sn_error = (if readings = [] then ''no matching AMS channels exposed'' else []),
      sn_sampled_at_unix_ms = t, sn_readings = sort_key rd_id readings\<rparr>"

definition readSnapshot :: "'s iio \<Rightarrow> selector \<Rightarrow> string \<Rightarrow> ('s, snapshot) iio_io" where
  "readSnapshot I selector root =
     bind (iio_now I) (\<lambda>t.
     if se_compatible selector \<noteq> ''xlnx,zynqmp-ams'' then
       ret (default_snapshot\<lparr>sn_status := ''unsupported'', sn_error := ''unsupported SYSMON compatible'',
         sn_sampled_at_unix_ms := t\<rparr>)
     else bind (on_kernel (ii_entries I root)) (\<lambda>(names, complete).
       case after_listing complete (device_entries names []) of
         Inl e \<Rightarrow> ret (failed_snapshot t [])
       | Inr devices \<Rightarrow>
           bind (visit_devices I selector (map (path_join root) (sort devices)) []) (\<lambda>(failure, readings).
           ret (case failure of Some e \<Rightarrow> failed_snapshot t readings | None \<Rightarrow> complete_snapshot t readings))))"

section \<open>Readings are sound\<close>

text \<open>A reading has a finite value exactly when it is marked as good.\<close>

definition sound_reading :: "'s iio \<Rightarrow> reading \<Rightarrow> bool" where
  "sound_reading I r =
     (case rd_value r of
        Some v \<Rightarrow> ii_isfinite I v \<and> rd_status r = ''ok'' \<and> rd_error r = []
      | None \<Rightarrow> rd_status r = ''unavailable'')"

lemma wp_any: "wp m (\<lambda>_ _. True) (\<lambda>_ _. True) s"
  by (rule wp_eqI) simp_all

lemma wp_kernel: "wp (on_kernel f) Q R w = (case f (is_kernel w) of (x, k) \<Rightarrow> Q x (w\<lparr>is_kernel := k\<rparr>))"
  by (simp add: wp_def on_kernel_def split: prod.split)

lemma wp_now: "wp (iio_now I) Q R w = (case ii_now I (is_kernel w) of (t, k) \<Rightarrow> Q (truncate_to_ms t) (w\<lparr>is_kernel := k\<rparr>))"
  by (simp add: iio_now_def wp_bind wp_kernel wp_ret split: prod.split)

lemma channel_value_finite: "wp (channel_value I device channel) (\<lambda>v _. ii_isfinite I v) (\<lambda>_ _. True) w"
  unfolding channel_value_def wp_bind
  by (rule wp_mono [OF wp_any], rule wp_mono [OF wp_any]) (simp_all add: wp_rules)

lemma take_reading_sound:
  "wp (take_reading I device identity channel) (\<lambda>r _. sound_reading I r) (\<lambda>_ _. False) w"
proof -
  have now: "wp (bind (iio_now I) (\<lambda>now. ret (r\<lparr>rd_sampled_at_unix_ms := now\<rparr>))) (\<lambda>r _. sound_reading I r) (\<lambda>_ _. False) w'"
    if "sound_reading I r" for r w'
    using that by (auto simp: iio_now_def wp_rules wp_kernel sound_reading_def split: prod.split option.splits)
  have sound: "sound_reading I ((new_reading identity channel)\<lparr>rd_error := e\<rparr>)"
    "sound_reading I ((new_reading identity channel)\<lparr>rd_label := l, rd_domain := d, rd_error := e\<rparr>)"
    "ii_isfinite I v \<Longrightarrow> sound_reading I ((new_reading identity channel)\<lparr>rd_label := l, rd_domain := d, rd_value := Some v, rd_status := ''ok''\<rparr>)"
    for l d e v
    by (simp_all add: sound_reading_def new_reading_def)
  show ?thesis
    unfolding take_reading_def wp_bind [of "catch _ _"] wp_catch Let_def wp_bind [of "channel_label _ _ _"]
      wp_bind [of "channel_value _ _ _"] wp_ret
    by (rule wp_mono [OF wp_any])
       (auto intro!: now sound wp_mono [OF channel_value_finite])
qed

lemma sampleDevice_sound:
  "wp (sampleDevice I device identity) (\<lambda>rs _. list_all (sound_reading I) rs) (\<lambda>_ _. True) w"
proof -
  have "wp (map_io (take_reading I device identity) channels) (\<lambda>rs _. list_all (sound_reading I) rs \<and> True) (\<lambda>_ _. True) w" for channels w
    by (rule wp_map_io [where I = "\<lambda>_. True"]) (auto intro: wp_mono [OF take_reading_sound])
  then show ?thesis
    by (auto simp: sampleDevice_def wp_bind wp_kernel wp_of_result split: prod.split sum.split)
qed

lemma visit_device_sound:
  "wp (visit_device I selector device) (\<lambda>rs _. list_all (sound_reading I) rs) (\<lambda>_ _. True) w"
proof -
  have matching: "wp (matching_device I selector device) (\<lambda>rs _. list_all (sound_reading I) rs) (\<lambda>_ _. True) w" for w
    unfolding matching_device_def wp_bind Let_def
    by (rule wp_mono [OF wp_any], rule wp_mono [OF wp_any])
       (auto simp: wp_rules wp_kernel sampleDevice_sound split: prod.split option.split)
  show ?thesis
    unfolding visit_device_def wp_bind [of "catch _ _"]
    by (rule wp_mono [OF wp_any]) (auto simp: wp_ret matching)
qed

lemma visit_devices_sound:
  "list_all (sound_reading I) readings \<Longrightarrow>
   wp (visit_devices I selector devices readings) (\<lambda>(_, rs) _. list_all (sound_reading I) rs) (\<lambda>_ _. False) w"
proof (induction devices arbitrary: readings w)
  case Nil
  then show ?case by (simp add: wp_ret)
next
  case (Cons device devices)
  then show ?case
    unfolding visit_devices.simps wp_bind wp_catch wp_ret sum.case
    by (intro wp_mono [OF visit_device_sound]) auto
qed

text \<open>How the status of a snapshot and its readings agree.\<close>

definition classified :: "snapshot \<Rightarrow> bool" where
  "classified s =
     (sn_status s \<in> {''ok'', ''partial'', ''unavailable'', ''unsupported''} \<and>
      (sn_readings s = [] \<longleftrightarrow> sn_status s \<in> {''unavailable'', ''unsupported''}) \<and>
      (sn_error s = [] \<longrightarrow> sorted (map rd_id (sn_readings s))) \<and>
      (sn_status s = ''ok'' \<longleftrightarrow> sn_readings s \<noteq> [] \<and> sn_error s = [] \<and> list_all (\<lambda>r. rd_value r \<noteq> None) (sn_readings s)))"

lemma list_all_sort [simp]: "list_all P (sort_key f xs) = list_all P xs"
  by (simp add: list_all_iff)

lemma classified_results: "classified (failed_snapshot t rs)" "classified (complete_snapshot t rs)"
  by (auto simp: classified_def failed_snapshot_def complete_snapshot_def) (metis length_0_conv length_sort)+

lemma snapshot_sound:
  "wp (readSnapshot I selector root) (\<lambda>s _. list_all (sound_reading I) (sn_readings s) \<and> classified s) (\<lambda>_ _. False) w"
proof -
  have visited: "wp (bind (visit_devices I selector devices []) (\<lambda>(failure, readings).
      ret (case failure of Some e \<Rightarrow> failed_snapshot t readings | None \<Rightarrow> complete_snapshot t readings)))
      (\<lambda>s _. list_all (sound_reading I) (sn_readings s) \<and> classified s) (\<lambda>_ _. False) w" for devices t w
    unfolding wp_bind
    by (rule wp_mono [OF visit_devices_sound])
       (auto simp: wp_ret classified_results failed_snapshot_def [THEN arg_cong [where f = sn_readings]]
         complete_snapshot_def [THEN arg_cong [where f = sn_readings]] split: option.split)
  show ?thesis
    unfolding readSnapshot_def
    by (auto simp: wp_bind [of "iio_now _"] wp_bind [of "on_kernel _"] wp_now wp_kernel wp_ret visited classified_results
        failed_snapshot_def [THEN arg_cong [where f = sn_readings]] default_snapshot_def classified_def [of "\<lparr>sn_status = ''unsupported'', sn_error = _, sn_sampled_at_unix_ms = _, sn_readings = _\<rparr>"]
        split: prod.split sum.split)
qed

section \<open>Only matching devices are read\<close>

definition access_path :: "access \<Rightarrow> string" where
  "access_path a = (case a of Opened p v \<Rightarrow> p | Probed p \<Rightarrow> p)"

text \<open>The device identified itself as an AMS: its name and the compatible strings of its node were read.\<close>

definition identified :: "selector \<Rightarrow> string \<Rightarrow> access list \<Rightarrow> bool" where
  "identified selector d t =
     (Opened (path_join d ''name'') (Some ''xilinx-ams'') \<in> set t \<and>
      (\<exists>node\<in>{path_join d ''of_node'', path_join d ''device/of_node''}. \<exists>v.
         Opened (path_join node ''compatible'') (Some v) \<in> set t \<and> compatible_loop (se_compatible selector) v))"

text \<open>The files that identify a device.\<close>

definition identity_paths :: "string \<Rightarrow> string set" where
  "identity_paths d =
     {path_join d ''name'', path_join d ''of_node'', path_join (path_join d ''of_node'') ''compatible'',
      path_join (path_join d ''device/of_node'') ''compatible''}"

definition confined :: "selector \<Rightarrow> string set \<Rightarrow> access list \<Rightarrow> bool" where
  "confined selector D t =
     (\<forall>t1 a t2. t = t1 @ a # t2 \<longrightarrow>
        (\<exists>d\<in>D. access_path a \<in> identity_paths d \<or> (identified selector d t1 \<and> (\<exists>x. access_path a = path_join d x))))"

definition logged :: "access list \<Rightarrow> (access list \<Rightarrow> bool) \<Rightarrow> 's iio_state \<Rightarrow> bool" where
  "logged T G w = (\<exists>t. is_log w = T @ t \<and> G t)"

lemma logged_access: "(\<And>t. G t \<Longrightarrow> G (t @ [a])) \<Longrightarrow> keeps (logged T G) (log_access a)"
  by (fastforce simp: keeps_def log_access_def modify_def logged_def)

lemma logged_kernel: "keeps (logged T G) (on_kernel f)"
  by (auto simp: keeps_def on_kernel_def logged_def split: prod.split)

lemma logged_now: "keeps (logged T G) (iio_now I)"
  unfolding iio_now_def by (intro keeps_rules logged_kernel)

lemma logged_read:
  "(\<And>t v. G t \<Longrightarrow> G (t @ [Opened p v])) \<Longrightarrow> keeps (logged T G) (read_attribute I p)"
  unfolding read_attribute_def by (intro keeps_rules logged_kernel logged_access)

lemma logged_probe:
  "(\<And>t. G t \<Longrightarrow> G (t @ [Probed p])) \<Longrightarrow> keeps (logged T G) (hasAttribute I p)"
  unfolding hasAttribute_def
  by (intro keeps_rules logged_kernel logged_access) (auto split: option.split intro: keeps_rules)

lemma logged_number:
  "(\<And>t v. G t \<Longrightarrow> G (t @ [Opened p v])) \<Longrightarrow> keeps (logged T G) (number I p)"
  unfolding number_def
  by (intro keeps_rules logged_read) (auto split: option.split prod.split intro: keeps_rules)

lemma wp_read_attribute:
  assumes "logged T G w" and "\<And>t v. G t \<Longrightarrow> G (t @ [Opened p v])"
  shows "wp (read_attribute I p) (\<lambda>v. logged T (\<lambda>t. G t \<and> Opened p (Some v) \<in> set t)) (\<lambda>_. logged T G) w"
  using assms unfolding read_attribute_def
  by (auto simp: wp_rules wp_kernel wp_of_result log_access_def logged_def split: prod.split sum.split)

text \<open>The file \<open>attribute\<close> chooses is one of the device.\<close>

lemma logged_attribute:
  assumes "\<And>t. G t \<Longrightarrow> G (t @ [Probed (path_join device (channel @ ending))])" and "\<And>x. keeps (logged T G) (k (path_join device x))"
  shows "keeps (logged T G) (bind (attribute I device channel kind ending) k)"
proof -
  have "bind (attribute I device channel kind ending) k = bind (hasAttribute I (path_join device (channel @ ending))) (\<lambda>found.
      k (path_join device (if found then channel @ ending else ''in_'' @ kind @ ending)))"
    by (rule ext) (simp add: attribute_def bind_def ret_def split: sum.split prod.split)
  then show ?thesis using assms by (simp add: keeps_bind logged_probe)
qed

text \<open>Every access of the body of a device lies in that device.\<close>

lemma logged_sample:
  assumes inside: "\<And>t a x. G t \<Longrightarrow> access_path a = path_join device x \<Longrightarrow> G (t @ [a])"
  shows "keeps (logged T G) (sampleDevice I device identity)"
proof -
  have opened: "G t \<Longrightarrow> G (t @ [Opened (path_join device x) v])" and probed: "G t \<Longrightarrow> G (t @ [Probed (path_join device x)])" for t x v
    by (rule inside; simp add: access_path_def)+
  have label: "keeps (logged T G) (channel_label I device channel)" for channel
    unfolding channel_label_def by (intro keeps_rules logged_probe logged_read opened probed)
  have raw: "keeps (logged T G) (channel_raw I device channel)" for channel
    unfolding channel_raw_def by (intro logged_attribute keeps_rules logged_probe logged_number opened probed)
  have v: "keeps (logged T G) (channel_value I device channel)" for channel
    unfolding channel_value_def by (intro keeps_rules raw logged_probe logged_number opened probed)
  show ?thesis
    unfolding sampleDevice_def take_reading_def Let_def
    by (intro keeps_rules logged_kernel) (auto split: prod.split intro!: keeps_rules label v logged_now)
qed

lemma confined_append:
  assumes "confined selector D t" and "d \<in> D"
    and "access_path a \<in> identity_paths d \<or> (identified selector d t \<and> (\<exists>x. access_path a = path_join d x))"
  shows "confined selector D (t @ [a])"
  using assms unfolding confined_def append_Cons_snoc by blast

lemma identified_append: "identified selector d t \<Longrightarrow> identified selector d (t @ t')"
  by (auto simp: identified_def)

lemma logged_mono: "logged T G w \<Longrightarrow> (\<And>t. G t \<Longrightarrow> H t) \<Longrightarrow> logged T H w"
  by (auto simp: logged_def)

lemma confined_visit:
  fixes I :: "'s iio"
  assumes d: "d \<in> D"
  shows "keeps (logged T (confined selector D)) (visit_device I selector d)"
proof -
  let ?C = "confined selector D" and ?N = "Opened (path_join d ''name'') (Some ''xilinx-ams'')"
  have ident: "?C (t @ [a])" if "?C t" "access_path a \<in> identity_paths d" for t a
    using confined_append [OF that(1) d] that(2) by blast
  have sample: "keeps (logged T (\<lambda>t. ?C t \<and> identified selector d t)) (sampleDevice I d identity)" for identity
    by (rule logged_sample) (auto intro: confined_append [OF _ d] identified_append)
  let ?rest = "\<lambda>node. bind (on_kernel (ii_canonical I node)) (\<lambda>c.
         case c of None \<Rightarrow> throw (StdException ''cannot make canonical path'')
         | Some canonical \<Rightarrow>
             if se_device_tree_node selector \<noteq> [] \<and> filename (path_of canonical) \<noteq> se_device_tree_node selector then ret []
             else sampleDevice I d (identity_of canonical))"
  have rest: "keeps (logged T (\<lambda>t. ?C t \<and> identified selector d t)) (?rest node)" for node
    by (intro keeps_rules logged_kernel) (auto split: option.split intro: keeps_rules sample)
  have body: "wp (if \<not> compatible_loop (se_compatible selector) v then ret [] else ?rest node) (\<lambda>_. logged T ?C) (\<lambda>_. logged T ?C) w"
    if now: "logged T (\<lambda>t. (?C t \<and> ?N \<in> set t) \<and> Opened (path_join node ''compatible'') (Some v) \<in> set t) w"
      and node: "node \<in> {path_join d ''of_node'', path_join d ''device/of_node''}" for v node w
  proof (cases "compatible_loop (se_compatible selector) v")
    case True
    have "logged T (\<lambda>t. ?C t \<and> identified selector d t) w"
      by (rule logged_mono [OF now]) (use True node in \<open>auto simp: identified_def\<close>)
    then show ?thesis
      by (simp only: True not_True_eq_False if_False) (rule keeps_then [OF rest], auto elim: logged_mono)
  qed (auto simp: wp_ret intro: logged_mono [OF now])
  have matching: "wp (matching_device I selector d) (\<lambda>_. logged T ?C) (\<lambda>_. logged T ?C) w"
    if "logged T (\<lambda>t. ?C t \<and> ?N \<in> set t) w" for w
  proof -
    let ?G = "\<lambda>t. ?C t \<and> ?N \<in> set t"
    have G: "?G (t @ [a])" if "?G t" "access_path a \<in> identity_paths d" for t a
      using that ident by auto
    have probe: "keeps (logged T ?G) (hasAttribute I (path_join d ''of_node''))"
      by (rule logged_probe) (rule G, auto simp: access_path_def identity_paths_def)
    have read: "wp (bind (compatible_node I node (se_compatible selector)) (\<lambda>ok. if \<not> ok then ret [] else ?rest node))
        (\<lambda>_. logged T ?C) (\<lambda>_. logged T ?C) w"
      if "logged T ?G w" and node: "node \<in> {path_join d ''of_node'', path_join d ''device/of_node''}" for w node
      unfolding compatible_node_def wp_bind [of "bind _ _"] wp_bind [of "read_attribute _ _"] wp_ret
    proof (rule wp_mono [OF wp_read_attribute [OF that(1)]])
      show "?G (t @ [Opened (path_join node ''compatible'') v])" if "?G t" for t v
        using node by (intro G [OF that]) (auto simp: access_path_def identity_paths_def)
    qed (rule body [OF _ node], assumption, erule logged_mono, rule conjunct1)
    show ?thesis
      unfolding matching_device_def Let_def wp_bind [of "hasAttribute _ _"]
      using probe that
      by (rule keeps_then) (rule read, assumption, simp, erule logged_mono, rule conjunct1)
  qed
  show ?thesis
  proof (rule keepsI)
    fix w :: "'s iio_state"
    assume w: "logged T ?C w"
    have "wp (read_attribute I (path_join d ''name''))
        (\<lambda>v. logged T (\<lambda>t. ?C t \<and> Opened (path_join d ''name'') (Some v) \<in> set t)) (\<lambda>_. logged T ?C) w"
      by (rule wp_read_attribute [OF w]) (rule ident, auto simp: access_path_def identity_paths_def)
    then show "wp (visit_device I selector d) (\<lambda>_. logged T ?C) (\<lambda>_. logged T ?C) w"
      unfolding visit_device_def wp_bind [of "catch _ _"] wp_catch wp_bind [of "read_attribute _ _"] wp_ret
      by (rule wp_mono) (auto simp: wp_ret intro: matching elim: logged_mono)
  qed
qed

lemma confined_visits:
  "set devices \<subseteq> D \<Longrightarrow> keeps (logged T (confined selector D)) (visit_devices I selector devices readings)"
proof (induction devices arbitrary: readings)
  case Nil
  then show ?case by (simp add: keeps_ret)
next
  case (Cons d devices)
  then show ?case
    unfolding visit_devices.simps
    by (intro keeps_rules) (auto split: sum.split intro: confined_visit keeps_rules)
qed

lemma device_entries_set:
  "device_entries names devices = Inr found \<Longrightarrow> set found = set devices \<union> {n \<in> set names. starts_with n ''iio:device''}"
  by (induction names devices rule: device_entries.induct) (auto simp: Let_def split: if_splits)

text \<open>The paths of the devices of a directory.\<close>

definition iio_devices :: "string \<Rightarrow> string set" where
  "iio_devices root = {path_join root name | name. starts_with name ''iio:device''}"

section \<open>Properties\<close>



text \<open>An acquisition device and an AMS with one channel.\<close>

definition example_iio :: "unit iio" where
  "example_iio =
     \<lparr>ii_open = (\<lambda>p k. (map_option (\<lambda>s. (s, False)) (map_of
        [(''/iio/iio:device0/name'', ''meter''), (''/iio/iio:device7/name'', ''xilinx-ams''),
         (''/iio/iio:device7/of_node/compatible'', ''xlnx,zynqmp-ams'' @ [nul]),
         (''/iio/iio:device7/in_temp1_input'', ''41717'')] p), k)),
      ii_exists = (\<lambda>p k. (Some (p \<in> {''/iio/iio:device7/of_node'', ''/iio/iio:device7/in_temp1_input''}), k)),
      ii_entries = (\<lambda>p k. ((if p = ''/iio'' then [''iio:device7'', ''iio:device0'', ''trigger0'']
                             else if p = ''/iio/iio:device7'' then [''name'', ''in_temp1_input''] else [], True), k)),
      ii_canonical = (\<lambda>p k. (Some ''/sys/firmware/devicetree/base/axi/ams@ffa50000'', k)),
      ii_now = (\<lambda>k. (0, k)), ii_parse = (\<lambda>s. Some (of_nat (length s), [])), ii_isfinite = (\<lambda>_. True),
      ii_positive = (\<lambda>x. x > 0), ii_zero = 0, ii_scaled = (\<lambda>raw offset scale. (raw + offset) * scale),
      ii_thousandth = (\<lambda>x. x)\<rparr>"

definition example_iio_state :: "unit iio_state" where
  "example_iio_state = \<lparr>is_log = [], is_kernel = ()\<rparr>"

lemma example_read:
  "read_attribute example_iio p w =
     (case map_option (\<lambda>s. (s, False)) (map_of
        [(''/iio/iio:device0/name'', ''meter''), (''/iio/iio:device7/name'', ''xilinx-ams''),
         (''/iio/iio:device7/of_node/compatible'', ''xlnx,zynqmp-ams'' @ [nul]),
         (''/iio/iio:device7/in_temp1_input'', ''41717'')] p) of
        None \<Rightarrow> (Inl (StdException ''attribute unreadable''), w\<lparr>is_log := is_log w @ [Opened p None]\<rparr>)
      | Some (s, _) \<Rightarrow> (Inr s, w\<lparr>is_log := is_log w @ [Opened p (Some s)]\<rparr>))"
  by (simp add: read_attribute_def example_iio_def on_kernel_def bind_def seq_def log_access_def modify_def of_result_def
      attribute_value_def trailing_def nul_def)

lemma example_channels: "channel_entries [''name'', ''in_temp1_input''] [] = Inr [''in_temp1'']"
  "channelKind ''in_temp1'' = ''temp''"
  by code_simp+

lemma example_devices: "sort [''iio:device7'', ''iio:device0''] = [''iio:device0'', ''iio:device7'']"
  "device_entries [''iio:device7'', ''iio:device0'', ''trigger0''] [] = Inr [''iio:device7'', ''iio:device0'']"
  by code_simp+

lemma example_compatible: "compatible_loop ''xlnx,zynqmp-ams'' (''xlnx,zynqmp-ams'' @ [nul])"
  by (simp add: compatible_loop.simps nul_def)

lemma example_probe:
  "hasAttribute example_iio p w =
     (Inr (p \<in> {''/iio/iio:device7/of_node'', ''/iio/iio:device7/in_temp1_input''}), w\<lparr>is_log := is_log w @ [Probed p]\<rparr>)"
  by (simp add: hasAttribute_def example_iio_def on_kernel_def bind_def seq_def log_access_def modify_def ret_def)

lemmas example_run = bind_def seq_def ret_def catch_def on_kernel_def example_read example_probe Let_def of_result_def

lemma example_reading: "take_reading example_iio ''/iio/iio:device7'' i ''in_temp1'' w =
    (Inr ((new_reading i ''in_temp1'')\<lparr>rd_domain := ''unknown'', rd_value := Some 5, rd_status := ''ok''\<rparr>),
     w\<lparr>is_log := is_log w @ [Probed ''/iio/iio:device7/in_temp1_label'', Probed ''/iio/iio:device7/in_temp1_input'',
      Opened ''/iio/iio:device7/in_temp1_input'' (Some ''41717'')]\<rparr>)"
proof -
  have kernel: "ii_now example_iio k = (0, k)" "ii_parse example_iio s = Some (of_nat (length s), [])"
    "ii_isfinite example_iio x" "ii_thousandth example_iio x = x" for k s x
    by (simp_all add: example_iio_def)
  show ?thesis
    by (simp add: take_reading_def channel_label_def channel_value_def number_def iio_now_def example_run path_join_def
        kernel new_reading_def sensor_domain_def starts_with_def truncate_to_ms_def)
qed

lemma example_log: "is_log (snd (readSnapshot example_iio default_selector ''/iio'' example_iio_state)) =
   [Opened ''/iio/iio:device0/name'' (Some ''meter''), Opened ''/iio/iio:device7/name'' (Some ''xilinx-ams''),
    Probed ''/iio/iio:device7/of_node'', Opened ''/iio/iio:device7/of_node/compatible'' (Some (''xlnx,zynqmp-ams'' @ [nul])),
    Probed ''/iio/iio:device7/in_temp1_label'', Probed ''/iio/iio:device7/in_temp1_input'',
    Opened ''/iio/iio:device7/in_temp1_input'' (Some ''41717'')]"
proof -
  have entries: "ii_entries example_iio ''/iio'' k = (([''iio:device7'', ''iio:device0'', ''trigger0''], True), k)"
    "ii_entries example_iio ''/iio/iio:device7'' k = (([''name'', ''in_temp1_input''], True), k)"
    "ii_canonical example_iio p k = (Some ''/sys/firmware/devicetree/base/axi/ams@ffa50000'', k)"
    "ii_now example_iio k = (0, k)" for k p
    by (simp_all add: example_iio_def)
  show ?thesis
    by (simp add: readSnapshot_def default_selector_def iio_now_def example_run entries after_listing_def example_devices
        visit_device_def matching_device_def compatible_node_def sampleDevice_def example_channels example_compatible [simplified]
        example_iio_state_def path_join_def example_reading del: channel_entries.simps device_entries.simps)
qed


end
